(* ===== verification/Prelude.thy ===== *)
theory Prelude
  imports Main "HOL-Library.AList" "HOL-Library.List_Lexorder" "HOL-Library.Char_ord"
begin

text \<open>
  Shared vocabulary of the development.

  \<^item> Effects. An operation that reads and changes a state and may raise is a function from the
    state to a pair of a result (\<open>Inl\<close> the raised error, \<open>Inr\<close> the returned value) and the
    new state. The state comes with the error too: in Python what was written before a
    \<open>raise\<close> stays written. \<open>and_then\<close> sequences two such operations.
  \<^item> Dictionaries. A Python \<open>dict\<close> keeps insertion order and replaces a value in place, which
    is what \<open>AList.update\<close> does on association lists. \<open>dict_get\<close>, \<open>dict_set\<close>, \<open>dict_del\<close>,
    \<open>dict_values\<close> and \<open>dict_map\<close> name the uses the code makes of it.
  \<^item> The collections \<open>dict_simps\<close> and \<open>service_defs\<close> and the bundle \<open>effect_splits\<close> carry the component proofs.
\<close>

named_theorems dict_simps
named_theorems service_defs

section \<open>Effects\<close>

type_synonym ('e, 's, 'a) outcome = "('e + 'a) \<times> 's"

fun and_then :: "('e, 's, 'a) outcome \<Rightarrow> ('a \<Rightarrow> 's \<Rightarrow> ('e, 's, 'b) outcome) \<Rightarrow> ('e, 's, 'b) outcome" where
  "and_then (Inl e, s) k = (Inl e, s)"
| "and_then (Inr a, s) k = k a s"

lemma and_then_split:
  "P (and_then m k) \<longleftrightarrow>
     (\<forall>e s. m = (Inl e, s) \<longrightarrow> P (Inl e, s)) \<and> (\<forall>a s. m = (Inr a, s) \<longrightarrow> P (k a s))"
  by (cases m; cases "fst m"; auto)

lemma and_then_split_asm:
  "P (and_then m k) \<longleftrightarrow>
     \<not> ((\<exists>e s. m = (Inl e, s) \<and> \<not> P (Inl e, s)) \<or> (\<exists>a s. m = (Inr a, s) \<and> \<not> P (k a s)))"
  by (cases m; cases "fst m"; auto)

lemmas effect_splits = and_then_split and_then_split_asm

lemma and_then_eq_InrD:
  "and_then m k = (Inr b, s') \<Longrightarrow> \<exists>a s. m = (Inr a, s) \<and> k a s = (Inr b, s')"
  by (cases m; cases "fst m"; auto)

lemma and_then_eq_Inr_iff:
  "and_then m k = (Inr b, s') \<longleftrightarrow> (\<exists>a s. m = (Inr a, s) \<and> k a s = (Inr b, s'))"
  by (cases m; cases "fst m"; auto)

text \<open>\<open>returns r\<close>: the operation came back with a value; \<open>raises r\<close>: it raised.\<close>

fun returned :: "('e, 's, 'a) outcome \<Rightarrow> bool" where
  "returned (Inl e, s) = False"
| "returned (Inr a, s) = True"

lemma returned_iff: "returned m \<longleftrightarrow> (\<exists>a s. m = (Inr a, s))"
  by (cases m; cases "fst m"; auto)

section \<open>Insertion-ordered dictionaries\<close>

type_synonym ('k, 'v) dict = "('k \<times> 'v) list"

definition dict_get :: "('k, 'v) dict \<Rightarrow> 'k \<Rightarrow> 'v option" where
  "dict_get d k = map_of d k"

definition dict_set :: "('k, 'v) dict \<Rightarrow> 'k \<Rightarrow> 'v \<Rightarrow> ('k, 'v) dict" where
  "dict_set d k v = AList.update k v d"

definition dict_del :: "('k, 'v) dict \<Rightarrow> 'k \<Rightarrow> ('k, 'v) dict" where
  "dict_del d k = AList.delete k d"

definition dict_values :: "('k, 'v) dict \<Rightarrow> 'v list" where
  "dict_values d = map snd d"

definition dict_map :: "('k \<Rightarrow> 'v \<Rightarrow> 'v) \<Rightarrow> ('k, 'v) dict \<Rightarrow> ('k, 'v) dict" where
  "dict_map f d = map (\<lambda>(k, v). (k, f k v)) d"

definition dict_ok :: "('k, 'v) dict \<Rightarrow> bool" where
  "dict_ok d \<longleftrightarrow> distinct (map fst d)"

lemma dict_get_empty [dict_simps]: "dict_get [] k = None"
  by (simp add: dict_get_def)

lemma dict_get_set [dict_simps]:
  "dict_get (dict_set d k v) k' = (if k' = k then Some v else dict_get d k')"
  by (simp add: dict_get_def dict_set_def update_conv')

lemma dict_get_del [dict_simps]:
  "dict_get (dict_del d k) k' = (if k' = k then None else dict_get d k')"
  by (simp add: dict_get_def dict_del_def delete_conv')

lemma dict_get_map [dict_simps]: "dict_get (dict_map f d) k = map_option (f k) (dict_get d k)"
  by (induction d) (auto simp: dict_get_def dict_map_def)

lemma dict_ok_empty [dict_simps]: "dict_ok []"
  by (simp add: dict_ok_def)

lemma dict_ok_set [dict_simps]: "dict_ok (dict_set d k v) = dict_ok d"
  by (simp add: dict_ok_def dict_set_def update_keys)

lemma dict_ok_del [dict_simps]: "dict_ok d \<Longrightarrow> dict_ok (dict_del d k)"
  by (simp add: dict_ok_def dict_del_def distinct_delete)

lemma dict_ok_map [dict_simps]: "dict_ok (dict_map f d) = dict_ok d"
proof -
  have "map fst (dict_map f d) = map fst d"
    by (induction d) (auto simp: dict_map_def)
  then show ?thesis by (simp add: dict_ok_def)
qed

lemma dict_set_in_set:
  "(k', v') \<in> set (dict_set d k v) \<Longrightarrow> (k' = k \<and> v' = v) \<or> (k', v') \<in> set d"
  by (induction d) (auto simp: dict_set_def split: if_splits)

lemma dict_values_iff:
  "dict_ok d \<Longrightarrow> v \<in> set (dict_values d) \<longleftrightarrow> (\<exists>k. dict_get d k = Some v)"
  by (force simp: dict_ok_def dict_values_def dict_get_def)

lemma dict_in_set_iff: "dict_ok d \<Longrightarrow> (k, v) \<in> set d \<longleftrightarrow> dict_get d k = Some v"
  by (simp add: dict_ok_def dict_get_def)

lemma dict_set_new: "dict_get d k = None \<Longrightarrow> dict_set d k v = d @ [(k, v)]"
  by (induction d) (auto simp: dict_get_def dict_set_def split: if_splits)

lemma dict_set_middle:
  "k \<notin> fst ` set xs \<Longrightarrow> dict_set (xs @ (k, u) # ys) k v = xs @ (k, v) # ys"
  by (induction xs) (auto simp: dict_set_def)

lemma find_SomeD: "find P xs = Some x \<Longrightarrow> P x \<and> x \<in> set xs"
  by (induction xs) (auto split: if_splits)

lemma find_append:
  "List.find P (xs @ ys) = (case List.find P xs of Some x \<Rightarrow> Some x | None \<Rightarrow> List.find P ys)"
  by (induction xs) auto

section \<open>Lists\<close>

text \<open>The slice \<open>xs[:limit]\<close>: a negative limit counts from the end.\<close>

definition py_take :: "int \<Rightarrow> 'a list \<Rightarrow> 'a list" where
  "py_take limit xs =
     (if 0 \<le> limit then take (nat limit) xs else take (length xs - nat (- limit)) xs)"

lemma py_take_nonneg [simp]: "0 \<le> limit \<Longrightarrow> py_take limit xs = take (nat limit) xs"
  by (simp add: py_take_def)

lemma take_eq_Nil_pos: "0 < n \<Longrightarrow> take n xs = [] \<longleftrightarrow> xs = []"
  by auto

text \<open>In a strictly ordered list the elements above the one at position \<open>n\<close> are what follows it.\<close>

lemma filter_above_nth:
  assumes sorted: "sorted_wrt R xs" and n: "n < length xs"
    and irrefl: "\<not> R (xs ! n) (xs ! n)"
    and asym: "\<And>x y. R x y \<Longrightarrow> \<not> R y x"
  shows "filter (R (xs ! n)) xs = drop (Suc n) xs"
proof -
  have split: "xs = take n xs @ xs ! n # drop (Suc n) xs"
    using n by (rule id_take_nth_drop)
  have before: "filter (R (xs ! n)) (take n xs) = []"
  proof -
    have "\<not> R (xs ! n) x" if "x \<in> set (take n xs)" for x
    proof -
      from that obtain i where "i < n" "x = xs ! i"
        using n by (auto simp: in_set_conv_nth)
      then have "R x (xs ! n)"
        using sorted n by (auto simp: sorted_wrt_iff_nth_less)
      then show ?thesis by (rule asym)
    qed
    then show ?thesis by (simp add: filter_empty_conv)
  qed
  have after: "filter (R (xs ! n)) (drop (Suc n) xs) = drop (Suc n) xs"
  proof -
    have "R (xs ! n) x" if "x \<in> set (drop (Suc n) xs)" for x
    proof -
      from that obtain i where "i < length xs - Suc n" "x = xs ! (Suc n + i)"
        by (auto simp: in_set_conv_nth)
      then show ?thesis
        using sorted n by (auto simp: sorted_wrt_iff_nth_less)
    qed
    then show ?thesis by simp
  qed
  have "filter (R (xs ! n)) xs
      = filter (R (xs ! n)) (take n xs @ xs ! n # drop (Suc n) xs)"
    by (rule arg_cong [OF split])
  then show ?thesis
    using before after irrefl by simp
qed

end
