(* ===== verification/PyText.thy ===== *)
theory PyText
  imports Prelude
begin

text \<open>
  The Python string and \<open>datetime\<close> operations the code uses. A \<open>string\<close> is a list of
  characters with codes below 256, read as the Unicode code points U+0000 to U+00FF; text
  with other code points is outside the model. Strings are ordered as Python orders them,
  by code point, lexicographically (theories \<open>Char_ord\<close> and \<open>List_Lexorder\<close>).
\<close>

section \<open>Prefixes and separators\<close>

definition startswith :: "string \<Rightarrow> string \<Rightarrow> bool" where
  "startswith s p \<longleftrightarrow> take (length p) s = p"

definition removeprefix :: "string \<Rightarrow> string \<Rightarrow> string" where
  "removeprefix s p = (if startswith s p then drop (length p) s else s)"

lemma startswith_append [simp]: "startswith (p @ s) p"
  by (simp add: startswith_def)

lemma removeprefix_append [simp]: "removeprefix (p @ s) p = s"
  by (simp add: removeprefix_def)

lemma startswith_iff: "startswith s p \<longleftrightarrow> (\<exists>t. s = p @ t)"
  by (metis append_eq_conv_conj startswith_def)

text \<open>\<open>s.split(c)\<close> for a one-character separator, and \<open>s.split(c, maxsplit=1)\<close>.\<close>

fun split_on :: "char \<Rightarrow> string \<Rightarrow> string list" where
  "split_on c [] = [[]]"
| "split_on c (x # xs) =
     (if x = c then [] # split_on c xs
      else (case split_on c xs of [] \<Rightarrow> [[x]] | p # ps \<Rightarrow> (x # p) # ps))"

definition split_once :: "char \<Rightarrow> string \<Rightarrow> string list" where
  "split_once c s =
     (case dropWhile (\<lambda>x. x \<noteq> c) s of
        [] \<Rightarrow> [s]
      | _ # rest \<Rightarrow> [takeWhile (\<lambda>x. x \<noteq> c) s, rest])"

lemma split_on_nonempty: "split_on c s \<noteq> []"
  by (induction s) (auto split: list.splits)

lemma split_on_no_sep: "p \<in> set (split_on c s) \<Longrightarrow> c \<notin> set p"
proof (induction s arbitrary: p)
  case Nil
  then show ?case by simp
next
  case (Cons x xs)
  show ?case
  proof (cases "x = c")
    case True
    with Cons show ?thesis by auto
  next
    case False
    obtain q qs where q: "split_on c xs = q # qs"
      by (cases "split_on c xs") (simp_all add: split_on_nonempty)
    with False Cons.prems have "p = x # q \<or> p \<in> set qs" by auto
    with q False Cons.IH show ?thesis by auto
  qed
qed

lemma split_on_set: "p \<in> set (split_on c s) \<Longrightarrow> set p \<subseteq> set s"
proof (induction s arbitrary: p)
  case Nil
  then show ?case by simp
next
  case (Cons x xs)
  obtain q qs where q: "split_on c xs = q # qs"
    by (cases "split_on c xs") (simp_all add: split_on_nonempty)
  have "set q \<subseteq> set xs" by (rule Cons.IH) (simp add: q)
  moreover have "p = [] \<or> p \<in> set (split_on c xs) \<or> p = x # q"
    using Cons.prems q by (auto split: if_splits)
  ultimately show ?case using Cons.IH by fastforce
qed

lemma split_on_none: "c \<notin> set s \<Longrightarrow> split_on c s = [s]"
  by (induction s) auto

lemma split_on_sep: "split_on c (s @ c # t) = split_on c s @ split_on c t"
  by (induction s) (auto split: list.splits simp: split_on_nonempty)

lemma split_on_last: "c \<notin> set t \<Longrightarrow> last (split_on c (s @ c # t)) = t"
  by (simp add: split_on_sep split_on_none)

text \<open>\<open>s.replace(a, b)\<close> for characters.\<close>

definition replace_char :: "char \<Rightarrow> char \<Rightarrow> string \<Rightarrow> string" where
  "replace_char a b s = map (\<lambda>x. if x = a then b else x) s"

text \<open>\<open>str.lower\<close> on code points below 256.\<close>

definition lower_char :: "char \<Rightarrow> char" where
  "lower_char c =
     (let n = of_char c :: nat
      in if (65 \<le> n \<and> n \<le> 90) \<or> (192 \<le> n \<and> n \<le> 222 \<and> n \<noteq> 215) then char_of (n + 32) else c)"

definition lower :: "string \<Rightarrow> string" where
  "lower s = map lower_char s"

section \<open>White space and lines\<close>

text \<open>\<open>str.isspace\<close> and the line boundaries of \<open>str.splitlines\<close> on code points below 256.\<close>

definition is_py_space :: "char \<Rightarrow> bool" where
  "is_py_space c \<longleftrightarrow>
     (let n = of_char c :: nat
      in (9 \<le> n \<and> n \<le> 13) \<or> (28 \<le> n \<and> n \<le> 32) \<or> n = 133 \<or> n = 160)"

definition is_line_break :: "char \<Rightarrow> bool" where
  "is_line_break c \<longleftrightarrow>
     (let n = of_char c :: nat in (10 \<le> n \<and> n \<le> 13) \<or> (28 \<le> n \<and> n \<le> 30) \<or> n = 133)"

definition lstrip :: "string \<Rightarrow> string" where
  "lstrip s = dropWhile is_py_space s"

definition rstrip :: "string \<Rightarrow> string" where
  "rstrip s = rev (dropWhile is_py_space (rev s))"

definition strip :: "string \<Rightarrow> string" where
  "strip s = rstrip (lstrip s)"

definition line_feed :: char where
  "line_feed = CHR 10"

definition carriage_return :: char where
  "carriage_return = CHR 13"

fun splitlines_from :: "string \<Rightarrow> string \<Rightarrow> string list" where
  "splitlines_from acc [] = (if acc = [] then [] else [rev acc])"
| "splitlines_from acc (x # xs) =
     (if is_line_break x
      then rev acc # splitlines_from []
             (if x = carriage_return \<and> (case xs of [] \<Rightarrow> False | y # _ \<Rightarrow> y = line_feed)
              then tl xs else xs)
      else splitlines_from (x # acc) xs)"

definition splitlines :: "string \<Rightarrow> string list" where
  "splitlines s = splitlines_from [] s"

fun join_with :: "string \<Rightarrow> string list \<Rightarrow> string" where
  "join_with sep [] = []"
| "join_with sep [x] = x"
| "join_with sep (x # y # ys) = x @ sep @ join_with sep (y # ys)"

section \<open>Integers as text\<close>

definition digit_char :: "nat \<Rightarrow> char" where
  "digit_char d = char_of (48 + d)"

fun show_nat :: "nat \<Rightarrow> string" where
  "show_nat n = (if n < 10 then [digit_char n] else show_nat (n div 10) @ [digit_char (n mod 10)])"

declare show_nat.simps [simp del]

definition show_int :: "int \<Rightarrow> string" where
  "show_int i = (if i < 0 then CHR ''-'' # show_nat (nat (- i)) else show_nat (nat i))"

definition is_digit :: "char \<Rightarrow> bool" where
  "is_digit c \<longleftrightarrow> (let n = of_char c :: nat in 48 \<le> n \<and> n \<le> 57)"

definition digit_value :: "char \<Rightarrow> nat" where
  "digit_value c = (of_char c :: nat) - 48"

text \<open>
  \<open>int(s)\<close> for a decimal literal: surrounding white space, an optional sign, then digits with
  single underscores between them. \<open>None\<close> is the \<open>ValueError\<close>.
\<close>

fun read_digits :: "nat \<Rightarrow> bool \<Rightarrow> string \<Rightarrow> nat option" where
  "read_digits acc after_digit [] = (if after_digit then Some acc else None)"
| "read_digits acc after_digit (c # cs) =
     (if is_digit c then read_digits (10 * acc + digit_value c) True cs
      else if c = CHR ''_'' \<and> after_digit then read_digits acc False cs
      else None)"

definition py_int :: "string \<Rightarrow> int option" where
  "py_int s =
     (case strip s of
        [] \<Rightarrow> None
      | c # cs \<Rightarrow>
          if c = CHR ''-'' then map_option (\<lambda>n. - int n) (read_digits 0 False cs)
          else if c = CHR ''+'' then map_option int (read_digits 0 False cs)
          else map_option int (read_digits 0 False (c # cs)))"

lemma of_digit_char: "d < 10 \<Longrightarrow> (of_char (digit_char d) :: nat) = 48 + d"
  by (simp add: digit_char_def)

lemma digit_char_is_digit: "d < 10 \<Longrightarrow> is_digit (digit_char d)"
  by (simp add: is_digit_def of_digit_char Let_def)

lemma digit_char_value: "d < 10 \<Longrightarrow> digit_value (digit_char d) = d"
  by (simp add: digit_value_def of_digit_char)

lemma show_nat_digits: "c \<in> set (show_nat n) \<Longrightarrow> is_digit c"
proof (induction n rule: show_nat.induct)
  case (1 n)
  show ?case
  proof (cases "n < 10")
    case True
    with "1.prems" show ?thesis
      by (subst (asm) show_nat.simps) (simp add: digit_char_is_digit)
  next
    case False
    with "1.prems" have "c \<in> set (show_nat (n div 10)) \<or> c = digit_char (n mod 10)"
      by (subst (asm) show_nat.simps) auto
    with False "1.IH" show ?thesis
      by (auto simp: digit_char_is_digit)
  qed
qed

lemma show_nat_nonempty: "show_nat n \<noteq> []"
  by (subst show_nat.simps) simp

lemma read_digits_append_digit:
  "d < 10 \<Longrightarrow> read_digits a b s = Some n \<Longrightarrow> read_digits a b (s @ [digit_char d]) = Some (10 * n + d)"
  by (induction a b s rule: read_digits.induct)
    (auto simp: digit_char_is_digit digit_char_value split: if_splits)

lemma read_show_nat: "read_digits 0 False (show_nat n) = Some n"
proof (induction n rule: show_nat.induct)
  case (1 n)
  show ?case
  proof (cases "n < 10")
    case True
    then show ?thesis
      by (subst show_nat.simps) (simp add: digit_char_is_digit digit_char_value)
  next
    case False
    then have "read_digits 0 False (show_nat (n div 10)) = Some (n div 10)"
      by (rule "1.IH")
    then have "read_digits 0 False (show_nat (n div 10) @ [digit_char (n mod 10)])
        = Some (10 * (n div 10) + n mod 10)"
      by (intro read_digits_append_digit) simp_all
    with False show ?thesis
      by (subst show_nat.simps) simp
  qed
qed

lemma digit_not_special:
  assumes "is_digit c"
  shows "\<not> is_py_space c" "c \<noteq> CHR ''-''" "c \<noteq> CHR ''+''" "c \<noteq> CHR ''_''"
  using assms by (auto simp: is_digit_def is_py_space_def Let_def)

lemma strip_digits: "(\<And>c. c \<in> set s \<Longrightarrow> is_digit c) \<Longrightarrow> strip s = s"
proof -
  assume d: "\<And>c. c \<in> set s \<Longrightarrow> is_digit c"
  then have ns: "\<And>c. c \<in> set s \<Longrightarrow> \<not> is_py_space c"
    using digit_not_special(1) by blast
  have "dropWhile is_py_space s = s"
    using ns by (cases s) auto
  moreover have "dropWhile is_py_space (rev s) = rev s"
    using ns [of "last s"] by (cases "s = []") (simp_all add: dropWhile_eq_self_iff hd_rev)
  ultimately show ?thesis
    by (simp add: strip_def lstrip_def rstrip_def)
qed

lemma py_int_show_nat: "py_int (show_nat n) = Some (int n)"
proof -
  have s: "strip (show_nat n) = show_nat n"
    by (rule strip_digits) (rule show_nat_digits)
  obtain c cs where c: "show_nat n = c # cs"
    using show_nat_nonempty by (cases "show_nat n") auto
  have "is_digit c" using show_nat_digits [of c n] c by simp
  then have "py_int (show_nat n) = map_option int (read_digits 0 False (show_nat n))"
    using c s by (simp add: py_int_def digit_not_special del: read_digits.simps)
  then show ?thesis by (simp add: read_show_nat)
qed

lemma show_nat_inject: "show_nat m = show_nat n \<Longrightarrow> m = n"
  using read_show_nat by (metis option.inject)

section \<open>Time stamps\<close>

text \<open>
  An aware \<open>datetime\<close> in UTC. The derived order is the chronological one, which is what
  Python's comparison of aware datetimes gives.
\<close>

datatype datetime =
  DateTime (dt_year: nat) (dt_month: nat) (dt_day: nat)
    (dt_hour: nat) (dt_minute: nat) (dt_second: nat) (dt_microsecond: nat)

fun dt_fields :: "datetime \<Rightarrow> nat list" where
  "dt_fields (DateTime y mo d h mi s us) = [y, mo, d, h, mi, s, us]"

lemma dt_fields_inject: "dt_fields a = dt_fields b \<longleftrightarrow> a = b"
  by (cases a; cases b) simp

instantiation datetime :: linorder
begin

definition less_eq_datetime :: "datetime \<Rightarrow> datetime \<Rightarrow> bool" where
  "a \<le> b \<longleftrightarrow> dt_fields a \<le> dt_fields b"

definition less_datetime :: "datetime \<Rightarrow> datetime \<Rightarrow> bool" where
  "a < b \<longleftrightarrow> dt_fields a < dt_fields b"

instance
proof
  fix a b c :: datetime
  show "(a < b) = (a \<le> b \<and> \<not> b \<le> a)"
    by (auto simp: less_eq_datetime_def less_datetime_def)
  show "a \<le> a"
    by (simp add: less_eq_datetime_def)
  show "a \<le> b \<Longrightarrow> b \<le> c \<Longrightarrow> a \<le> c"
    by (auto simp: less_eq_datetime_def)
  show "a \<le> b \<Longrightarrow> b \<le> a \<Longrightarrow> a = b"
    by (auto simp: less_eq_datetime_def dt_fields_inject [symmetric])
  show "a \<le> b \<or> b \<le> a"
    by (auto simp: less_eq_datetime_def)
qed

end

text \<open>\<open>datetime.isoformat()\<close>: microseconds only when they are not zero, offset \<open>+00:00\<close>.\<close>

definition zero_pad :: "nat \<Rightarrow> string \<Rightarrow> string" where
  "zero_pad w s = replicate (w - length s) (CHR ''0'') @ s"

fun isoformat :: "datetime \<Rightarrow> string" where
  "isoformat (DateTime y mo d h mi s us) =
     zero_pad 4 (show_nat y) @ ''-'' @ zero_pad 2 (show_nat mo) @ ''-'' @ zero_pad 2 (show_nat d)
     @ ''T'' @ zero_pad 2 (show_nat h) @ '':'' @ zero_pad 2 (show_nat mi) @ '':''
     @ zero_pad 2 (show_nat s)
     @ (if us = 0 then [] else ''.'' @ zero_pad 6 (show_nat us)) @ ''+00:00''"

end
