(* ===== verification/Json.thy ===== *)
theory Json
  imports PyText
begin

text \<open>
  Payload values: what \<open>dict[str, Any]\<close> holds after a JSON request body has been parsed.
  Floating-point numbers are not modelled. \<open>py_eq\<close> is Python's \<open>==\<close> on these values: the
  order of keys does not matter, and \<open>True == 1\<close>, \<open>False == 0\<close>.
\<close>

datatype json =
    JNull
  | JBool bool
  | JInt int
  | JStr string
  | JList "json list"
  | JDict "(string \<times> json) list"

type_synonym jdict = "(string, json) dict"

section \<open>Equality of values\<close>

definition bool_int :: "bool \<Rightarrow> int" where
  "bool_int b = (if b then 1 else 0)"

fun py_eq :: "json \<Rightarrow> json \<Rightarrow> bool"
  and py_eq_list :: "json list \<Rightarrow> json list \<Rightarrow> bool"
  and py_eq_items :: "(string \<times> json) list \<Rightarrow> (string \<times> json) list \<Rightarrow> bool" where
  "py_eq JNull b = (b = JNull)"
| "py_eq (JBool x) b =
     (case b of JBool y \<Rightarrow> x = y | JInt n \<Rightarrow> bool_int x = n | _ \<Rightarrow> False)"
| "py_eq (JInt m) b =
     (case b of JInt n \<Rightarrow> m = n | JBool y \<Rightarrow> m = bool_int y | _ \<Rightarrow> False)"
| "py_eq (JStr s) b = (b = JStr s)"
| "py_eq (JList xs) b = (case b of JList ys \<Rightarrow> py_eq_list xs ys | _ \<Rightarrow> False)"
| "py_eq (JDict d) b =
     (case b of JDict d' \<Rightarrow> length d = length d' \<and> py_eq_items d d' | _ \<Rightarrow> False)"
| "py_eq_list [] ys = (ys = [])"
| "py_eq_list (x # xs) ys = (case ys of [] \<Rightarrow> False | y # ys' \<Rightarrow> py_eq x y \<and> py_eq_list xs ys')"
| "py_eq_items [] d' = True"
| "py_eq_items ((k, v) # d) d' =
     (case map_of d' k of None \<Rightarrow> False | Some w \<Rightarrow> py_eq v w \<and> py_eq_items d d')"

definition dict_eq :: "jdict \<Rightarrow> jdict \<Rightarrow> bool" where
  "dict_eq d d' \<longleftrightarrow> length d = length d' \<and> py_eq_items d d'"

text \<open>A value a Python program can hold: every dictionary in it has distinct keys.\<close>

fun wf_json :: "json \<Rightarrow> bool"
  and wf_json_list :: "json list \<Rightarrow> bool"
  and wf_json_items :: "(string \<times> json) list \<Rightarrow> bool" where
  "wf_json (JList xs) = wf_json_list xs"
| "wf_json (JDict d) = (distinct (map fst d) \<and> wf_json_items d)"
| "wf_json _ = True"
| "wf_json_list [] = True"
| "wf_json_list (x # xs) = (wf_json x \<and> wf_json_list xs)"
| "wf_json_items [] = True"
| "wf_json_items ((k, v) # d) = (wf_json v \<and> wf_json_items d)"

definition wf_dict :: "jdict \<Rightarrow> bool" where
  "wf_dict d \<longleftrightarrow> distinct (map fst d) \<and> wf_json_items d"

lemma wf_json_items_iff: "wf_json_items d \<longleftrightarrow> (\<forall>(k, v) \<in> set d. wf_json v)"
  by (induction d) auto

lemma wf_json_list_iff: "wf_json_list xs \<longleftrightarrow> (\<forall>x \<in> set xs. wf_json x)"
  by (induction xs) auto

lemma py_eq_items_iff:
  "py_eq_items d d' \<longleftrightarrow> (\<forall>(k, v) \<in> set d. \<exists>w. map_of d' k = Some w \<and> py_eq v w)"
  by (induction d) (auto split: option.splits)

lemma py_eq_list_iff: "py_eq_list xs ys \<longleftrightarrow> list_all2 py_eq xs ys"
  by (induction xs arbitrary: ys) (auto split: list.splits simp: list_all2_Cons1)

lemma py_eq_refl: "wf_json j \<Longrightarrow> py_eq j j"
proof (induction j)
  case (JList xs)
  then show ?case
    by (auto simp: py_eq_list_iff wf_json_list_iff intro!: list.rel_refl_strong)
next
  case (JDict d)
  then show ?case
    by (fastforce simp: py_eq_items_iff wf_json_items_iff)
qed simp_all

lemma dict_eq_refl: "wf_dict d \<Longrightarrow> dict_eq d d"
  using py_eq_refl [of "JDict d"] by (simp add: dict_eq_def wf_dict_def)

lemma py_eq_sym: "wf_json a \<Longrightarrow> wf_json b \<Longrightarrow> py_eq a b \<Longrightarrow> py_eq b a"
proof (induction a arbitrary: b)
  case (JList xs)
  then obtain ys where b: "b = JList ys" and r: "list_all2 py_eq xs ys"
    by (auto simp: py_eq_list_iff split: json.splits)
  have "list_all2 py_eq ys xs"
  proof (rule list_all2_all_nthI)
    show "length ys = length xs" using r by (simp add: list_all2_lengthD)
    fix n assume "n < length ys"
    then show "py_eq (ys ! n) (xs ! n)"
      using r JList b by (auto simp: list_all2_conv_all_nth wf_json_list_iff)
  qed
  with b show ?case by (simp add: py_eq_list_iff)
next
  case (JDict d)
  then obtain d' where b: "b = JDict d'" and len: "length d = length d'"
    and items: "py_eq_items d d'"
    by (auto split: json.splits)
  have dist: "distinct (map fst d)" "distinct (map fst d')"
    using JDict.prems b by auto
  have sub: "fst ` set d \<subseteq> fst ` set d'"
    using items by (force simp: py_eq_items_iff dest: map_of_SomeD)
  have "card (set (map fst d)) = card (set (map fst d'))"
    using dist len by (metis distinct_card length_map)
  then have keys: "fst ` set d = fst ` set d'"
    using sub card_subset_eq [of "fst ` set d'" "fst ` set d"] by simp
  have "\<exists>w. map_of d k = Some w \<and> py_eq v w" if v: "(k, v) \<in> set d'" for k v
  proof -
    from v keys obtain w where w: "(k, w) \<in> set d" by force
    from items w obtain u where u: "map_of d' k = Some u" "py_eq w u"
      by (auto simp: py_eq_items_iff)
    have "map_of d' k = Some v" using v dist by simp
    with u have "py_eq w v" by simp
    moreover have "wf_json w" "wf_json v"
      using JDict.prems b w v by (auto simp: wf_json_items_iff)
    ultimately have "py_eq v w" using JDict.IH w by fastforce
    with w dist show ?thesis by auto
  qed
  then have "py_eq_items d' d" by (auto simp: py_eq_items_iff)
  with b len show ?case by simp
qed (auto split: json.splits)

lemma dict_eq_sym: "wf_dict d \<Longrightarrow> wf_dict d' \<Longrightarrow> dict_eq d d' \<Longrightarrow> dict_eq d' d"
  using py_eq_sym [of "JDict d" "JDict d'"] by (simp add: dict_eq_def wf_dict_def)

text \<open>
  Where no Boolean occurs the key order is all that \<open>==\<close> forgets: two dictionaries that
  compare equal have the same keys.
\<close>

lemma dict_eq_keys:
  assumes "wf_dict d" "wf_dict d'" "dict_eq d d'"
  shows "set (map fst d) = set (map fst d')"
proof -
  have "fst ` set a \<subseteq> fst ` set b" if "dict_eq a b" for a b :: jdict
    using that by (force simp: dict_eq_def py_eq_items_iff dest: map_of_SomeD)
  with assms dict_eq_sym show ?thesis by (metis set_map subset_antisym)
qed

end
