(* ===== verification/Errors.thy ===== *)
theory Errors
  imports PyText
begin

text \<open>
  The exceptions of \<open>taskbridge/errors.py\<close> and the built-in ones the services raise, catch or
  let through, with their messages. \<open>except Exception\<close> catches all of them but
  \<open>asyncio.CancelledError\<close>, which derives from \<open>BaseException\<close>.
\<close>

datatype exc =
    TaskBridgeError string
  | AuthenticationError string
  | TaskNotFoundError string
  | TaskOwnershipError string
  | TaskConflictError string
  | TaskAlreadyTerminalError string
  | InvalidTaskStateError string
  | InvalidRequestError string
  | IdempotencyConflictError string
  | TaskSubmissionError string
  | UploadValidationError string
  | KeyError string
  | PermissionError string
  | RuntimeError string
  | ValueError string
  | CancelledError
  | WebSocketDisconnect int
  | OtherError string

text \<open>\<open>isinstance(exc, TaskBridgeError)\<close> and \<open>isinstance(exc, Exception)\<close>.\<close>

fun is_taskbridge_error :: "exc \<Rightarrow> bool" where
  "is_taskbridge_error (KeyError _) = False"
| "is_taskbridge_error (PermissionError _) = False"
| "is_taskbridge_error (RuntimeError _) = False"
| "is_taskbridge_error (ValueError _) = False"
| "is_taskbridge_error CancelledError = False"
| "is_taskbridge_error (WebSocketDisconnect _) = False"
| "is_taskbridge_error (OtherError _) = False"
| "is_taskbridge_error _ = True"

definition is_exception :: "exc \<Rightarrow> bool" where
  "is_exception e \<longleftrightarrow> e \<noteq> CancelledError"

fun is_ws_disconnect :: "exc \<Rightarrow> bool" where
  "is_ws_disconnect (WebSocketDisconnect _) = True"
| "is_ws_disconnect _ = False"

fun is_value_error :: "exc \<Rightarrow> bool" where
  "is_value_error (ValueError _) = True"
| "is_value_error _ = False"

fun is_authentication_error :: "exc \<Rightarrow> bool" where
  "is_authentication_error (AuthenticationError _) = True"
| "is_authentication_error _ = False"

text \<open>What an \<open>except PermissionError\<close> and an \<open>except KeyError\<close> clause catches.\<close>

fun is_permission_error :: "exc \<Rightarrow> bool" where
  "is_permission_error (PermissionError _) = True"
| "is_permission_error _ = False"

fun is_key_error :: "exc \<Rightarrow> bool" where
  "is_key_error (KeyError _) = True"
| "is_key_error _ = False"

text \<open>The class attribute \<open>code\<close> of the TaskBridge exceptions.\<close>

fun error_code :: "exc \<Rightarrow> string option" where
  "error_code (TaskBridgeError _) = Some ''TASKBRIDGE_ERROR''"
| "error_code (AuthenticationError _) = Some ''AUTHENTICATION_ERROR''"
| "error_code (TaskNotFoundError _) = Some ''TASK_NOT_FOUND''"
| "error_code (TaskOwnershipError _) = Some ''TASK_OWNERSHIP_ERROR''"
| "error_code (TaskConflictError _) = Some ''TASK_CONFLICT''"
| "error_code (TaskAlreadyTerminalError _) = Some ''TASK_ALREADY_TERMINAL''"
| "error_code (InvalidTaskStateError _) = Some ''INVALID_TASK_STATE''"
| "error_code (InvalidRequestError _) = Some ''INVALID_REQUEST''"
| "error_code (IdempotencyConflictError _) = Some ''IDEMPOTENCY_CONFLICT''"
| "error_code (TaskSubmissionError _) = Some ''TASK_SUBMISSION_ERROR''"
| "error_code (UploadValidationError _) = Some ''UPLOAD_VALIDATION_ERROR''"
| "error_code _ = None"

text \<open>\<open>str(exc)\<close> of an exception raised with one string argument; \<open>KeyError\<close> quotes it.\<close>

fun error_message :: "exc \<Rightarrow> string" where
  "error_message (TaskBridgeError m) = m"
| "error_message (AuthenticationError m) = m"
| "error_message (TaskNotFoundError m) = m"
| "error_message (TaskOwnershipError m) = m"
| "error_message (TaskConflictError m) = m"
| "error_message (TaskAlreadyTerminalError m) = m"
| "error_message (InvalidTaskStateError m) = m"
| "error_message (InvalidRequestError m) = m"
| "error_message (IdempotencyConflictError m) = m"
| "error_message (TaskSubmissionError m) = m"
| "error_message (UploadValidationError m) = m"
| "error_message (KeyError m) = m"
| "error_message (PermissionError m) = m"
| "error_message (RuntimeError m) = m"
| "error_message (ValueError m) = m"
| "error_message CancelledError = []"
| "error_message (WebSocketDisconnect _) = []"
| "error_message (OtherError m) = m"

lemma error_code_iff: "error_code e \<noteq> None \<longleftrightarrow> is_taskbridge_error e"
  by (cases e) simp_all

end
