(* ===== verification/Models.thy ===== *)
theory Models
  imports Json Errors
begin

text \<open>
  The enums, records and pure functions of \<open>taskbridge/models.py\<close>. A Pydantic model is a
  record whose field names carry a two-letter prefix (\<open>tr_\<close> for \<open>TaskRecord\<close>, \<open>su_\<close> for
  \<open>TaskSuspensionRecord\<close>, ...), an enum is a datatype; enum members that share a name in
  different enums carry a prefix too. Dictionaries are \<open>jdict\<close>, optional fields \<open>option\<close>.
\<close>

section \<open>Enumerations\<close>

datatype task_status = ACCEPTED | RUNNING | COMPLETED | FAILED | CANCELLED

definition is_terminal :: "task_status \<Rightarrow> bool" where
  "is_terminal s \<longleftrightarrow> s \<in> {COMPLETED, FAILED, CANCELLED}"

datatype task_event_type =
    TASK_STARTED | TASK_PROGRESS | TASK_MESSAGE | TASK_SUSPENDED | TASK_ACTION_ACCEPTED
  | TASK_COMPLETED | TASK_FAILED | TASK_CANCELLED

fun event_type_value :: "task_event_type \<Rightarrow> string" where
  "event_type_value TASK_STARTED = ''TASK_STARTED''"
| "event_type_value TASK_PROGRESS = ''TASK_PROGRESS''"
| "event_type_value TASK_MESSAGE = ''TASK_MESSAGE''"
| "event_type_value TASK_SUSPENDED = ''TASK_SUSPENDED''"
| "event_type_value TASK_ACTION_ACCEPTED = ''TASK_ACTION_ACCEPTED''"
| "event_type_value TASK_COMPLETED = ''TASK_COMPLETED''"
| "event_type_value TASK_FAILED = ''TASK_FAILED''"
| "event_type_value TASK_CANCELLED = ''TASK_CANCELLED''"

text \<open>\<open>TaskEventType(value)\<close>: the member with that value, \<open>ValueError\<close> if there is none.\<close>

definition event_types :: "task_event_type list" where
  "event_types = [TASK_STARTED, TASK_PROGRESS, TASK_MESSAGE, TASK_SUSPENDED,
     TASK_ACTION_ACCEPTED, TASK_COMPLETED, TASK_FAILED, TASK_CANCELLED]"

definition event_type_of_value :: "string \<Rightarrow> task_event_type option" where
  "event_type_of_value v = List.find (\<lambda>t. event_type_value t = v) event_types"

datatype cancel_task_status = CANCELLATION_REQUESTED | ALREADY_TERMINAL

datatype submit_action_result_status =
  SA_ACCEPTED | SA_DEDUPLICATED | SA_REJECTED_ALREADY_RESOLVED | SA_REJECTED_EXPIRED

datatype task_suspension_status = SUS_OPEN | SUS_RESOLVED | SUS_EXPIRED | SUS_CANCELLED

datatype task_suspension_kind =
  USER_ACTION_REQUIRED | EXTERNAL_CONFIRMATION_PENDING | SYSTEM_PAUSED

datatype resume_handoff_status = RH_NONE | RH_PENDING | RH_DISPATCHED

datatype task_action_receipt_status = AR_ACCEPTED | AR_DEDUPLICATED | AR_REJECTED

section \<open>Records\<close>

record task_attachment =
  at_filename :: string
  at_content_type :: string
  at_content :: string
  at_size_bytes :: int

record auth_context =
  ac_subject :: string
  ac_scopes :: "string set"
  ac_app_id :: "string option"
  ac_attributes :: jdict

record task_event =
  ev_type :: task_event_type
  ev_task_id :: string
  ev_event_id :: string
  ev_created_at :: datetime
  ev_payload :: jdict

record task_create_command =
  cc_client_request_id :: string
  cc_task_type :: string
  cc_input_payload :: jdict
  cc_metadata :: jdict
  cc_attachments :: "task_attachment list"
  cc_auth_context :: auth_context

record task_created_result =
  cr_task_id :: string
  cr_status :: task_status
  cr_client_request_id :: string
  cr_deduplicated :: bool

record poll_events_result =
  pr_task_id :: string
  pr_events :: "task_event list"
  pr_next_after_event_id :: "string option"
  pr_has_more :: bool

record cancel_task_command =
  ca_task_id :: string
  ca_auth_context :: auth_context
  ca_reason :: "string option"

record cancel_task_result =
  cn_task_id :: string
  cn_status :: cancel_task_status

record submit_action_command =
  sc_task_id :: string
  sc_client_action_id :: string
  sc_suspend_id :: string
  sc_action_type :: string
  sc_payload :: jdict
  sc_metadata :: jdict
  sc_auth_context :: auth_context

record submit_action_result =
  sr_task_id :: string
  sr_suspend_id :: string
  sr_client_action_id :: string
  sr_status :: submit_action_result_status

record task_suspension_record =
  su_task_id :: string
  su_suspend_id :: string
  su_owner_id :: string
  su_status :: task_suspension_status
  su_kind :: task_suspension_kind
  su_reason_code :: string
  su_allowed_actions :: "string list"
  su_schema_version :: int
  su_interaction_payload :: jdict
  su_ui_hints :: jdict
  su_resume_token :: "string option"
  su_successful_action_id :: "string option"
  su_resume_handoff_status :: resume_handoff_status
  su_created_at :: datetime
  su_expires_at :: "datetime option"
  su_resolved_at :: "datetime option"

record task_action_receipt =
  re_task_id :: string
  re_suspend_id :: string
  re_client_action_id :: string
  re_action_type :: string
  re_payload :: jdict
  re_metadata :: jdict
  re_actor_id :: string
  re_status :: task_action_receipt_status
  re_created_at :: datetime
  re_processed_at :: "datetime option"
  re_expires_at :: "datetime option"

record task_record =
  tr_task_id :: string
  tr_client_request_id :: string
  tr_task_type :: string
  tr_input_payload :: jdict
  tr_metadata :: jdict
  tr_attachments :: "task_attachment list"
  tr_owner_id :: string
  tr_status :: task_status
  tr_cancellation_requested :: bool
  tr_created_at :: datetime
  tr_updated_at :: datetime

section \<open>Validation\<close>

text \<open>
  \<open>TaskBridgeModel\<close> sets \<open>populate_by_name\<close> and \<open>extra="forbid"\<close>: a field is taken by its
  alias or else by its name, and the keys that no field takes must be none. \<open>by_alias\<close> takes
  one field out of a request body.
\<close>

definition by_alias :: "string \<Rightarrow> string \<Rightarrow> jdict \<Rightarrow> (json \<times> jdict) option" where
  "by_alias alias name d =
     (case dict_get d alias of
        Some v \<Rightarrow> Some (v, dict_del d alias)
      | None \<Rightarrow> map_option (\<lambda>v. (v, dict_del d name)) (dict_get d name))"

section \<open>Task records\<close>

text \<open>\<open>TaskRecord.from_command\<close>; \<open>now\<close> is its reading of the clock.\<close>

definition from_command :: "datetime \<Rightarrow> string \<Rightarrow> task_create_command \<Rightarrow> task_record" where
  "from_command now task_id command = \<lparr>
     tr_task_id = task_id,
     tr_client_request_id = cc_client_request_id command,
     tr_task_type = cc_task_type command,
     tr_input_payload = cc_input_payload command,
     tr_metadata = cc_metadata command,
     tr_attachments = cc_attachments command,
     tr_owner_id = ac_subject (cc_auth_context command),
     tr_status = ACCEPTED,
     tr_cancellation_requested = False,
     tr_created_at = now,
     tr_updated_at = now\<rparr>"

fun allowed_transitions :: "task_status \<Rightarrow> task_status set" where
  "allowed_transitions ACCEPTED = {ACCEPTED, RUNNING}"
| "allowed_transitions RUNNING = {RUNNING, COMPLETED, FAILED, CANCELLED}"
| "allowed_transitions COMPLETED = {COMPLETED}"
| "allowed_transitions FAILED = {FAILED}"
| "allowed_transitions CANCELLED = {CANCELLED}"

text \<open>The f-string of a \<open>(str, Enum)\<close> member is \<open>TaskStatus.NAME\<close> from Python 3.11 on.\<close>

fun task_status_text :: "task_status \<Rightarrow> string" where
  "task_status_text ACCEPTED = ''TaskStatus.ACCEPTED''"
| "task_status_text RUNNING = ''TaskStatus.RUNNING''"
| "task_status_text COMPLETED = ''TaskStatus.COMPLETED''"
| "task_status_text FAILED = ''TaskStatus.FAILED''"
| "task_status_text CANCELLED = ''TaskStatus.CANCELLED''"

definition ensure_transition :: "task_status \<Rightarrow> task_status \<Rightarrow> exc + unit" where
  "ensure_transition current new =
     (if new \<notin> allowed_transitions current
      then Inl (InvalidTaskStateError (''Cannot transition task from '' @ task_status_text current
                @ '' to '' @ task_status_text new))
      else Inr ())"

definition same_idempotency_payload :: "task_record \<Rightarrow> task_create_command \<Rightarrow> bool" where
  "same_idempotency_payload task command \<longleftrightarrow>
     tr_task_type task = cc_task_type command
     \<and> dict_eq (tr_input_payload task) (cc_input_payload command)
     \<and> tr_attachments task = cc_attachments command"

section \<open>Facts about the status machine\<close>

lemma event_type_of_value_value: "event_type_of_value (event_type_value t) = Some t"
  by (cases t) (simp_all add: event_type_of_value_def event_types_def)

lemma ensure_transition_ok_iff:
  "ensure_transition s t = Inr () \<longleftrightarrow> t \<in> allowed_transitions s"
  by (simp add: ensure_transition_def)

text \<open>A run of status changes every one of which \<open>ensure_transition\<close> accepts.\<close>

fun status_run :: "task_status \<Rightarrow> task_status list \<Rightarrow> bool" where
  "status_run s [] = True"
| "status_run s (t # ts) = (ensure_transition s t = Inr () \<and> status_run t ts)"

lemma terminal_transition: "is_terminal s \<Longrightarrow> ensure_transition s t = Inr () \<longleftrightarrow> t = s"
  by (cases s) (auto simp: is_terminal_def ensure_transition_ok_iff)

lemma terminal_run: "is_terminal s \<Longrightarrow> status_run s ts \<Longrightarrow> set ts \<subseteq> {s}"
  by (induction ts) (auto simp: terminal_transition)

lemma accepted_to_terminal_step:
  "is_terminal t \<Longrightarrow> ensure_transition ACCEPTED t \<noteq> Inr ()"
  by (auto simp: is_terminal_def ensure_transition_ok_iff)

lemma same_payload_from_command:
  "wf_dict (cc_input_payload c) \<Longrightarrow> same_idempotency_payload (from_command now tid c) c"
  by (simp add: same_idempotency_payload_def from_command_def dict_eq_refl)

end
