(* ===== verification/Interfaces.thy ===== *)
theory Interfaces
  imports Models
begin

text \<open>
  The storage interfaces the services are written against (\<open>task_registry.py\<close>,
  \<open>suspension_store.py\<close>, \<open>action_receipt_store.py\<close>, \<open>event_store.py\<close>) and the policies of
  \<open>security.py\<close>. An abstract base class is a record of operations over the state of one
  implementation; a service takes such a record as its constructor does. Where an
  implementation reads the clock the operation takes that reading as an argument.

  What the docstrings promise of an implementation is a locale: its state is seen through a
  partial map (or, for events, the list retained for a task), and the laws say what each
  operation does to that view.
\<close>

section \<open>Operations\<close>

record 's task_registry_ops =
  reg_create_task :: "task_record \<Rightarrow> 's \<Rightarrow> (exc + task_record) \<times> 's"
  reg_get_task :: "string \<Rightarrow> 's \<Rightarrow> exc + task_record"
  reg_get_task_by_client_request_id :: "string \<Rightarrow> string \<Rightarrow> 's \<Rightarrow> exc + task_record option"
  reg_update_task_status :: "datetime \<Rightarrow> string \<Rightarrow> task_status \<Rightarrow> 's \<Rightarrow> (exc + task_record) \<times> 's"
  reg_request_cancellation :: "string \<Rightarrow> 's \<Rightarrow> (exc + task_record) \<times> 's"
  reg_same_idempotency_payload :: "task_record \<Rightarrow> task_create_command \<Rightarrow> 's \<Rightarrow> exc + bool"

record 's event_store_ops =
  es_append_event :: "task_event \<Rightarrow> 's \<Rightarrow> (exc + task_event) \<times> 's"
  es_read_events_after :: "string \<Rightarrow> string option \<Rightarrow> int \<Rightarrow> 's \<Rightarrow> exc + task_event list"
  es_wait_for_events :: "string \<Rightarrow> string option \<Rightarrow> int \<Rightarrow> int \<Rightarrow> 's \<Rightarrow> exc + task_event list"

record 's suspension_store_ops =
  ss_get_suspension :: "string \<Rightarrow> string \<Rightarrow> 's \<Rightarrow> exc + task_suspension_record"
  ss_accept_action_if_open ::
    "datetime \<Rightarrow> string \<Rightarrow> string \<Rightarrow> string \<Rightarrow> 's \<Rightarrow> (exc + task_suspension_record option) \<times> 's"
  ss_mark_resume_dispatched :: "string \<Rightarrow> string \<Rightarrow> 's \<Rightarrow> (exc + task_suspension_record) \<times> 's"
  ss_list_pending_resume_handoffs :: "'s \<Rightarrow> exc + task_suspension_record list"
  ss_expire_open_suspensions :: "datetime \<Rightarrow> 's \<Rightarrow> (exc + nat) \<times> 's"

record 's action_receipt_store_ops =
  rs_get_receipt :: "string \<Rightarrow> string \<Rightarrow> 's \<Rightarrow> exc + task_action_receipt option"
  rs_save_receipt :: "task_action_receipt \<Rightarrow> 's \<Rightarrow> (exc + task_action_receipt) \<times> 's"
  rs_delete_expired_receipts :: "datetime \<Rightarrow> 's \<Rightarrow> (exc + nat) \<times> 's"

record ownership_policy =
  op_assert_task_create :: "auth_context \<Rightarrow> exc + unit"
  op_assert_task_access :: "auth_context \<Rightarrow> task_record \<Rightarrow> exc + unit"

type_synonym action_validation_policy =
  "submit_action_command \<Rightarrow> task_record \<Rightarrow> task_suspension_record \<Rightarrow> exc + unit"

type_synonym upload_policy = "auth_context \<Rightarrow> task_attachment list \<Rightarrow> exc + unit"

section \<open>The policies the package provides\<close>

definition deny_all_access_policy :: ownership_policy where
  "deny_all_access_policy = \<lparr>
     op_assert_task_create = (\<lambda>auth.
       Inl (PermissionError (''Task creation denied for '' @ ac_subject auth))),
     op_assert_task_access = (\<lambda>auth task.
       Inl (PermissionError (''Task access denied for '' @ ac_subject auth)))\<rparr>"

definition allow_all_upload_policy :: upload_policy where
  "allow_all_upload_policy auth attachments = Inr ()"

section \<open>The world the services act on\<close>

text \<open>
  One state per store, the state of the host runtime behind the executor and the resume
  service, and the calls made to the metrics sink, in order.
\<close>

datatype metric =
    Counter string "(string \<times> string) list"
  | Gauge string int "(string \<times> string) list"

record ('r, 'v, 'p, 'c, 'h) world =
  w_registry :: 'r
  w_events :: 'v
  w_suspensions :: 'p
  w_receipts :: 'c
  w_host :: 'h
  w_metrics :: "metric list"

definition on_registry ::
  "('r \<Rightarrow> (exc + 'a) \<times> 'r) \<Rightarrow> ('r, 'v, 'p, 'c, 'h) world \<Rightarrow> (exc + 'a) \<times> ('r, 'v, 'p, 'c, 'h) world" where
  "on_registry f w = (case f (w_registry w) of (r, s) \<Rightarrow> (r, w\<lparr>w_registry := s\<rparr>))"

definition on_events ::
  "('v \<Rightarrow> (exc + 'a) \<times> 'v) \<Rightarrow> ('r, 'v, 'p, 'c, 'h) world \<Rightarrow> (exc + 'a) \<times> ('r, 'v, 'p, 'c, 'h) world" where
  "on_events f w = (case f (w_events w) of (r, s) \<Rightarrow> (r, w\<lparr>w_events := s\<rparr>))"

definition on_suspensions ::
  "('p \<Rightarrow> (exc + 'a) \<times> 'p) \<Rightarrow> ('r, 'v, 'p, 'c, 'h) world \<Rightarrow> (exc + 'a) \<times> ('r, 'v, 'p, 'c, 'h) world" where
  "on_suspensions f w = (case f (w_suspensions w) of (r, s) \<Rightarrow> (r, w\<lparr>w_suspensions := s\<rparr>))"

definition on_receipts ::
  "('c \<Rightarrow> (exc + 'a) \<times> 'c) \<Rightarrow> ('r, 'v, 'p, 'c, 'h) world \<Rightarrow> (exc + 'a) \<times> ('r, 'v, 'p, 'c, 'h) world" where
  "on_receipts f w = (case f (w_receipts w) of (r, s) \<Rightarrow> (r, w\<lparr>w_receipts := s\<rparr>))"

definition increment_counter ::
  "string \<Rightarrow> ('r, 'v, 'p, 'c, 'h) world \<Rightarrow> ('r, 'v, 'p, 'c, 'h) world" where
  "increment_counter name w = w\<lparr>w_metrics := w_metrics w @ [Counter name []]\<rparr>"

definition counter_calls :: "string \<Rightarrow> ('r, 'v, 'p, 'c, 'h) world \<Rightarrow> nat" where
  "counter_calls name w =
     length (filter (\<lambda>m. case m of Counter n _ \<Rightarrow> n = name | Gauge _ _ _ \<Rightarrow> False) (w_metrics w))"

lemmas on_store_defs = on_registry_def on_events_def on_suspensions_def on_receipts_def

lemma on_registry_frame:
  "on_registry f w = (r, w') \<Longrightarrow> w_events w' = w_events w \<and> w_suspensions w' = w_suspensions w
     \<and> w_receipts w' = w_receipts w \<and> w_host w' = w_host w \<and> w_metrics w' = w_metrics w"
  by (auto simp: on_registry_def split: prod.splits)

lemma increment_counter_frame [simp]:
  "w_registry (increment_counter n w) = w_registry w"
  "w_events (increment_counter n w) = w_events w"
  "w_suspensions (increment_counter n w) = w_suspensions w"
  "w_receipts (increment_counter n w) = w_receipts w"
  "w_host (increment_counter n w) = w_host w"
  "w_metrics (increment_counter n w) = w_metrics w @ [Counter n []]"
  by (simp_all add: increment_counter_def)

section \<open>Contracts\<close>

text \<open>Two records of a task that differ at most in its status, flag and time of update.\<close>

definition same_task :: "task_record \<Rightarrow> task_record \<Rightarrow> bool" where
  "same_task t t' \<longleftrightarrow>
     tr_task_id t' = tr_task_id t \<and> tr_client_request_id t' = tr_client_request_id t
     \<and> tr_task_type t' = tr_task_type t \<and> tr_input_payload t' = tr_input_payload t
     \<and> tr_metadata t' = tr_metadata t \<and> tr_attachments t' = tr_attachments t
     \<and> tr_owner_id t' = tr_owner_id t \<and> tr_created_at t' = tr_created_at t"

lemma same_task_refl [simp]: "same_task t t"
  by (simp add: same_task_def)

lemma same_task_trans: "same_task a b \<Longrightarrow> same_task b c \<Longrightarrow> same_task a c"
  by (simp add: same_task_def)

text \<open>The registry: the source of truth for existence, status and ownership of tasks.\<close>

locale task_registry =
  fixes ops :: "'s task_registry_ops"
    and valid :: "'s \<Rightarrow> bool"
    and tasks :: "'s \<Rightarrow> string \<Rightarrow> task_record option"
  assumes tasks_key: "valid s \<Longrightarrow> tasks s k = Some t \<Longrightarrow> tr_task_id t = k"
    and create_law: "valid s \<Longrightarrow>
      \<exists>s'. reg_create_task ops t s = (Inr t, s') \<and> valid s' \<and> tasks s' = (tasks s)(tr_task_id t \<mapsto> t)"
    and get_law: "valid s \<Longrightarrow>
      reg_get_task ops k s = (case tasks s k of None \<Rightarrow> Inl (KeyError k) | Some t \<Rightarrow> Inr t)"
    and find_law: "valid s \<Longrightarrow> \<exists>r. reg_get_task_by_client_request_id ops owner crid s = Inr r"
    and find_None: "valid s \<Longrightarrow> reg_get_task_by_client_request_id ops owner crid s = Inr None \<Longrightarrow>
      tasks s k = Some t \<Longrightarrow> \<not> (tr_owner_id t = owner \<and> tr_client_request_id t = crid)"
    and find_Some: "valid s \<Longrightarrow> reg_get_task_by_client_request_id ops owner crid s = Inr (Some t) \<Longrightarrow>
      tasks s (tr_task_id t) = Some t \<and> tr_owner_id t = owner \<and> tr_client_request_id t = crid"
    and update_missing: "valid s \<Longrightarrow> tasks s k = None \<Longrightarrow>
      reg_update_task_status ops now k st s = (Inl (KeyError k), s)"
    and update_law: "valid s \<Longrightarrow> tasks s k = Some t \<Longrightarrow>
      \<exists>t' s'. reg_update_task_status ops now k st s = (Inr t', s') \<and> valid s'
        \<and> tasks s' = (tasks s)(k \<mapsto> t') \<and> tr_status t' = st \<and> same_task t t'
        \<and> tr_cancellation_requested t' = tr_cancellation_requested t"
    and cancel_missing: "valid s \<Longrightarrow> tasks s k = None \<Longrightarrow>
      reg_request_cancellation ops k s = (Inl (KeyError k), s)"
    and cancel_law: "valid s \<Longrightarrow> tasks s k = Some t \<Longrightarrow>
      \<exists>t' s'. reg_request_cancellation ops k s = (Inr t', s') \<and> valid s'
        \<and> tasks s' = (tasks s)(k \<mapsto> t') \<and> tr_cancellation_requested t' \<and> same_task t t'
        \<and> tr_status t' = tr_status t"
    and same_law: "valid s \<Longrightarrow> \<exists>b. reg_same_idempotency_payload ops t c s = Inr b"
    and same_refl: "valid s \<Longrightarrow> tr_task_type t = cc_task_type c \<Longrightarrow>
      tr_input_payload t = cc_input_payload c \<Longrightarrow> wf_dict (cc_input_payload c) \<Longrightarrow>
      tr_attachments t = cc_attachments c \<Longrightarrow> reg_same_idempotency_payload ops t c s = Inr True"
    and same_stable: "valid s \<Longrightarrow> valid s' \<Longrightarrow> same_task t t' \<Longrightarrow>
      reg_same_idempotency_payload ops t c s = reg_same_idempotency_payload ops t' c s'"

text \<open>
  The event store keeps an ordered stream per task. \<open>newer a b\<close> is the order of event ids
  (\<open>a\<close> after \<open>b\<close>), \<open>checkpoint\<close> the ids a reader may resume from. A store may drop the
  oldest entries when it appends (a bounded Redis stream does).
\<close>

definition events_after ::
  "(string \<Rightarrow> string \<Rightarrow> bool) \<Rightarrow> string option \<Rightarrow> task_event list \<Rightarrow> task_event list" where
  "events_after newer after evs =
     (case after of None \<Rightarrow> evs | Some c \<Rightarrow> filter (\<lambda>e. newer (ev_event_id e) c) evs)"

locale event_reader =
  fixes ops :: "'s event_store_ops"
    and valid :: "'s \<Rightarrow> bool"
    and log :: "'s \<Rightarrow> string \<Rightarrow> task_event list"
    and newer :: "string \<Rightarrow> string \<Rightarrow> bool"
    and checkpoint :: "string \<Rightarrow> bool"
  assumes newer_asym: "newer a b \<Longrightarrow> \<not> newer b a"
    and newer_trans: "newer a b \<Longrightarrow> newer b c \<Longrightarrow> newer a c"
    and log_sorted: "valid s \<Longrightarrow> sorted_wrt (\<lambda>e f. newer (ev_event_id f) (ev_event_id e)) (log s tid)"
    and log_checkpoint: "valid s \<Longrightarrow> e \<in> set (log s tid) \<Longrightarrow> checkpoint (ev_event_id e)"
    and log_task: "valid s \<Longrightarrow> e \<in> set (log s tid) \<Longrightarrow> ev_task_id e = tid"
    and read_law: "valid s \<Longrightarrow> 0 \<le> limit \<Longrightarrow> (\<And>c. after = Some c \<Longrightarrow> checkpoint c) \<Longrightarrow>
      es_read_events_after ops tid after limit s =
        Inr (take (nat limit) (events_after newer after (log s tid)))"
    and wait_law: "valid s \<Longrightarrow> 0 \<le> limit \<Longrightarrow> (\<And>c. after = Some c \<Longrightarrow> checkpoint c) \<Longrightarrow>
      es_wait_for_events ops tid after limit timeout_ms s =
        Inr (take (nat limit) (events_after newer after (log s tid)))"

text \<open>
  What is read back of an appended event: the event itself, or one whose payload compares
  equal to it (a store that serialises the payload may reorder its keys).
\<close>

definition same_event :: "task_event \<Rightarrow> task_event \<Rightarrow> bool" where
  "same_event e e' \<longleftrightarrow> ev_type e' = ev_type e \<and> ev_task_id e' = ev_task_id e
     \<and> ev_event_id e' = ev_event_id e \<and> ev_created_at e' = ev_created_at e
     \<and> (ev_payload e' = ev_payload e \<or> dict_eq (ev_payload e) (ev_payload e'))"

lemma same_event_refl [simp]: "same_event e e"
  by (simp add: same_event_def)

locale event_store = event_reader +
  fixes accepts :: "task_event \<Rightarrow> 's \<Rightarrow> bool"
  assumes append_law: "valid s \<Longrightarrow> accepts e s \<Longrightarrow>
      \<exists>i s' n e'. es_append_event ops e s = (Inr (e\<lparr>ev_event_id := i\<rparr>), s') \<and> valid s'
        \<and> n \<le> length (log s (ev_task_id e)) \<and> same_event (e\<lparr>ev_event_id := i\<rparr>) e'
        \<and> log s' = (log s)(ev_task_id e := drop n (log s (ev_task_id e)) @ [e'])"

text \<open>The suspension store; the transition from open to resolved is atomic.\<close>

definition resolve_suspension ::
  "datetime \<Rightarrow> string \<Rightarrow> task_suspension_record \<Rightarrow> task_suspension_record" where
  "resolve_suspension now action_id r = r\<lparr>
     su_status := SUS_RESOLVED,
     su_successful_action_id := Some action_id,
     su_resume_handoff_status := RH_PENDING,
     su_resolved_at := Some now\<rparr>"

definition is_overdue :: "datetime \<Rightarrow> task_suspension_record \<Rightarrow> bool" where
  "is_overdue now r \<longleftrightarrow>
     su_status r = SUS_OPEN \<and> (case su_expires_at r of None \<Rightarrow> False | Some t \<Rightarrow> t < now)"

definition expire_if_overdue ::
  "datetime \<Rightarrow> task_suspension_record \<Rightarrow> task_suspension_record" where
  "expire_if_overdue now r = (if is_overdue now r then r\<lparr>su_status := SUS_EXPIRED\<rparr> else r)"

locale suspension_store =
  fixes ops :: "'s suspension_store_ops"
    and valid :: "'s \<Rightarrow> bool"
    and susp :: "'s \<Rightarrow> string \<times> string \<Rightarrow> task_suspension_record option"
  assumes susp_key: "valid s \<Longrightarrow> susp s k = Some r \<Longrightarrow> (su_task_id r, su_suspend_id r) = k"
    and get_law: "valid s \<Longrightarrow> ss_get_suspension ops t u s =
      (case susp s (t, u) of None \<Rightarrow> Inl (KeyError u) | Some r \<Rightarrow> Inr r)"
    and accept_open: "valid s \<Longrightarrow> susp s (t, u) = Some r \<Longrightarrow> su_status r = SUS_OPEN \<Longrightarrow>
      \<exists>s'. ss_accept_action_if_open ops now t u a s = (Inr (Some (resolve_suspension now a r)), s')
        \<and> valid s' \<and> susp s' = (susp s)((t, u) \<mapsto> resolve_suspension now a r)"
    and accept_closed: "valid s \<Longrightarrow> (\<And>r. susp s (t, u) = Some r \<Longrightarrow> su_status r \<noteq> SUS_OPEN) \<Longrightarrow>
      ss_accept_action_if_open ops now t u a s = (Inr None, s)"
    and mark_missing: "valid s \<Longrightarrow> susp s (t, u) = None \<Longrightarrow>
      ss_mark_resume_dispatched ops t u s = (Inl (KeyError u), s)"
    and mark_law: "valid s \<Longrightarrow> susp s (t, u) = Some r \<Longrightarrow>
      \<exists>s'. ss_mark_resume_dispatched ops t u s
             = (Inr (r\<lparr>su_resume_handoff_status := RH_DISPATCHED\<rparr>), s')
        \<and> valid s' \<and> susp s' = (susp s)((t, u) \<mapsto> r\<lparr>su_resume_handoff_status := RH_DISPATCHED\<rparr>)"
    and pending_law: "valid s \<Longrightarrow>
      \<exists>rs. ss_list_pending_resume_handoffs ops s = Inr rs
        \<and> distinct (map (\<lambda>r. (su_task_id r, su_suspend_id r)) rs)
        \<and> set rs = {r. susp s (su_task_id r, su_suspend_id r) = Some r
                       \<and> su_resume_handoff_status r = RH_PENDING}"
    and expire_law: "valid s \<Longrightarrow>
      \<exists>n s'. ss_expire_open_suspensions ops now s = (Inr n, s') \<and> valid s'
        \<and> susp s' = (\<lambda>k. map_option (expire_if_overdue now) (susp s k))
        \<and> n = card {k. \<exists>r. susp s k = Some r \<and> is_overdue now r}"

text \<open>The receipt store; receipts are kept per task and client action id.\<close>

definition receipt_expired :: "datetime \<Rightarrow> task_action_receipt \<Rightarrow> bool" where
  "receipt_expired now r \<longleftrightarrow> (case re_expires_at r of None \<Rightarrow> False | Some t \<Rightarrow> t < now)"

locale action_receipt_store =
  fixes ops :: "'s action_receipt_store_ops"
    and valid :: "'s \<Rightarrow> bool"
    and receipts :: "'s \<Rightarrow> string \<times> string \<Rightarrow> task_action_receipt option"
  assumes receipts_key: "valid s \<Longrightarrow> receipts s k = Some r \<Longrightarrow>
      (re_task_id r, re_client_action_id r) = k"
    and get_law: "valid s \<Longrightarrow> rs_get_receipt ops t a s = Inr (receipts s (t, a))"
    and save_law: "valid s \<Longrightarrow>
      \<exists>s'. rs_save_receipt ops r s = (Inr r, s') \<and> valid s'
        \<and> receipts s' = (receipts s)((re_task_id r, re_client_action_id r) \<mapsto> r)"
    and delete_law: "valid s \<Longrightarrow>
      \<exists>n s'. rs_delete_expired_receipts ops now s = (Inr n, s') \<and> valid s'
        \<and> receipts s' = (\<lambda>k. case receipts s k of None \<Rightarrow> None
                             | Some r \<Rightarrow> if receipt_expired now r then None else Some r)
        \<and> n = card {k. \<exists>r. receipts s k = Some r \<and> receipt_expired now r}"

end
