(* ===== verification/TaskServices.thy ===== *)
theory TaskServices
  imports Interfaces
begin

text \<open>
  \<open>TaskCreationService\<close>, \<open>TaskPollingService\<close>, \<open>TaskCancellationService\<close> and
  \<open>WebSocketSubscriptionService\<close> of \<open>taskbridge/services.py\<close>. A service is a record of its
  constructor arguments; a method is a function on the world. Clock readings and the fresh
  \<open>uuid4().hex\<close> are arguments. Structured log lines are not modelled, counter increments are.

  What the services guarantee is proved in theory TaskProperties, for every registry and event
  store that keeps its contract.
\<close>

section \<open>Owned access\<close>

definition get_task_or_raise_not_found ::
  "'r task_registry_ops \<Rightarrow> string \<Rightarrow> 'r \<Rightarrow> exc + task_record" where
  "get_task_or_raise_not_found registry task_id s =
     (case reg_get_task registry task_id s of
        Inl e \<Rightarrow> (if is_key_error e then Inl (TaskNotFoundError task_id) else Inl e)
      | Inr task \<Rightarrow> Inr task)"

definition get_owned_task_or_raise_not_found ::
  "'r task_registry_ops \<Rightarrow> ownership_policy \<Rightarrow> string \<Rightarrow> auth_context \<Rightarrow> 'r \<Rightarrow> exc + task_record" where
  "get_owned_task_or_raise_not_found registry policy task_id auth s =
     (case get_task_or_raise_not_found registry task_id s of
        Inl e \<Rightarrow> Inl e
      | Inr task \<Rightarrow>
          (case op_assert_task_access policy auth task of
             Inl e \<Rightarrow> (if is_permission_error e then Inl (TaskNotFoundError task_id) else Inl e)
           | Inr _ \<Rightarrow> Inr task))"

section \<open>Task creation\<close>

record ('r, 'v, 'p, 'c, 'h) task_executor =
  ex_submit_task :: "task_record \<Rightarrow> ('r, 'v, 'p, 'c, 'h) world \<Rightarrow> (exc + unit) \<times> ('r, 'v, 'p, 'c, 'h) world"
  ex_request_cancellation ::
    "task_record \<Rightarrow> ('r, 'v, 'p, 'c, 'h) world \<Rightarrow> (exc + unit) \<times> ('r, 'v, 'p, 'c, 'h) world"

text \<open>The constructor arguments of \<open>TaskCreationService\<close> and of \<open>TaskCancellationService\<close>.\<close>

record ('r, 'v, 'p, 'c, 'h) task_command_service =
  cs_registry :: "'r task_registry_ops"
  cs_executor :: "('r, 'v, 'p, 'c, 'h) task_executor"
  cs_ownership_policy :: ownership_policy

text \<open>
  \<open>create_task\<close> up to the registry write: the ownership check and the idempotency lookup.
  \<open>Some result\<close> is the early return for a duplicate, \<open>None\<close> goes on to create the task.
\<close>

definition create_task_check ::
  "('r, 'v, 'p, 'c, 'h) task_command_service \<Rightarrow> task_create_command \<Rightarrow> ('r, 'v, 'p, 'c, 'h) world
    \<Rightarrow> (exc + task_created_result option) \<times> ('r, 'v, 'p, 'c, 'h) world" where
  "create_task_check svc command w =
     (case op_assert_task_create (cs_ownership_policy svc) (cc_auth_context command) of
        Inl e \<Rightarrow>
          (if is_permission_error e then (Inl (TaskOwnershipError (error_message e)), w)
           else (Inl e, w))
      | Inr _ \<Rightarrow>
          (case reg_get_task_by_client_request_id (cs_registry svc)
                  (ac_subject (cc_auth_context command)) (cc_client_request_id command) (w_registry w) of
             Inl e \<Rightarrow> (Inl e, w)
           | Inr None \<Rightarrow> (Inr None, w)
           | Inr (Some existing) \<Rightarrow>
               (case reg_same_idempotency_payload (cs_registry svc) existing command (w_registry w) of
                  Inl e \<Rightarrow> (Inl e, w)
                | Inr same \<Rightarrow>
                    (if same
                     then (Inr (Some \<lparr>cr_task_id = tr_task_id existing,
                                      cr_status = tr_status existing,
                                      cr_client_request_id = tr_client_request_id existing,
                                      cr_deduplicated = True\<rparr>),
                           increment_counter ''duplicates_total'' w)
                     else (Inl (IdempotencyConflictError
                             (''Conflicting idempotent task create for ''
                              @ cc_client_request_id command)), w)))))"

text \<open>The rest of \<open>create_task\<close>: persist, submit, and the failure path.\<close>

definition create_task_submit ::
  "('r, 'v, 'p, 'c, 'h) task_command_service \<Rightarrow> datetime \<Rightarrow> datetime \<Rightarrow> string \<Rightarrow> task_create_command
    \<Rightarrow> ('r, 'v, 'p, 'c, 'h) world \<Rightarrow> (exc + task_created_result) \<times> ('r, 'v, 'p, 'c, 'h) world" where
  "create_task_submit svc now now_failed uuid command w =
     and_then (on_registry (reg_create_task (cs_registry svc) (from_command now uuid command)) w)
       (\<lambda>created w1.
          case ex_submit_task (cs_executor svc) created w1 of
            (Inl e, w2) \<Rightarrow>
              (if is_exception e
               then and_then (on_registry (reg_update_task_status (cs_registry svc) now_failed
                                             (tr_task_id created) FAILED) w2)
                      (\<lambda>failed w3. (Inl (TaskSubmissionError (''Failed to submit task '' @ tr_task_id failed)),
                                    increment_counter ''task_failures_total'' w3))
               else (Inl e, w2))
          | (Inr _, w2) \<Rightarrow>
              (Inr \<lparr>cr_task_id = tr_task_id created,
                    cr_status = tr_status created,
                    cr_client_request_id = tr_client_request_id created,
                    cr_deduplicated = False\<rparr>,
               increment_counter ''task_starts_total'' w2))"

definition create_task ::
  "('r, 'v, 'p, 'c, 'h) task_command_service \<Rightarrow> datetime \<Rightarrow> datetime \<Rightarrow> string \<Rightarrow> task_create_command
    \<Rightarrow> ('r, 'v, 'p, 'c, 'h) world \<Rightarrow> (exc + task_created_result) \<times> ('r, 'v, 'p, 'c, 'h) world" where
  "create_task svc now now_failed uuid command w =
     and_then (create_task_check svc command w)
       (\<lambda>duplicate w1.
          case duplicate of
            Some result \<Rightarrow> (Inr result, w1)
          | None \<Rightarrow> create_task_submit svc now now_failed uuid command w1)"

section \<open>Polling\<close>

text \<open>
  The constructor arguments of \<open>TaskPollingService\<close> and of \<open>WebSocketSubscriptionService\<close>.
\<close>

record ('r, 'v) task_stream_service =
  ps_registry :: "'r task_registry_ops"
  ps_event_store :: "'v event_store_ops"
  ps_ownership_policy :: ownership_policy

definition poll_result :: "string \<Rightarrow> string option \<Rightarrow> int \<Rightarrow> task_event list \<Rightarrow> poll_events_result" where
  "poll_result task_id after limit events = \<lparr>
     pr_task_id = task_id,
     pr_events = events,
     pr_next_after_event_id = (if events = [] then after else Some (ev_event_id (last events))),
     pr_has_more = (int (length events) = limit)\<rparr>"

definition poll_events ::
  "('r, 'v) task_stream_service \<Rightarrow> string \<Rightarrow> auth_context \<Rightarrow> string option \<Rightarrow> int \<Rightarrow> int option
    \<Rightarrow> ('r, 'v, 'p, 'c, 'h) world \<Rightarrow> (exc + poll_events_result) \<times> ('r, 'v, 'p, 'c, 'h) world" where
  "poll_events svc task_id auth after limit wait_timeout_ms w =
     (case get_owned_task_or_raise_not_found (ps_registry svc) (ps_ownership_policy svc) task_id auth
             (w_registry w) of
        Inl e \<Rightarrow> (Inl e, w)
      | Inr _ \<Rightarrow>
          (case (case wait_timeout_ms of
                   None \<Rightarrow> es_read_events_after (ps_event_store svc) task_id after limit (w_events w)
                 | Some t \<Rightarrow>
                     (if t > 0
                      then es_wait_for_events (ps_event_store svc) task_id after limit t (w_events w)
                      else es_read_events_after (ps_event_store svc) task_id after limit (w_events w))) of
             Inl e \<Rightarrow> (Inl e, w)
           | Inr events \<Rightarrow>
               (Inr (poll_result task_id after limit events),
                if after = None then w else increment_counter ''replays_total'' w)))"

section \<open>WebSocket subscriptions\<close>

definition prepare_subscription ::
  "('r, 'v) task_stream_service \<Rightarrow> string \<Rightarrow> auth_context \<Rightarrow> string option \<Rightarrow> int
    \<Rightarrow> ('r, 'v, 'p, 'c, 'h) world \<Rightarrow> (exc + poll_events_result) \<times> ('r, 'v, 'p, 'c, 'h) world" where
  "prepare_subscription svc task_id auth last_event_id limit w =
     (case get_owned_task_or_raise_not_found (ps_registry svc) (ps_ownership_policy svc) task_id auth
             (w_registry w) of
        Inl e \<Rightarrow> (Inl e, w)
      | Inr _ \<Rightarrow>
          (case es_read_events_after (ps_event_store svc) task_id last_event_id limit (w_events w) of
             Inl e \<Rightarrow> (Inl e, w)
           | Inr events \<Rightarrow>
               (Inr (poll_result task_id last_event_id limit events),
                if last_event_id = None then w else increment_counter ''replays_total'' w)))"

definition wait_for_live_events ::
  "('r, 'v) task_stream_service \<Rightarrow> string \<Rightarrow> string option \<Rightarrow> int \<Rightarrow> int
    \<Rightarrow> ('r, 'v, 'p, 'c, 'h) world \<Rightarrow> exc + task_event list" where
  "wait_for_live_events svc task_id after limit timeout_ms w =
     es_wait_for_events (ps_event_store svc) task_id after limit timeout_ms (w_events w)"

section \<open>Cancellation\<close>

definition cancel_task ::
  "('r, 'v, 'p, 'c, 'h) task_command_service \<Rightarrow> cancel_task_command \<Rightarrow> ('r, 'v, 'p, 'c, 'h) world
    \<Rightarrow> (exc + cancel_task_result) \<times> ('r, 'v, 'p, 'c, 'h) world" where
  "cancel_task svc command w =
     (case get_owned_task_or_raise_not_found (cs_registry svc) (cs_ownership_policy svc)
             (ca_task_id command) (ca_auth_context command) (w_registry w) of
        Inl e \<Rightarrow> (Inl e, w)
      | Inr task \<Rightarrow>
          (if is_terminal (tr_status task)
           then (Inr \<lparr>cn_task_id = tr_task_id task, cn_status = ALREADY_TERMINAL\<rparr>, w)
           else and_then (on_registry (reg_request_cancellation (cs_registry svc) (tr_task_id task)) w)
             (\<lambda>updated w1.
                and_then (ex_request_cancellation (cs_executor svc) updated w1)
                  (\<lambda>_ w2. (Inr \<lparr>cn_task_id = tr_task_id updated, cn_status = CANCELLATION_REQUESTED\<rparr>,
                           increment_counter ''cancels_total'' w2)))))"

section \<open>Access is never granted against the policy\<close>

lemma get_owned_task_Inr:
  "get_owned_task_or_raise_not_found registry policy task_id auth s = Inr task \<longleftrightarrow>
     reg_get_task registry task_id s = Inr task \<and> op_assert_task_access policy auth task = Inr ()"
  by (auto simp: get_owned_task_or_raise_not_found_def get_task_or_raise_not_found_def
      split: sum.splits if_splits)

section \<open>Creation is idempotent\<close>

text \<open>No two tasks of one owner share a client request id.\<close>

definition unique_requests :: "(string \<Rightarrow> task_record option) \<Rightarrow> bool" where
  "unique_requests m \<longleftrightarrow>
     (\<forall>k t k' t'. m k = Some t \<longrightarrow> m k' = Some t' \<longrightarrow> tr_owner_id t = tr_owner_id t' \<longrightarrow>
        tr_client_request_id t = tr_client_request_id t' \<longrightarrow> k = k')"

text \<open>
  What an executor, a worker or a cancellation may do to the registry: change the status,
  flag and time stamp of tasks, never their identity.
\<close>

definition tasks_progress ::
  "(string \<Rightarrow> task_record option) \<Rightarrow> (string \<Rightarrow> task_record option) \<Rightarrow> bool" where
  "tasks_progress m m' \<longleftrightarrow> (\<forall>k. rel_option same_task (m k) (m' k))"

lemma tasks_progress_refl [simp]: "tasks_progress m m"
  by (simp add: tasks_progress_def option.rel_refl)

lemma tasks_progress_Some:
  assumes "tasks_progress m m'" "m k = Some t"
  obtains t' where "m' k = Some t'" "same_task t t'"
  using assms unfolding tasks_progress_def by (metis option_rel_Some1)

lemma tasks_progress_back:
  assumes "tasks_progress m m'" "m' k = Some t'"
  obtains t where "m k = Some t" "same_task t t'"
  using assms unfolding tasks_progress_def by (metis option_rel_Some2)

lemma tasks_progress_trans: "tasks_progress a b \<Longrightarrow> tasks_progress b c \<Longrightarrow> tasks_progress a c"
  unfolding tasks_progress_def
proof (intro allI)
  fix k
  assume "\<forall>k. rel_option same_task (a k) (b k)" "\<forall>k. rel_option same_task (b k) (c k)"
  then have "rel_option same_task (a k) (b k)" "rel_option same_task (b k) (c k)" by simp_all
  then show "rel_option same_task (a k) (c k)"
    by (cases "a k"; cases "b k"; cases "c k") (simp_all add: same_task_trans)
qed

lemma tasks_progress_update:
  "m k = Some t \<Longrightarrow> same_task t t' \<Longrightarrow> tasks_progress m (m(k \<mapsto> t'))"
  by (simp add: tasks_progress_def option.rel_refl)

lemma unique_requests_progress:
  assumes "unique_requests m" "tasks_progress m m'"
  shows "unique_requests m'"
  unfolding unique_requests_def
proof (intro allI impI)
  fix k t k' t'
  assume *: "m' k = Some t" "m' k' = Some t'" "tr_owner_id t = tr_owner_id t'"
    "tr_client_request_id t = tr_client_request_id t'"
  from assms(2) *(1) obtain u where u: "m k = Some u" "same_task u t" by (rule tasks_progress_back)
  from assms(2) *(2) obtain u' where u': "m k' = Some u'" "same_task u' t'" by (rule tasks_progress_back)
  from * u u' have "tr_owner_id u = tr_owner_id u'" "tr_client_request_id u = tr_client_request_id u'"
    by (auto simp: same_task_def)
  with assms(1) u(1) u'(1) show "k = k'" by (auto simp: unique_requests_def)
qed

text \<open>What the services rely on of an executor: it keeps the registry valid and the tasks' identity.\<close>

definition executor_keeps_tasks ::
  "('r \<Rightarrow> bool) \<Rightarrow> ('r \<Rightarrow> string \<Rightarrow> task_record option) \<Rightarrow> ('r, 'v, 'p, 'c, 'h) task_executor \<Rightarrow> bool" where
  "executor_keeps_tasks valid tasks ex \<longleftrightarrow>
     (\<forall>t w r w'. (ex_submit_task ex t w = (r, w') \<or> ex_request_cancellation ex t w = (r, w'))
        \<longrightarrow> valid (w_registry w)
        \<longrightarrow> valid (w_registry w') \<and> tasks_progress (tasks (w_registry w)) (tasks (w_registry w')))"

end
