(* ===== verification/HostStores.thy ===== *)
theory HostStores
  imports Interfaces
begin

text \<open>
  The in-memory stores of the example hosts: \<open>DemoTaskRegistry\<close> and \<open>DemoEventStore\<close>
  (\<open>examples/fastapi-host/app/demo_adapters.py\<close>), \<open>InMemorySuspensionStore\<close> and
  \<open>InMemoryActionReceiptStore\<close> (\<open>enterprise_stores.py\<close>), and the registry and event store of
  \<open>examples/01-minimal-greeter/app.py\<close>, each with the interpretation that discharges the
  contract of its interface.
\<close>

section \<open>Task registries\<close>

type_synonym task_dict = "(string, task_record) dict"

definition demo_create_task :: "task_record \<Rightarrow> task_dict \<Rightarrow> (exc + task_record) \<times> task_dict" where
  "demo_create_task task d = (Inr task, dict_set d (tr_task_id task) task)"

definition demo_get_task :: "string \<Rightarrow> task_dict \<Rightarrow> exc + task_record" where
  "demo_get_task task_id d = (case dict_get d task_id of None \<Rightarrow> Inl (KeyError task_id) | Some t \<Rightarrow> Inr t)"

definition demo_get_task_by_client_request_id ::
  "string \<Rightarrow> string \<Rightarrow> task_dict \<Rightarrow> exc + task_record option" where
  "demo_get_task_by_client_request_id owner_id client_request_id d =
     Inr (List.find (\<lambda>t. tr_owner_id t = owner_id \<and> tr_client_request_id t = client_request_id)
            (dict_values d))"

definition demo_update_task_status ::
  "datetime \<Rightarrow> string \<Rightarrow> task_status \<Rightarrow> task_dict \<Rightarrow> (exc + task_record) \<times> task_dict" where
  "demo_update_task_status now task_id status d =
     (case dict_get d task_id of
        None \<Rightarrow> (Inl (KeyError task_id), d)
      | Some task \<Rightarrow>
          (let updated = task\<lparr>tr_status := status\<rparr> in (Inr updated, dict_set d task_id updated)))"

definition demo_request_cancellation ::
  "string \<Rightarrow> task_dict \<Rightarrow> (exc + task_record) \<times> task_dict" where
  "demo_request_cancellation task_id d =
     (case dict_get d task_id of
        None \<Rightarrow> (Inl (KeyError task_id), d)
      | Some task \<Rightarrow>
          (let updated = task\<lparr>tr_cancellation_requested := True\<rparr>
           in (Inr updated, dict_set d task_id updated)))"

definition demo_same_idempotency_payload ::
  "task_record \<Rightarrow> task_create_command \<Rightarrow> task_dict \<Rightarrow> exc + bool" where
  "demo_same_idempotency_payload task command d = Inr (same_idempotency_payload task command)"

definition demo_registry :: "task_dict task_registry_ops" where
  "demo_registry = \<lparr>
     reg_create_task = demo_create_task,
     reg_get_task = demo_get_task,
     reg_get_task_by_client_request_id = demo_get_task_by_client_request_id,
     reg_update_task_status = demo_update_task_status,
     reg_request_cancellation = demo_request_cancellation,
     reg_same_idempotency_payload = demo_same_idempotency_payload\<rparr>"

text \<open>The greeter's registry stamps \<open>updated_at\<close> and compares no attachments.\<close>

definition greeter_update_task_status ::
  "datetime \<Rightarrow> string \<Rightarrow> task_status \<Rightarrow> task_dict \<Rightarrow> (exc + task_record) \<times> task_dict" where
  "greeter_update_task_status now task_id status d =
     (case dict_get d task_id of
        None \<Rightarrow> (Inl (KeyError task_id), d)
      | Some task \<Rightarrow>
          (let updated = task\<lparr>tr_status := status, tr_updated_at := now\<rparr>
           in (Inr updated, dict_set d task_id updated)))"

definition greeter_same_idempotency_payload ::
  "task_record \<Rightarrow> task_create_command \<Rightarrow> task_dict \<Rightarrow> exc + bool" where
  "greeter_same_idempotency_payload task command d =
     Inr (tr_task_type task = cc_task_type command
          \<and> dict_eq (tr_input_payload task) (cc_input_payload command))"

definition greeter_registry :: "task_dict task_registry_ops" where
  "greeter_registry = \<lparr>
     reg_create_task = demo_create_task,
     reg_get_task = demo_get_task,
     reg_get_task_by_client_request_id = demo_get_task_by_client_request_id,
     reg_update_task_status = greeter_update_task_status,
     reg_request_cancellation = demo_request_cancellation,
     reg_same_idempotency_payload = greeter_same_idempotency_payload\<rparr>"

definition tasks_valid :: "task_dict \<Rightarrow> bool" where
  "tasks_valid d \<longleftrightarrow> dict_ok d \<and> (\<forall>k t. dict_get d k = Some t \<longrightarrow> tr_task_id t = k)"

lemmas demo_registry_defs = demo_create_task_def demo_get_task_def
  demo_get_task_by_client_request_id_def demo_update_task_status_def
  demo_request_cancellation_def demo_same_idempotency_payload_def
  greeter_update_task_status_def greeter_same_idempotency_payload_def

lemma tasks_valid_empty: "tasks_valid []"
  by (simp add: tasks_valid_def dict_simps)

lemma tasks_valid_set: "tasks_valid d \<Longrightarrow> tr_task_id t = k \<Longrightarrow> tasks_valid (dict_set d k t)"
  by (simp add: tasks_valid_def dict_simps)

lemma demo_find_None:
  assumes "tasks_valid d" "demo_get_task_by_client_request_id owner crid d = Inr None"
    and "dict_get d k = Some t"
  shows "\<not> (tr_owner_id t = owner \<and> tr_client_request_id t = crid)"
proof -
  from assms(1,3) have "t \<in> set (dict_values d)"
    by (auto simp: tasks_valid_def dict_values_iff)
  with assms(2) show ?thesis
    by (auto simp: demo_get_task_by_client_request_id_def find_None_iff)
qed

lemma demo_find_Some:
  assumes "tasks_valid d" "demo_get_task_by_client_request_id owner crid d = Inr (Some t)"
  shows "dict_get d (tr_task_id t) = Some t \<and> tr_owner_id t = owner \<and> tr_client_request_id t = crid"
proof -
  from assms(2) have t: "t \<in> set (dict_values d)" "tr_owner_id t = owner"
    "tr_client_request_id t = crid"
    by (auto simp: demo_get_task_by_client_request_id_def find_Some_iff)
  with assms(1) show ?thesis by (auto simp: tasks_valid_def dict_values_iff)
qed

interpretation demo_reg: task_registry demo_registry tasks_valid dict_get
proof unfold_locales
  fix s owner crid k t
  assume "tasks_valid s"
    "reg_get_task_by_client_request_id demo_registry owner crid s = Inr None" "dict_get s k = Some t"
  then show "\<not> (tr_owner_id t = owner \<and> tr_client_request_id t = crid)"
    by (intro demo_find_None) (simp_all add: demo_registry_def)
next
  fix s owner crid t
  assume "tasks_valid s"
    "reg_get_task_by_client_request_id demo_registry owner crid s = Inr (Some t)"
  then show "dict_get s (tr_task_id t) = Some t \<and> tr_owner_id t = owner \<and> tr_client_request_id t = crid"
    by (intro demo_find_Some) (simp_all add: demo_registry_def)
qed (auto simp: demo_registry_def demo_registry_defs tasks_valid_def dict_simps fun_eq_iff
    same_task_def same_idempotency_payload_def dict_eq_refl Let_def)

interpretation greeter_reg: task_registry greeter_registry tasks_valid dict_get
proof unfold_locales
  fix s owner crid k t
  assume "tasks_valid s"
    "reg_get_task_by_client_request_id greeter_registry owner crid s = Inr None" "dict_get s k = Some t"
  then show "\<not> (tr_owner_id t = owner \<and> tr_client_request_id t = crid)"
    by (intro demo_find_None) (simp_all add: greeter_registry_def)
next
  fix s owner crid t
  assume "tasks_valid s"
    "reg_get_task_by_client_request_id greeter_registry owner crid s = Inr (Some t)"
  then show "dict_get s (tr_task_id t) = Some t \<and> tr_owner_id t = owner \<and> tr_client_request_id t = crid"
    by (intro demo_find_Some) (simp_all add: greeter_registry_def)
qed (auto simp: greeter_registry_def demo_registry_defs tasks_valid_def dict_simps fun_eq_iff
    same_task_def dict_eq_refl Let_def)

section \<open>The suspension store\<close>

type_synonym suspension_dict = "(string \<times> string, task_suspension_record) dict"

definition mem_get_suspension ::
  "string \<Rightarrow> string \<Rightarrow> suspension_dict \<Rightarrow> exc + task_suspension_record" where
  "mem_get_suspension task_id suspend_id d =
     (case dict_get d (task_id, suspend_id) of
        None \<Rightarrow> Inl (KeyError suspend_id)
      | Some r \<Rightarrow> Inr r)"

definition mem_accept_action_if_open ::
  "datetime \<Rightarrow> string \<Rightarrow> string \<Rightarrow> string \<Rightarrow> suspension_dict
    \<Rightarrow> (exc + task_suspension_record option) \<times> suspension_dict" where
  "mem_accept_action_if_open now task_id suspend_id client_action_id d =
     (case dict_get d (task_id, suspend_id) of
        None \<Rightarrow> (Inr None, d)
      | Some record \<Rightarrow>
          (if su_status record \<noteq> SUS_OPEN then (Inr None, d)
           else
             (let updated = record\<lparr>
                  su_status := SUS_RESOLVED,
                  su_successful_action_id := Some client_action_id,
                  su_resume_handoff_status := RH_PENDING,
                  su_resolved_at := Some now\<rparr>
              in (Inr (Some updated), dict_set d (task_id, suspend_id) updated))))"

definition mem_mark_resume_dispatched ::
  "string \<Rightarrow> string \<Rightarrow> suspension_dict \<Rightarrow> (exc + task_suspension_record) \<times> suspension_dict" where
  "mem_mark_resume_dispatched task_id suspend_id d =
     (case dict_get d (task_id, suspend_id) of
        None \<Rightarrow> (Inl (KeyError suspend_id), d)
      | Some record \<Rightarrow>
          (let updated = record\<lparr>su_resume_handoff_status := RH_DISPATCHED\<rparr>
           in (Inr updated, dict_set d (task_id, suspend_id) updated)))"

definition mem_list_pending_resume_handoffs ::
  "suspension_dict \<Rightarrow> exc + task_suspension_record list" where
  "mem_list_pending_resume_handoffs d =
     Inr (filter (\<lambda>s. su_resume_handoff_status s = RH_PENDING) (dict_values d))"

text \<open>The loop of \<open>expire_open_suspensions\<close> over the items, replacing values as it goes.\<close>

fun expire_loop ::
  "datetime \<Rightarrow> ((string \<times> string) \<times> task_suspension_record) list \<Rightarrow> suspension_dict \<Rightarrow> nat
    \<Rightarrow> nat \<times> suspension_dict" where
  "expire_loop expires_before [] d count = (count, d)"
| "expire_loop expires_before ((key, s) # items) d count =
     (if su_status s = SUS_OPEN
         \<and> (case su_expires_at s of None \<Rightarrow> False | Some e \<Rightarrow> e < expires_before)
      then expire_loop expires_before items (dict_set d key (s\<lparr>su_status := SUS_EXPIRED\<rparr>)) (Suc count)
      else expire_loop expires_before items d count)"

definition mem_expire_open_suspensions ::
  "datetime \<Rightarrow> suspension_dict \<Rightarrow> (exc + nat) \<times> suspension_dict" where
  "mem_expire_open_suspensions expires_before d =
     (case expire_loop expires_before d d 0 of (count, d') \<Rightarrow> (Inr count, d'))"

definition mem_suspension_store :: "suspension_dict suspension_store_ops" where
  "mem_suspension_store = \<lparr>
     ss_get_suspension = mem_get_suspension,
     ss_accept_action_if_open = mem_accept_action_if_open,
     ss_mark_resume_dispatched = mem_mark_resume_dispatched,
     ss_list_pending_resume_handoffs = mem_list_pending_resume_handoffs,
     ss_expire_open_suspensions = mem_expire_open_suspensions\<rparr>"

definition suspensions_valid :: "suspension_dict \<Rightarrow> bool" where
  "suspensions_valid d \<longleftrightarrow>
     dict_ok d \<and> (\<forall>k r. dict_get d k = Some r \<longrightarrow> (su_task_id r, su_suspend_id r) = k)"

lemmas mem_suspension_defs = mem_get_suspension_def mem_accept_action_if_open_def
  mem_mark_resume_dispatched_def mem_list_pending_resume_handoffs_def
  mem_expire_open_suspensions_def

lemma suspensions_valid_empty: "suspensions_valid []"
  by (simp add: suspensions_valid_def dict_simps)

lemma suspensions_valid_set:
  "suspensions_valid d \<Longrightarrow> (su_task_id r, su_suspend_id r) = k \<Longrightarrow> suspensions_valid (dict_set d k r)"
  by (auto simp: suspensions_valid_def dict_simps)

lemma suspensions_valid_map:
  "suspensions_valid d \<Longrightarrow> suspensions_valid (dict_map (\<lambda>k. expire_if_overdue now) d)"
  by (auto simp: suspensions_valid_def dict_simps expire_if_overdue_def)

lemma expire_loop_Cons:
  "expire_loop now ((k, s) # items) d c =
     (if is_overdue now s then expire_loop now items (dict_set d k (expire_if_overdue now s)) (Suc c)
      else expire_loop now items d c)"
  by (simp add: is_overdue_def expire_if_overdue_def)

text \<open>The loop is the pointwise update: a replaced value is not visited again.\<close>

lemma expire_loop_map:
  assumes "distinct (map fst (done @ rest))"
  shows "expire_loop now rest (dict_map (\<lambda>k. expire_if_overdue now) done @ rest) c
    = (c + length (filter (\<lambda>(k, s). is_overdue now s) rest),
       dict_map (\<lambda>k. expire_if_overdue now) (done @ rest))"
  using assms
proof (induction rest arbitrary: "done" c)
  case Nil
  then show ?case by simp
next
  case (Cons p rest)
  obtain k s where p: "p = (k, s)" by (cases p)
  let ?m = "dict_map (\<lambda>k. expire_if_overdue now)"
  have new: "k \<notin> fst ` set (?m done)"
    using Cons.prems p by (force simp: dict_map_def)
  have upd: "dict_set (?m done @ (k, s) # rest) k v = ?m done @ (k, v) # rest" for v
    using new by (rule dict_set_middle)
  have snoc: "?m done @ (k, expire_if_overdue now s) # rest = ?m (done @ [(k, s)]) @ rest"
    by (simp add: dict_map_def)
  have ih: "expire_loop now rest (?m (done @ [(k, s)]) @ rest) n
      = (n + length (filter (\<lambda>(k, s). is_overdue now s) rest), ?m (done @ (k, s) # rest))" for n
    using Cons.IH [of "done @ [(k, s)]" n] Cons.prems p by simp
  show ?case
  proof (cases "is_overdue now s")
    case True
    have "expire_loop now (p # rest) (?m done @ p # rest) c
        = expire_loop now rest (?m (done @ [(k, s)]) @ rest) (Suc c)"
      by (simp only: p expire_loop_Cons True if_True upd snoc)
    then show ?thesis
      by (simp only: ih) (simp add: True p)
  next
    case False
    then have same: "expire_if_overdue now s = s" by (simp add: expire_if_overdue_def)
    have "expire_loop now (p # rest) (?m done @ p # rest) c
        = expire_loop now rest (?m (done @ [(k, s)]) @ rest) c"
      using snoc by (simp only: p expire_loop_Cons False if_False same)
    then show ?thesis
      by (simp only: ih) (simp add: False p)
  qed
qed

lemma expire_map:
  assumes "dict_ok d"
  shows "mem_expire_open_suspensions now d =
    (Inr (length (filter (\<lambda>(k, s). is_overdue now s) d)), dict_map (\<lambda>k. expire_if_overdue now) d)"
  using expire_loop_map [of "[]" d now 0] assms
  by (simp add: mem_expire_open_suspensions_def dict_ok_def dict_map_def)

lemma dict_count:
  assumes "dict_ok d"
  shows "length (filter (\<lambda>(k, v). P v) d) = card {k. \<exists>v. dict_get d k = Some v \<and> P v}"
proof -
  have "{k. \<exists>v. dict_get d k = Some v \<and> P v} = fst ` set (filter (\<lambda>(k, v). P v) d)"
    using assms by (force simp: dict_in_set_iff [symmetric])
  moreover have "distinct (map fst (filter (\<lambda>(k, v). P v) d))"
    using assms by (simp add: dict_ok_def distinct_map_filter)
  ultimately show ?thesis
    by (metis distinct_card length_map set_map)
qed

lemma mem_pending:
  assumes "suspensions_valid d"
  shows "\<exists>rs. mem_list_pending_resume_handoffs d = Inr rs
    \<and> distinct (map (\<lambda>r. (su_task_id r, su_suspend_id r)) rs)
    \<and> set rs = {r. dict_get d (su_task_id r, su_suspend_id r) = Some r
                   \<and> su_resume_handoff_status r = RH_PENDING}"
proof -
  let ?rs = "filter (\<lambda>s. su_resume_handoff_status s = RH_PENDING) (dict_values d)"
  have keys: "(su_task_id r, su_suspend_id r) = k" if "(k, r) \<in> set d" for k r
    using assms that by (cases k) (auto simp: suspensions_valid_def dict_in_set_iff)
  have "map (\<lambda>r. (su_task_id r, su_suspend_id r)) (dict_values d) = map fst d"
    using keys by (auto simp: dict_values_def intro!: map_cong)
  then have "distinct (map (\<lambda>r. (su_task_id r, su_suspend_id r)) (dict_values d))"
    using assms by (simp add: suspensions_valid_def dict_ok_def)
  moreover have "set ?rs = {r. dict_get d (su_task_id r, su_suspend_id r) = Some r
                   \<and> su_resume_handoff_status r = RH_PENDING}"
    using assms by (auto simp: suspensions_valid_def dict_values_iff) 
  ultimately show ?thesis
    by (auto simp: mem_list_pending_resume_handoffs_def distinct_map_filter)
qed

interpretation mem_susp: suspension_store mem_suspension_store suspensions_valid dict_get
proof unfold_locales
  fix s now
  assume v: "suspensions_valid s"
  show "\<exists>rs. ss_list_pending_resume_handoffs mem_suspension_store s = Inr rs
    \<and> distinct (map (\<lambda>r. (su_task_id r, su_suspend_id r)) rs)
    \<and> set rs = {r. dict_get s (su_task_id r, su_suspend_id r) = Some r
                   \<and> su_resume_handoff_status r = RH_PENDING}"
    using mem_pending [OF v] by (simp add: mem_suspension_store_def)
  have "dict_ok s" using v by (simp add: suspensions_valid_def)
  then show "\<exists>n s'. ss_expire_open_suspensions mem_suspension_store now s = (Inr n, s')
      \<and> suspensions_valid s'
      \<and> dict_get s' = (\<lambda>k. map_option (expire_if_overdue now) (dict_get s k))
      \<and> n = card {k. \<exists>r. dict_get s k = Some r \<and> is_overdue now r}"
    using v by (simp add: mem_suspension_store_def expire_map dict_count suspensions_valid_map
        fun_eq_iff dict_simps)
qed (auto simp: mem_suspension_store_def mem_suspension_defs suspensions_valid_def dict_simps
    fun_eq_iff resolve_suspension_def Let_def split: option.splits)

section \<open>The receipt store\<close>

text \<open>
  The Python keeps the JSON dump of a receipt and parses a deep copy of it on every read, so
  that callers share no mutable value with the store. HOL values are immutable and the dump
  of a receipt parses back to it, so the model keeps the receipt itself.
\<close>

type_synonym receipt_dict = "(string \<times> string, task_action_receipt) dict"

definition mem_save_receipt ::
  "task_action_receipt \<Rightarrow> receipt_dict \<Rightarrow> (exc + task_action_receipt) \<times> receipt_dict" where
  "mem_save_receipt receipt d =
     (Inr receipt, dict_set d (re_task_id receipt, re_client_action_id receipt) receipt)"

definition mem_get_receipt ::
  "string \<Rightarrow> string \<Rightarrow> receipt_dict \<Rightarrow> exc + task_action_receipt option" where
  "mem_get_receipt task_id client_action_id d = Inr (dict_get d (task_id, client_action_id))"

definition mem_delete_expired_receipts ::
  "datetime \<Rightarrow> receipt_dict \<Rightarrow> (exc + nat) \<times> receipt_dict" where
  "mem_delete_expired_receipts expires_before d =
     (let to_delete = map fst (filter (\<lambda>(key, raw).
            case re_expires_at raw of None \<Rightarrow> False | Some e \<Rightarrow> e < expires_before) d)
      in (Inr (length to_delete), foldl dict_del d to_delete))"

definition mem_receipt_store :: "receipt_dict action_receipt_store_ops" where
  "mem_receipt_store = \<lparr>
     rs_get_receipt = mem_get_receipt,
     rs_save_receipt = mem_save_receipt,
     rs_delete_expired_receipts = mem_delete_expired_receipts\<rparr>"

definition receipts_valid :: "receipt_dict \<Rightarrow> bool" where
  "receipts_valid d \<longleftrightarrow>
     dict_ok d \<and> (\<forall>k r. dict_get d k = Some r \<longrightarrow> (re_task_id r, re_client_action_id r) = k)"

lemma receipts_valid_empty: "receipts_valid []"
  by (simp add: receipts_valid_def dict_simps)

lemma dict_get_foldl_del:
  "dict_get (foldl dict_del d ks) k = (if k \<in> set ks then None else dict_get d k)"
  by (induction ks arbitrary: d) (auto simp: dict_simps)

lemma dict_ok_foldl_del: "dict_ok d \<Longrightarrow> dict_ok (foldl dict_del d ks)"
  by (induction ks arbitrary: d) (auto simp: dict_simps)

lemma mem_delete:
  assumes v: "receipts_valid d"
  shows "\<exists>n d'. mem_delete_expired_receipts now d = (Inr n, d') \<and> receipts_valid d'
    \<and> dict_get d' = (\<lambda>k. case dict_get d k of None \<Rightarrow> None
                        | Some r \<Rightarrow> if receipt_expired now r then None else Some r)
    \<and> n = card {k. \<exists>r. dict_get d k = Some r \<and> receipt_expired now r}"
proof -
  have ok: "dict_ok d" using v by (simp add: receipts_valid_def)
  let ?del = "map fst (filter (\<lambda>(key, raw). receipt_expired now raw) d)"
  have set: "k \<in> set ?del \<longleftrightarrow> (\<exists>r. dict_get d k = Some r \<and> receipt_expired now r)" for k
    using ok by (force simp: dict_in_set_iff [symmetric])
  have eq: "mem_delete_expired_receipts now d = (Inr (length ?del), foldl dict_del d ?del)"
    by (simp add: mem_delete_expired_receipts_def receipt_expired_def Let_def)
  have get: "dict_get (foldl dict_del d ?del) = (\<lambda>k. case dict_get d k of None \<Rightarrow> None
      | Some r \<Rightarrow> if receipt_expired now r then None else Some r)"
    unfolding fun_eq_iff dict_get_foldl_del set by (auto split: option.splits)
  have "receipts_valid (foldl dict_del d ?del)"
    using v by (auto simp: receipts_valid_def dict_ok_foldl_del dict_get_foldl_del split: if_splits)
  with eq get dict_count [OF ok] show ?thesis by simp
qed

interpretation mem_rec: action_receipt_store mem_receipt_store receipts_valid dict_get
proof unfold_locales
  fix s now
  assume v: "receipts_valid s"
  then show "\<exists>n s'. rs_delete_expired_receipts mem_receipt_store now s = (Inr n, s')
      \<and> receipts_valid s'
      \<and> dict_get s' = (\<lambda>k. case dict_get s k of None \<Rightarrow> None
                          | Some r \<Rightarrow> if receipt_expired now r then None else Some r)
      \<and> n = card {k. \<exists>r. dict_get s k = Some r \<and> receipt_expired now r}"
    using mem_delete [OF v] by (simp add: mem_receipt_store_def)
qed (auto simp: mem_receipt_store_def mem_save_receipt_def mem_get_receipt_def receipts_valid_def
    dict_simps fun_eq_iff)

section \<open>Ownership policies of the example hosts\<close>

text \<open>\<open>DemoOwnershipPolicy\<close> of the FastAPI host and \<open>FreeForAllPolicy\<close> of the greeter.\<close>

definition demo_ownership_policy :: ownership_policy where
  "demo_ownership_policy = \<lparr>
     op_assert_task_create = (\<lambda>auth.
       if ''tasks:write'' \<notin> ac_scopes auth then Inl (PermissionError (ac_subject auth)) else Inr ()),
     op_assert_task_access = (\<lambda>auth task.
       if ac_subject auth \<noteq> tr_owner_id task then Inl (PermissionError (tr_task_id task)) else Inr ())\<rparr>"

definition free_for_all_policy :: ownership_policy where
  "free_for_all_policy = \<lparr>op_assert_task_create = (\<lambda>auth. Inr ()),
                          op_assert_task_access = (\<lambda>auth task. Inr ())\<rparr>"

definition demo_auth_context :: auth_context where
  "demo_auth_context = \<lparr>ac_subject = ''demo-user'', ac_scopes = {''tasks:read'', ''tasks:write''},
     ac_app_id = None, ac_attributes = []\<rparr>"

end
