(* ===== verification/EventStores.thy ===== *)
theory EventStores
  imports Interfaces
begin

text \<open>
  The in-memory event stores of the example hosts: \<open>DemoEventStore\<close>
  (\<open>examples/fastapi-host/app/demo_adapters.py\<close>), which orders event ids as pairs of numbers,
  and \<open>InMemoryEventStore\<close> (\<open>examples/01-minimal-greeter/app.py\<close>), which compares them as
  strings. Both keep the id a caller gives, so what they accept without breaking their own
  order is part of each interpretation.
\<close>

section \<open>Event ids as tuples of numbers\<close>

text \<open>\<open>tuple(int(part) for part in s.split("-", maxsplit=1))\<close>, \<open>None\<close> for the \<open>ValueError\<close>.\<close>

fun ints_of :: "string list \<Rightarrow> int list option" where
  "ints_of [] = Some []"
| "ints_of (p # ps) =
     (case py_int p of
        None \<Rightarrow> None
      | Some i \<Rightarrow> (case ints_of ps of None \<Rightarrow> None | Some is \<Rightarrow> Some (i # is)))"

definition event_key :: "string \<Rightarrow> int list option" where
  "event_key s = ints_of (split_once (CHR ''-'') s)"

definition is_newer_event :: "string \<Rightarrow> string option \<Rightarrow> exc + bool" where
  "is_newer_event candidate checkpoint =
     (case checkpoint of
        None \<Rightarrow> Inr True
      | Some c \<Rightarrow>
          (case event_key candidate of
             None \<Rightarrow> Inl (ValueError ''invalid literal for int() with base 10'')
           | Some left \<Rightarrow>
               (case event_key c of
                  None \<Rightarrow> Inl (ValueError ''invalid literal for int() with base 10'')
                | Some right \<Rightarrow> Inr (left > right))))"

text \<open>The ids \<open>f"{n}-0"\<close> the executor gives its events, and their order.\<close>

definition seq_event_id :: "nat \<Rightarrow> string" where
  "seq_event_id n = show_nat n @ ''-0''"

lemma event_key_seq: "event_key (seq_event_id n) = Some [int n, 0]"
proof -
  have nd: "x \<noteq> CHR ''-''" if "x \<in> set (show_nat n)" for x
    using show_nat_digits [OF that] digit_not_special(2) by blast
  have "dropWhile (\<lambda>x. x \<noteq> CHR ''-'') (show_nat n @ ''-0'') = ''-0''"
    using nd by (subst dropWhile_append2) auto
  moreover have "takeWhile (\<lambda>x. x \<noteq> CHR ''-'') (show_nat n @ ''-0'') = show_nat n"
    using nd by (subst takeWhile_append2) auto
  moreover have "py_int ''0'' = Some 0"
    by (simp add: py_int_def strip_def lstrip_def rstrip_def is_py_space_def is_digit_def
        digit_value_def Let_def)
  ultimately show ?thesis
    by (simp add: event_key_def seq_event_id_def split_once_def py_int_show_nat)
qed

section \<open>The demo event store\<close>

type_synonym event_list = "task_event list"

definition demo_append_event :: "task_event \<Rightarrow> event_list \<Rightarrow> (exc + task_event) \<times> event_list" where
  "demo_append_event event evs = (Inr event, evs @ [event])"

text \<open>The list comprehension: the first id that is not a number aborts it.\<close>

fun demo_select :: "string \<Rightarrow> string option \<Rightarrow> event_list \<Rightarrow> exc + task_event list" where
  "demo_select task_id after [] = Inr []"
| "demo_select task_id after (e # es) =
     (if ev_task_id e \<noteq> task_id then demo_select task_id after es
      else (case is_newer_event (ev_event_id e) after of
              Inl x \<Rightarrow> Inl x
            | Inr keep \<Rightarrow>
                (case demo_select task_id after es of
                   Inl x \<Rightarrow> Inl x
                 | Inr es' \<Rightarrow> Inr (if keep then e # es' else es'))))"

definition demo_read_events_after ::
  "string \<Rightarrow> string option \<Rightarrow> int \<Rightarrow> event_list \<Rightarrow> exc + task_event list" where
  "demo_read_events_after task_id after limit evs =
     (case demo_select task_id after evs of Inl x \<Rightarrow> Inl x | Inr es \<Rightarrow> Inr (py_take limit es))"

definition demo_wait_for_events ::
  "string \<Rightarrow> string option \<Rightarrow> int \<Rightarrow> int \<Rightarrow> event_list \<Rightarrow> exc + task_event list" where
  "demo_wait_for_events task_id after limit timeout_ms evs =
     demo_read_events_after task_id after limit evs"

definition demo_event_store :: "event_list event_store_ops" where
  "demo_event_store = \<lparr>
     es_append_event = demo_append_event,
     es_read_events_after = demo_read_events_after,
     es_wait_for_events = demo_wait_for_events\<rparr>"

text \<open>The stream of a task, and when the ids in it are readable and strictly increasing.\<close>

definition task_events :: "event_list \<Rightarrow> string \<Rightarrow> task_event list" where
  "task_events evs task_id = filter (\<lambda>e. ev_task_id e = task_id) evs"

definition key_newer :: "string \<Rightarrow> string \<Rightarrow> bool" where
  "key_newer a b \<longleftrightarrow>
     (case event_key a of None \<Rightarrow> False
      | Some x \<Rightarrow> (case event_key b of None \<Rightarrow> False | Some y \<Rightarrow> x > y))"

definition key_ok :: "string \<Rightarrow> bool" where
  "key_ok a \<longleftrightarrow> event_key a \<noteq> None"

definition ordered_by :: "(string \<Rightarrow> string \<Rightarrow> bool) \<Rightarrow> (string \<Rightarrow> bool) \<Rightarrow> event_list \<Rightarrow> bool" where
  "ordered_by newer ok evs \<longleftrightarrow>
     (\<forall>tid. sorted_wrt (\<lambda>e f. newer (ev_event_id f) (ev_event_id e)) (task_events evs tid))
     \<and> (\<forall>e \<in> set evs. ok (ev_event_id e))"

definition next_in_order ::
  "(string \<Rightarrow> string \<Rightarrow> bool) \<Rightarrow> (string \<Rightarrow> bool) \<Rightarrow> task_event \<Rightarrow> event_list \<Rightarrow> bool" where
  "next_in_order newer ok e evs \<longleftrightarrow>
     ok (ev_event_id e)
     \<and> (\<forall>f \<in> set (task_events evs (ev_task_id e)). newer (ev_event_id e) (ev_event_id f))"

lemma task_events_append:
  "task_events (evs @ [e]) tid = task_events evs tid @ (if ev_task_id e = tid then [e] else [])"
  by (simp add: task_events_def)

lemma task_events_in: "e \<in> set (task_events evs tid) \<longleftrightarrow> e \<in> set evs \<and> ev_task_id e = tid"
  by (auto simp: task_events_def)

lemma ordered_by_append:
  "ordered_by newer ok evs \<Longrightarrow> next_in_order newer ok e evs \<Longrightarrow> ordered_by newer ok (evs @ [e])"
  by (auto simp: ordered_by_def next_in_order_def task_events_append sorted_wrt_append)

lemma key_newer_asym: "key_newer a b \<Longrightarrow> \<not> key_newer b a"
  by (auto simp: key_newer_def split: option.splits)

lemma key_newer_trans: "key_newer a b \<Longrightarrow> key_newer b c \<Longrightarrow> key_newer a c"
  by (auto simp: key_newer_def split: option.splits)

lemma demo_select_ok:
  assumes "\<forall>e \<in> set evs. key_ok (ev_event_id e)" "\<And>c. after = Some c \<Longrightarrow> key_ok c"
  shows "demo_select tid after evs = Inr (events_after key_newer after (task_events evs tid))"
  using assms
  by (induction tid after evs rule: demo_select.induct)
    (auto simp: events_after_def task_events_def is_newer_event_def key_ok_def key_newer_def
      split: option.splits)

interpretation demo_ev: event_store demo_event_store "ordered_by key_newer key_ok" task_events
  key_newer key_ok "next_in_order key_newer key_ok"
proof unfold_locales
  fix e :: task_event and s
  assume "ordered_by key_newer key_ok s" "next_in_order key_newer key_ok e s"
  then have "ordered_by key_newer key_ok (s @ [e])" by (rule ordered_by_append)
  moreover have "task_events (s @ [e]) = (task_events s)(ev_task_id e :=
      drop 0 (task_events s (ev_task_id e)) @ [e\<lparr>ev_event_id := ev_event_id e\<rparr>])"
    by (auto simp: task_events_append fun_eq_iff)
  ultimately show "\<exists>i s' n e'. es_append_event demo_event_store e s = (Inr (e\<lparr>ev_event_id := i\<rparr>), s')
      \<and> ordered_by key_newer key_ok s' \<and> n \<le> length (task_events s (ev_task_id e))
      \<and> same_event (e\<lparr>ev_event_id := i\<rparr>) e'
      \<and> task_events s' = (task_events s)(ev_task_id e := drop n (task_events s (ev_task_id e)) @ [e'])"
    unfolding demo_event_store_def demo_append_event_def
    by (intro exI [of _ "ev_event_id e"] exI [of _ "s @ [e]"] exI [of _ 0] exI [of _ e]) simp
qed (auto simp: demo_event_store_def demo_read_events_after_def demo_wait_for_events_def
    ordered_by_def demo_select_ok task_events_in dest: key_newer_asym intro: key_newer_trans)

section \<open>The greeter's event store\<close>

text \<open>
  \<open>read_events_after\<close> compares the ids as strings. \<open>wait_for_events\<close> reads at once and, if
  nothing is there, once more after a notification or not at all after the timeout; with no
  append in between both give the same batch.
\<close>

definition greeter_append_event :: "task_event \<Rightarrow> event_list \<Rightarrow> (exc + task_event) \<times> event_list" where
  "greeter_append_event event evs = (Inr event, evs @ [event])"

definition greeter_read_events_after ::
  "string \<Rightarrow> string option \<Rightarrow> int \<Rightarrow> event_list \<Rightarrow> exc + task_event list" where
  "greeter_read_events_after task_id after limit evs =
     Inr (py_take limit (filter (\<lambda>e. ev_task_id e = task_id
            \<and> (case after of None \<Rightarrow> True | Some c \<Rightarrow> ev_event_id e > c)) evs))"

text \<open>\<open>notified\<close> is the store at the time of a notification, \<open>None\<close> when the wait times out.\<close>

definition greeter_wait_for_events ::
  "event_list option \<Rightarrow> string \<Rightarrow> string option \<Rightarrow> int \<Rightarrow> int \<Rightarrow> event_list \<Rightarrow> exc + task_event list" where
  "greeter_wait_for_events notified task_id after limit timeout_ms evs =
     (case greeter_read_events_after task_id after limit evs of
        Inl x \<Rightarrow> Inl x
      | Inr batch \<Rightarrow>
          (if batch \<noteq> [] then Inr batch
           else (case notified of
                   None \<Rightarrow> Inr []
                 | Some evs' \<Rightarrow> greeter_read_events_after task_id after limit evs')))"

definition greeter_event_store :: "event_list event_store_ops" where
  "greeter_event_store = \<lparr>
     es_append_event = greeter_append_event,
     es_read_events_after = greeter_read_events_after,
     es_wait_for_events = greeter_wait_for_events None\<rparr>"

lemma greeter_filter:
  "filter (\<lambda>e. ev_task_id e = tid \<and> (case after of None \<Rightarrow> True | Some c \<Rightarrow> ev_event_id e > c)) evs
    = events_after (\<lambda>a b. a > b) after (task_events evs tid)"
  by (cases after) (auto simp: events_after_def task_events_def intro: filter_cong)

interpretation greeter_ev: event_store greeter_event_store "ordered_by (\<lambda>a b. a > b) (\<lambda>a. True)"
  task_events "\<lambda>a b. a > b" "\<lambda>a. True" "next_in_order (\<lambda>a b. a > b) (\<lambda>a. True)"
proof unfold_locales
  fix e :: task_event and s
  assume "ordered_by (\<lambda>a b. a > b) (\<lambda>a. True) s" "next_in_order (\<lambda>a b. a > b) (\<lambda>a. True) e s"
  then have "ordered_by (\<lambda>a b. a > b) (\<lambda>a. True) (s @ [e])" by (rule ordered_by_append)
  moreover have "task_events (s @ [e]) = (task_events s)(ev_task_id e :=
      drop 0 (task_events s (ev_task_id e)) @ [e\<lparr>ev_event_id := ev_event_id e\<rparr>])"
    by (auto simp: task_events_append fun_eq_iff)
  ultimately show "\<exists>i s' n e'. es_append_event greeter_event_store e s = (Inr (e\<lparr>ev_event_id := i\<rparr>), s')
      \<and> ordered_by (\<lambda>a b. a > b) (\<lambda>a. True) s' \<and> n \<le> length (task_events s (ev_task_id e))
      \<and> same_event (e\<lparr>ev_event_id := i\<rparr>) e'
      \<and> task_events s' = (task_events s)(ev_task_id e := drop n (task_events s (ev_task_id e)) @ [e'])"
    unfolding greeter_event_store_def greeter_append_event_def
    by (intro exI [of _ "ev_event_id e"] exI [of _ "s @ [e]"] exI [of _ 0] exI [of _ e]) simp
qed (auto simp: greeter_event_store_def greeter_read_events_after_def greeter_wait_for_events_def
    greeter_filter ordered_by_def task_events_in split: list.splits)

text \<open>
  Where the two orders part: the tenth event of a task is after the ninth as a pair of
  numbers and before it as a string.
\<close>

lemma seq_ids_numeric: "m < n \<longleftrightarrow> key_newer (seq_event_id n) (seq_event_id m)"
  by (auto simp: key_newer_def event_key_seq)

lemma seq_id_ten: "seq_event_id 10 < seq_event_id 9"
  by (simp add: seq_event_id_def show_nat.simps digit_char_def less_char_def)

end
