(* ===== verification/FakeExecutor.thy ===== *)
theory FakeExecutor
  imports TaskServices HostStores EventStores
begin

text \<open>
  \<open>DeterministicFakeExecutor\<close> of \<open>taskbridge/fakes.py\<close>. The asyncio task behind a submitted
  task is a program counter kept under the task's id; \<open>fake_step\<close> runs it from one await to the
  next, so other coroutines can run between any two steps. A program counter holds the local
  variable \<open>progress_emitted\<close>. \<open>sleep\<close> has no effect on the state. An exception out of a store
  ends the coroutine, whose \<open>finally\<close> drops the task from the table.
\<close>

section \<open>State\<close>

datatype fake_pc =
    FP_Begin
  | FP_EmitStarted
  | FP_Loop nat
  | FP_Sleep nat
  | FP_CancelStatus nat
  | FP_CancelEmit nat
  | FP_FailStatus nat
  | FP_FailEmit nat
  | FP_CompleteStatus nat
  | FP_CompleteEmit nat

text \<open>
  The tables of an executor, with the program counters of its kind of coroutine: classes that
  derive from the executor have another \<open>_run\<close> and the same tables.
\<close>

record 'pc executor_state =
  fx_cancel_requested :: "string list"
  fx_event_seq :: "(string, nat) dict"
  fx_tasks :: "(string, 'pc) dict"

type_synonym fake_state = "fake_pc executor_state"

record ('r, 'v) fake_config =
  fc_registry :: "'r task_registry_ops"
  fc_event_store :: "'v event_store_ops"
  fc_progress_ticks :: nat
  fc_fail_after :: "int option"

text \<open>\<open>__init__\<close>: a negative number of ticks is refused.\<close>

definition fake_init ::
  "'r task_registry_ops \<Rightarrow> 'v event_store_ops \<Rightarrow> int \<Rightarrow> int option
    \<Rightarrow> exc + ('r, 'v) fake_config \<times> fake_state" where
  "fake_init registry store progress_ticks fail_after =
     (if progress_ticks < 0 then Inl (ValueError ''progress_ticks must be >= 0'')
      else Inr (\<lparr>fc_registry = registry, fc_event_store = store,
                 fc_progress_ticks = nat progress_ticks, fc_fail_after = fail_after\<rparr>,
                \<lparr>fx_cancel_requested = [], fx_event_seq = [], fx_tasks = []\<rparr>))"

section \<open>The executor interface\<close>

definition set_pc :: "string \<Rightarrow> 'pc \<Rightarrow> ('r, 'v, 'p, 'c, 'pc executor_state) world
    \<Rightarrow> ('r, 'v, 'p, 'c, 'pc executor_state) world" where
  "set_pc tid pc w = w\<lparr>w_host := (w_host w)\<lparr>fx_tasks := dict_set (fx_tasks (w_host w)) tid pc\<rparr>\<rparr>"

definition pop_task :: "string \<Rightarrow> ('r, 'v, 'p, 'c, 'pc executor_state) world
    \<Rightarrow> ('r, 'v, 'p, 'c, 'pc executor_state) world" where
  "pop_task tid w = w\<lparr>w_host := (w_host w)\<lparr>fx_tasks := dict_del (fx_tasks (w_host w)) tid\<rparr>\<rparr>"

definition submit_coroutine :: "'pc \<Rightarrow> task_record \<Rightarrow> ('r, 'v, 'p, 'c, 'pc executor_state) world
    \<Rightarrow> (exc + unit) \<times> ('r, 'v, 'p, 'c, 'pc executor_state) world" where
  "submit_coroutine start task w =
     (case dict_get (fx_tasks (w_host w)) (tr_task_id task) of
        Some _ \<Rightarrow> (Inl (RuntimeError (''Task '' @ tr_task_id task @ '' already submitted to this executor'')), w)
      | None \<Rightarrow> (Inr (), set_pc (tr_task_id task) start w))"

definition fake_submit_task :: "task_record \<Rightarrow> ('r, 'v, 'p, 'c, fake_state) world
    \<Rightarrow> (exc + unit) \<times> ('r, 'v, 'p, 'c, fake_state) world" where
  "fake_submit_task = submit_coroutine FP_Begin"

definition fake_request_cancellation :: "task_record \<Rightarrow> ('r, 'v, 'p, 'c, 'pc executor_state) world
    \<Rightarrow> (exc + unit) \<times> ('r, 'v, 'p, 'c, 'pc executor_state) world" where
  "fake_request_cancellation task w =
     (Inr (), w\<lparr>w_host := (w_host w)\<lparr>fx_cancel_requested :=
        List.insert (tr_task_id task) (fx_cancel_requested (w_host w))\<rparr>\<rparr>)"

definition fake_executor :: "('r, 'v, 'p, 'c, fake_state) task_executor" where
  "fake_executor = \<lparr>ex_submit_task = fake_submit_task,
                     ex_request_cancellation = fake_request_cancellation\<rparr>"

section \<open>The coroutine\<close>

definition fake_emit ::
  "('r, 'v) fake_config \<Rightarrow> datetime \<Rightarrow> string \<Rightarrow> task_event_type \<Rightarrow> jdict
    \<Rightarrow> ('r, 'v, 'p, 'c, 'pc executor_state) world \<Rightarrow> (exc + task_event) \<times> ('r, 'v, 'p, 'c, 'pc executor_state) world" where
  "fake_emit cfg now tid event_type payload w =
     (let n = Suc (case dict_get (fx_event_seq (w_host w)) tid of None \<Rightarrow> 0 | Some n \<Rightarrow> n);
          w1 = w\<lparr>w_host := (w_host w)\<lparr>fx_event_seq := dict_set (fx_event_seq (w_host w)) tid n\<rparr>\<rparr>
      in on_events (es_append_event (fc_event_store cfg)
           \<lparr>ev_type = event_type, ev_task_id = tid, ev_event_id = show_nat n @ ''-0'',
            ev_created_at = now, ev_payload = payload\<rparr>) w1)"

definition fake_status ::
  "('r, 'v) fake_config \<Rightarrow> datetime \<Rightarrow> string \<Rightarrow> task_status
    \<Rightarrow> ('r, 'v, 'p, 'c, 'pc executor_state) world \<Rightarrow> (exc + task_record) \<times> ('r, 'v, 'p, 'c, 'pc executor_state) world" where
  "fake_status cfg now tid status = on_registry (reg_update_task_status (fc_registry cfg) now tid status)"

definition message_payload :: "string \<Rightarrow> jdict" where
  "message_payload m = [(''message'', JStr m)]"

text \<open>One await of \<open>_run\<close>: the program counter it goes on with, \<open>None\<close> at its end.\<close>

fun fake_await ::
  "('r, 'v) fake_config \<Rightarrow> datetime \<Rightarrow> string \<Rightarrow> fake_pc
    \<Rightarrow> ('r, 'v, 'p, 'c, fake_state) world
    \<Rightarrow> (exc + fake_pc option) \<times> ('r, 'v, 'p, 'c, fake_state) world" where
  "fake_await cfg now tid FP_Begin w =
     and_then (fake_status cfg now tid RUNNING w) (\<lambda>_ w1. (Inr (Some FP_EmitStarted), w1))"
| "fake_await cfg now tid FP_EmitStarted w =
     and_then (fake_emit cfg now tid TASK_STARTED (message_payload ''started'') w)
       (\<lambda>_ w1. (Inr (Some (FP_Loop 0)), w1))"
| "fake_await cfg now tid (FP_Loop k) w =
     (if k < fc_progress_ticks cfg
      then if tid \<in> set (fx_cancel_requested (w_host w))
           then (Inr (Some (FP_CancelStatus k)), w)
           else (Inr (Some (FP_Sleep k)), w)
      else if tid \<in> set (fx_cancel_requested (w_host w))
           then (Inr (Some (FP_CancelStatus k)), w)
           else (Inr (Some (FP_CompleteStatus k)), w))"
| "fake_await cfg now tid (FP_Sleep k) w =
     and_then (fake_emit cfg now tid TASK_PROGRESS
                 [(''progress'', JInt (int k + 1)), (''message'', JStr ''tick'')] w)
       (\<lambda>_ w1.
          case fc_fail_after cfg of
            None \<Rightarrow> (Inr (Some (FP_Loop (Suc k))), w1)
          | Some m \<Rightarrow>
              (if int (Suc k) \<ge> m then (Inr (Some (FP_FailStatus (Suc k))), w1)
               else (Inr (Some (FP_Loop (Suc k))), w1)))"
| "fake_await cfg now tid (FP_CancelStatus k) w =
     and_then (fake_status cfg now tid CANCELLED w) (\<lambda>_ w1. (Inr (Some (FP_CancelEmit k)), w1))"
| "fake_await cfg now tid (FP_CancelEmit k) w =
     and_then (fake_emit cfg now tid TASK_CANCELLED (message_payload ''cancelled'') w)
       (\<lambda>_ w1. (Inr None, w1))"
| "fake_await cfg now tid (FP_FailStatus k) w =
     and_then (fake_status cfg now tid FAILED w) (\<lambda>_ w1. (Inr (Some (FP_FailEmit k)), w1))"
| "fake_await cfg now tid (FP_FailEmit k) w =
     and_then (fake_emit cfg now tid TASK_FAILED (message_payload ''injected failure'') w)
       (\<lambda>_ w1. (Inr None, w1))"
| "fake_await cfg now tid (FP_CompleteStatus k) w =
     and_then (fake_status cfg now tid COMPLETED w) (\<lambda>_ w1. (Inr (Some (FP_CompleteEmit k)), w1))"
| "fake_await cfg now tid (FP_CompleteEmit k) w =
     and_then (fake_emit cfg now tid TASK_COMPLETED (message_payload ''completed'') w)
       (\<lambda>_ w1. (Inr None, w1))"

text \<open>A step of the event loop: nothing to do for a task that is not running.\<close>

definition fake_step ::
  "('r, 'v) fake_config \<Rightarrow> datetime \<Rightarrow> string \<Rightarrow> ('r, 'v, 'p, 'c, fake_state) world
    \<Rightarrow> ('r, 'v, 'p, 'c, fake_state) world" where
  "fake_step cfg now tid w =
     (case dict_get (fx_tasks (w_host w)) tid of
        None \<Rightarrow> w
      | Some pc \<Rightarrow>
          (case fake_await cfg now tid pc w of
             (Inr (Some pc'), w1) \<Rightarrow> set_pc tid pc' w1
           | (_, w1) \<Rightarrow> pop_task tid w1))"

fun fake_run ::
  "('r, 'v) fake_config \<Rightarrow> datetime \<Rightarrow> string \<Rightarrow> nat \<Rightarrow> ('r, 'v, 'p, 'c, fake_state) world
    \<Rightarrow> ('r, 'v, 'p, 'c, fake_state) world" where
  "fake_run cfg now tid 0 w = w"
| "fake_run cfg now tid (Suc n) w = fake_run cfg now tid n (fake_step cfg now tid w)"

section \<open>The executor and the registry\<close>

text \<open>Submission and cancellation only touch the executor's own tables.\<close>

lemma fake_executor_frame:
  "w_registry (snd (fake_submit_task t w)) = w_registry w"
  "w_registry (snd (fake_request_cancellation t w)) = w_registry w"
  by (simp_all add: fake_submit_task_def submit_coroutine_def fake_request_cancellation_def set_pc_def split: option.splits)

lemma fake_executor_keeps: "executor_keeps_tasks valid tasks fake_executor"
  unfolding executor_keeps_tasks_def
proof (intro allI impI)
  fix t w r w'
  assume "ex_submit_task fake_executor t w = (r, w') \<or> ex_request_cancellation fake_executor t w = (r, w')"
    and "valid (w_registry w)"
  moreover from this have "w_registry w' = w_registry w"
    using fake_executor_frame [of t w] by (auto simp: fake_executor_def)
  ultimately show "valid (w_registry w') \<and> tasks_progress (tasks (w_registry w)) (tasks (w_registry w'))"
    by simp
qed

section \<open>A run ends\<close>

text \<open>How many awaits a coroutine has left at most.\<close>

fun awaits_left :: "nat \<Rightarrow> fake_pc \<Rightarrow> nat" where
  "awaits_left ticks FP_Begin = 2 * ticks + 5"
| "awaits_left ticks FP_EmitStarted = 2 * ticks + 4"
| "awaits_left ticks (FP_Loop k) = 2 * (ticks - k) + 3"
| "awaits_left ticks (FP_Sleep k) = 2 * (ticks - k) + 2"
| "awaits_left ticks (FP_CancelStatus k) = 2"
| "awaits_left ticks (FP_CancelEmit k) = 1"
| "awaits_left ticks (FP_FailStatus k) = 2"
| "awaits_left ticks (FP_FailEmit k) = 1"
| "awaits_left ticks (FP_CompleteStatus k) = 2"
| "awaits_left ticks (FP_CompleteEmit k) = 1"

fun pc_ok :: "nat \<Rightarrow> fake_pc \<Rightarrow> bool" where
  "pc_ok ticks (FP_Loop k) = (k \<le> ticks)"
| "pc_ok ticks (FP_Sleep k) = (k < ticks)"
| "pc_ok ticks (FP_CancelStatus k) = (k \<le> ticks)"
| "pc_ok ticks (FP_CancelEmit k) = (k \<le> ticks)"
| "pc_ok ticks (FP_FailStatus k) = (k \<le> ticks)"
| "pc_ok ticks (FP_FailEmit k) = (k \<le> ticks)"
| "pc_ok ticks (FP_CompleteStatus k) = (k = ticks)"
| "pc_ok ticks (FP_CompleteEmit k) = (k = ticks)"
| "pc_ok ticks pc = True"

lemma fake_emit_host:
  "fake_emit cfg now tid ty p w = (r, w') \<Longrightarrow>
    fx_tasks (w_host w') = fx_tasks (w_host w)
    \<and> fx_cancel_requested (w_host w') = fx_cancel_requested (w_host w)"
  by (auto simp: fake_emit_def on_events_def Let_def split: prod.splits)

lemma fake_status_host: "fake_status cfg now tid st w = (r, w') \<Longrightarrow> w_host w' = w_host w"
  by (auto simp: fake_status_def on_registry_def split: prod.splits)

lemma fake_await_left:
  "fake_await cfg now tid pc w = (Inr (Some pc'), w') \<Longrightarrow> pc_ok (fc_progress_ticks cfg) pc \<Longrightarrow>
    awaits_left (fc_progress_ticks cfg) pc' < awaits_left (fc_progress_ticks cfg) pc
    \<and> pc_ok (fc_progress_ticks cfg) pc'"
  by (cases pc) (auto split: if_splits option.splits effect_splits)

lemma fake_await_tasks:
  "fake_await cfg now tid pc w = (r, w') \<Longrightarrow> fx_tasks (w_host w') = fx_tasks (w_host w)"
  by (cases pc)
    (auto split: if_splits option.splits effect_splits dest: fake_emit_host fake_status_host)

lemma fake_step_left:
  assumes "dict_get (fx_tasks (w_host w)) tid = Some pc" "pc_ok (fc_progress_ticks cfg) pc"
  shows "dict_get (fx_tasks (w_host (fake_step cfg now tid w))) tid = None
    \<or> (\<exists>pc'. dict_get (fx_tasks (w_host (fake_step cfg now tid w))) tid = Some pc'
          \<and> pc_ok (fc_progress_ticks cfg) pc'
          \<and> awaits_left (fc_progress_ticks cfg) pc' < awaits_left (fc_progress_ticks cfg) pc)"
proof -
  obtain r w1 where r: "fake_await cfg now tid pc w = (r, w1)"
    by (cases "fake_await cfg now tid pc w")
  show ?thesis
  proof (cases "\<exists>pc'. r = Inr (Some pc')")
    case True
    then obtain pc' where pc': "r = Inr (Some pc')" ..
    with fake_await_left [of cfg now tid pc w pc' w1] r assms(2) have
      "awaits_left (fc_progress_ticks cfg) pc' < awaits_left (fc_progress_ticks cfg) pc"
      "pc_ok (fc_progress_ticks cfg) pc'" by auto
    with pc' r assms(1) show ?thesis by (auto simp: fake_step_def set_pc_def dict_simps)
  next
    case False
    then have "r = Inr None \<or> (\<exists>e. r = Inl e)" by (cases r) auto
    then show ?thesis using r assms(1) by (auto simp: fake_step_def pop_task_def dict_simps)
  qed
qed

lemma fake_step_idle:
  "dict_get (fx_tasks (w_host w)) tid = None \<Longrightarrow> fake_step cfg now tid w = w"
  by (simp add: fake_step_def)

lemma fake_run_ends:
  assumes "\<And>pc. dict_get (fx_tasks (w_host w)) tid = Some pc \<Longrightarrow>
      pc_ok (fc_progress_ticks cfg) pc \<and> awaits_left (fc_progress_ticks cfg) pc \<le> n"
  shows "dict_get (fx_tasks (w_host (fake_run cfg now tid n w))) tid = None"
  using assms
proof (induction n arbitrary: w)
  case 0
  have "awaits_left t pc \<noteq> 0" for t pc by (cases pc) auto
  with 0 show ?case by (cases "dict_get (fx_tasks (w_host w)) tid") auto
next
  case (Suc n)
  show ?case
  proof (cases "dict_get (fx_tasks (w_host w)) tid")
    case None
    then show ?thesis using Suc.IH [of "fake_step cfg now tid w"] by (simp add: fake_step_idle)
  next
    case (Some pc)
    with Suc.prems have "pc_ok (fc_progress_ticks cfg) pc"
      "awaits_left (fc_progress_ticks cfg) pc \<le> Suc n" by auto
    with fake_step_left [OF Some, of cfg now] have
      "dict_get (fx_tasks (w_host (fake_step cfg now tid w))) tid = Some pc' \<Longrightarrow>
        pc_ok (fc_progress_ticks cfg) pc' \<and> awaits_left (fc_progress_ticks cfg) pc' \<le> n" for pc'
      by fastforce
    then show ?thesis using Suc.IH by simp
  qed
qed

end
