(* ===== verification/TaskProperties.thy ===== *)
theory TaskProperties
  imports TaskServices HostStores EventStores "HOL-Library.Sublist"
begin

text \<open>
  What the task services guarantee. The lemmas are proved for every registry and event store
  that keeps its contract; the properties read them on the stores of the example host,
  through the interpretations \<open>demo_reg\<close> and \<open>demo_ev\<close>, for every executor that keeps the
  identity of tasks and every ownership policy.
\<close>

section \<open>Owned access\<close>

context task_registry
begin

text \<open>A missing task and a task of somebody else are the same answer.\<close>

lemma get_owned_task_eq:
  assumes "valid s"
  shows "get_owned_task_or_raise_not_found ops policy task_id auth s =
    (case tasks s task_id of
       None \<Rightarrow> Inl (TaskNotFoundError task_id)
     | Some t \<Rightarrow> (case op_assert_task_access policy auth t of
                   Inr _ \<Rightarrow> Inr t
                 | Inl e \<Rightarrow> Inl (if is_permission_error e then TaskNotFoundError task_id else e)))"
  using assms
  by (auto simp: get_owned_task_or_raise_not_found_def get_task_or_raise_not_found_def get_law
      split: option.splits sum.splits)

lemma get_owned_task_some:
  assumes "valid s" "get_owned_task_or_raise_not_found ops policy task_id auth s = Inr t"
  shows "tasks s task_id = Some t" "tr_task_id t = task_id" "op_assert_task_access policy auth t = Inr ()"
  using assms tasks_key
  by (auto simp: get_owned_task_Inr get_law split: option.splits)

end

section \<open>Creation\<close>

lemma create_task_denied_eq:
  assumes "op_assert_task_create (cs_ownership_policy svc) (cc_auth_context command) = Inl e"
  shows "create_task svc now now_failed uuid command w =
    (Inl (if is_permission_error e then TaskOwnershipError (error_message e) else e), w)"
  using assms by (simp add: create_task_def create_task_check_def)

text \<open>
  What \<open>create_task\<close> leaves behind, on every path that got past the ownership check and the
  conflict check: a task with the request's owner, id and payload, under the id it answered.
\<close>

definition holds_request ::
  "'s task_registry_ops \<Rightarrow> ('s \<Rightarrow> string \<Rightarrow> task_record option) \<Rightarrow> 's \<Rightarrow> task_create_command \<Rightarrow> string \<Rightarrow> bool" where
  "holds_request ops tasks s command k \<longleftrightarrow>
     (\<exists>t. tasks s k = Some t \<and> tr_owner_id t = ac_subject (cc_auth_context command)
        \<and> tr_client_request_id t = cc_client_request_id command
        \<and> reg_same_idempotency_payload ops t command s = Inr True)"

context task_registry
begin

text \<open>The idempotency lookup, read on the map of tasks.\<close>

lemma find_unique:
  assumes v: "valid s" and u: "unique_requests (tasks s)"
    and t: "tasks s k = Some t" "tr_owner_id t = owner" "tr_client_request_id t = crid"
  shows "reg_get_task_by_client_request_id ops owner crid s = Inr (Some t)"
proof -
  from find_law [OF v] obtain r where r: "reg_get_task_by_client_request_id ops owner crid s = Inr r"
    by blast
  show ?thesis
  proof (cases r)
    case None
    with find_None [OF v] r t show ?thesis by blast
  next
    case (Some t')
    with find_Some [OF v] r have "tasks s (tr_task_id t') = Some t'" "tr_owner_id t' = owner"
      "tr_client_request_id t' = crid" by blast+
    moreover from this u t have "tr_task_id t' = k" by (auto simp: unique_requests_def)
    ultimately show ?thesis using Some r t by simp
  qed
qed

text \<open>A known request is answered from the registry: the retry creates and submits nothing.\<close>

lemma create_known:
  assumes v: "valid (w_registry w)" and u: "unique_requests (tasks (w_registry w))"
    and reg: "cs_registry svc = ops"
    and ok: "op_assert_task_create (cs_ownership_policy svc) (cc_auth_context command) = Inr ()"
    and t: "tasks (w_registry w) k = Some t" "tr_owner_id t = ac_subject (cc_auth_context command)"
      "tr_client_request_id t = cc_client_request_id command"
  shows "create_task svc now now_failed uuid command w =
    (if reg_same_idempotency_payload ops t command (w_registry w) = Inr True
     then (Inr \<lparr>cr_task_id = k, cr_status = tr_status t,
                cr_client_request_id = cc_client_request_id command, cr_deduplicated = True\<rparr>,
           increment_counter ''duplicates_total'' w)
     else (Inl (IdempotencyConflictError
             (''Conflicting idempotent task create for '' @ cc_client_request_id command)), w))"
proof -
  have "reg_get_task_by_client_request_id ops (ac_subject (cc_auth_context command))
      (cc_client_request_id command) (w_registry w) = Inr (Some t)"
    using find_unique [OF v u t] .
  moreover obtain b where "reg_same_idempotency_payload ops t command (w_registry w) = Inr b"
    using same_law [OF v] by blast
  moreover have "tr_task_id t = k" using tasks_key [OF v t(1)] .
  ultimately show ?thesis
    using t ok by (simp add: create_task_def create_task_check_def reg)
qed

text \<open>An unknown request writes one new task, in status ACCEPTED, and hands that to the executor.\<close>

lemma create_unknown:
  assumes v: "valid (w_registry w)" and reg: "cs_registry svc = ops"
    and ok: "op_assert_task_create (cs_ownership_policy svc) (cc_auth_context command) = Inr ()"
    and new: "\<And>k t. tasks (w_registry w) k = Some t \<Longrightarrow>
      \<not> (tr_owner_id t = ac_subject (cc_auth_context command)
          \<and> tr_client_request_id t = cc_client_request_id command)"
  shows "create_task svc now now_failed uuid command w
    = create_task_submit svc now now_failed uuid command w"
proof -
  from find_law [OF v] obtain r where
    r: "reg_get_task_by_client_request_id ops (ac_subject (cc_auth_context command))
          (cc_client_request_id command) (w_registry w) = Inr r" by blast
  with find_Some [OF v] new have "r = None" by (cases r) blast+
  with r ok show ?thesis by (simp add: create_task_def create_task_check_def reg)
qed

lemma create_submit_eq:
  assumes v: "valid (w_registry w)" and reg: "cs_registry svc = ops"
  obtains s where "valid s"
    "tasks s = (tasks (w_registry w))(uuid \<mapsto> from_command now uuid command)"
    "on_registry (reg_create_task ops (from_command now uuid command)) w
       = (Inr (from_command now uuid command), w\<lparr>w_registry := s\<rparr>)"
proof -
  have "tr_task_id (from_command now uuid command) = uuid" by (simp add: from_command_def)
  with create_law [OF v, of "from_command now uuid command"] obtain s where
    "reg_create_task ops (from_command now uuid command) (w_registry w)
       = (Inr (from_command now uuid command), s)" "valid s"
    "tasks s = (tasks (w_registry w))(uuid \<mapsto> from_command now uuid command)" by auto
  then show thesis by (intro that [of s]) (simp_all add: on_registry_def)
qed

lemma holds_request_progress:
  assumes "valid s" "valid s'" "holds_request ops tasks s command k" "tasks_progress (tasks s) (tasks s')"
  shows "holds_request ops tasks s' command k"
proof -
  from assms(3) obtain t where t: "tasks s k = Some t" "tr_owner_id t = ac_subject (cc_auth_context command)"
    "tr_client_request_id t = cc_client_request_id command"
    "reg_same_idempotency_payload ops t command s = Inr True" by (auto simp: holds_request_def)
  from assms(4) t(1) obtain t' where t': "tasks s' k = Some t'" "same_task t t'"
    by (rule tasks_progress_Some)
  moreover have "reg_same_idempotency_payload ops t' command s' = Inr True"
    using same_stable [OF assms(1,2) t'(2)] t(4) by simp
  ultimately show ?thesis using t by (auto simp: holds_request_def same_task_def)
qed

lemma holds_request_new:
  assumes "valid s" "wf_dict (cc_input_payload command)"
    "tasks s uuid = Some (from_command now uuid command)"
  shows "holds_request ops tasks s command uuid"
  using assms same_refl [OF assms(1), of "from_command now uuid command" command]
  by (simp add: holds_request_def from_command_def)

lemma unique_requests_new:
  assumes "unique_requests m"
    and new: "\<And>k t. m k = Some t \<Longrightarrow>
      \<not> (tr_owner_id t = tr_owner_id n \<and> tr_client_request_id t = tr_client_request_id n)"
  shows "unique_requests (m(k \<mapsto> n))"
  using assms unfolding unique_requests_def by (auto split: if_splits) metis+

lemma create_task_submit_effect:
  assumes v: "valid (w_registry w)" and reg: "cs_registry svc = ops"
    and keeps: "executor_keeps_tasks valid tasks (cs_executor svc)"
    and run: "create_task_submit svc now now_failed uuid command w = (res, w')"
  shows "valid (w_registry w')
    \<and> tasks_progress ((tasks (w_registry w))(uuid \<mapsto> from_command now uuid command)) (tasks (w_registry w'))"
proof -
  let ?n = "from_command now uuid command"
  let ?m = "(tasks (w_registry w))(uuid \<mapsto> ?n)"
  from create_submit_eq [OF v reg, of uuid now command] obtain s where s: "valid s" "tasks s = ?m"
    "on_registry (reg_create_task ops ?n) w = (Inr ?n, w\<lparr>w_registry := s\<rparr>)" by blast
  obtain r2 w2 where sub: "ex_submit_task (cs_executor svc) ?n (w\<lparr>w_registry := s\<rparr>) = (r2, w2)"
    by (cases "ex_submit_task (cs_executor svc) ?n (w\<lparr>w_registry := s\<rparr>)")
  from keeps sub s have w2: "valid (w_registry w2)" "tasks_progress ?m (tasks (w_registry w2))"
    unfolding executor_keeps_tasks_def by (auto dest!: spec [of _ ?n] spec [of _ "w\<lparr>w_registry := s\<rparr>"])
  have id: "tr_task_id ?n = uuid" by (simp add: from_command_def)
  show ?thesis
  proof (cases "\<exists>e. r2 = Inl e \<and> is_exception e")
    case False
    with run s sub w2 show ?thesis
      by (auto simp: create_task_submit_def reg split: sum.splits)
  next
    case True
    from w2(2) obtain t2 where t2: "tasks (w_registry w2) uuid = Some t2"
      by (rule tasks_progress_Some [where k = uuid]) simp_all
    from update_law [OF w2(1) t2, of now_failed FAILED] obtain t3 s3 where u3:
      "reg_update_task_status ops now_failed uuid FAILED (w_registry w2) = (Inr t3, s3)" "valid s3"
      "tasks s3 = (tasks (w_registry w2))(uuid \<mapsto> t3)" "same_task t2 t3" by blast
    have "w_registry w' = s3"
      using True run s sub u3 id by (auto simp: create_task_submit_def reg on_registry_def)
    moreover have "tasks_progress (tasks (w_registry w2)) (tasks s3)"
      using tasks_progress_update [of "tasks (w_registry w2)" uuid t2 t3] t2 u3(3,4) by simp
    ultimately show ?thesis using u3(2) tasks_progress_trans [OF w2(2)] by simp
  qed
qed

lemma create_task_cases [case_names denied known unknown]:
  obtains (denied) e where
    "op_assert_task_create (cs_ownership_policy svc) (cc_auth_context command) = Inl e"
  | (known) k t where
    "op_assert_task_create (cs_ownership_policy svc) (cc_auth_context command) = Inr ()"
    "tasks (w_registry w) k = Some t" "tr_owner_id t = ac_subject (cc_auth_context command)"
    "tr_client_request_id t = cc_client_request_id command"
  | (unknown)
    "op_assert_task_create (cs_ownership_policy svc) (cc_auth_context command) = Inr ()"
    "\<And>k t. tasks (w_registry w) k = Some t \<Longrightarrow>
      \<not> (tr_owner_id t = ac_subject (cc_auth_context command)
          \<and> tr_client_request_id t = cc_client_request_id command)"
  using that by (cases "op_assert_task_create (cs_ownership_policy svc) (cc_auth_context command)") auto

lemma create_task_keeps:
  assumes v: "valid (w_registry w)" and u: "unique_requests (tasks (w_registry w))"
    and reg: "cs_registry svc = ops"
    and keeps: "executor_keeps_tasks valid tasks (cs_executor svc)"
    and run: "create_task svc now now_failed uuid command w = (res, w')"
  shows "valid (w_registry w') \<and> unique_requests (tasks (w_registry w'))"
proof (cases rule: create_task_cases [where svc = svc and command = command and w = w])
  case (denied e)
  then show ?thesis using run v u by (auto simp: create_task_denied_eq)
next
  case (known k t)
  from create_known [OF v u reg known] run v u show ?thesis by (auto split: if_splits)
next
  case unknown
  let ?n = "from_command now uuid command"
  have "create_task_submit svc now now_failed uuid command w = (res, w')"
    using create_unknown [OF v reg unknown] run by simp
  from create_task_submit_effect [OF v reg keeps this]
  have eff: "valid (w_registry w')"
    "tasks_progress ((tasks (w_registry w))(uuid \<mapsto> ?n)) (tasks (w_registry w'))" by auto
  have "unique_requests ((tasks (w_registry w))(uuid \<mapsto> ?n))"
    by (rule unique_requests_new [OF u]) (use unknown(2) in \<open>simp add: from_command_def\<close>)
  with eff unique_requests_progress show ?thesis by blast
qed

lemma create_task_records:
  assumes v: "valid (w_registry w)" and u: "unique_requests (tasks (w_registry w))"
    and reg: "cs_registry svc = ops"
    and keeps: "executor_keeps_tasks valid tasks (cs_executor svc)"
    and wf: "wf_dict (cc_input_payload command)"
    and run: "create_task svc now now_failed uuid command w = (Inr r, w')"
  shows "holds_request ops tasks (w_registry w') command (cr_task_id r)"
proof (cases rule: create_task_cases [where svc = svc and command = command and w = w])
  case (denied e)
  then show ?thesis using run by (simp add: create_task_denied_eq)
next
  case (known k t)
  from create_known [OF v u reg known] run known show ?thesis
    by (auto simp: holds_request_def split: if_splits)
next
  case unknown
  let ?n = "from_command now uuid command"
  have run': "create_task_submit svc now now_failed uuid command w = (Inr r, w')"
    using create_unknown [OF v reg unknown] run by simp
  from create_task_submit_effect [OF v reg keeps this]
  have eff: "valid (w_registry w')"
    "tasks_progress ((tasks (w_registry w))(uuid \<mapsto> ?n)) (tasks (w_registry w'))" by auto
  from create_submit_eq [OF v reg, of uuid now command] obtain s where s: "valid s"
    "tasks s = (tasks (w_registry w))(uuid \<mapsto> ?n)"
    "on_registry (reg_create_task ops ?n) w = (Inr ?n, w\<lparr>w_registry := s\<rparr>)" by blast
  from run' s(3) have "cr_task_id r = uuid"
    by (auto simp: create_task_submit_def reg from_command_def
        split: sum.splits prod.splits if_splits effect_splits)
  moreover have "holds_request ops tasks s command uuid"
    by (rule holds_request_new [OF s(1) wf]) (simp add: s(2))
  then have "holds_request ops tasks (w_registry w') command uuid"
    using holds_request_progress [OF s(1) eff(1)] eff(2) s(2) by simp
  ultimately show ?thesis by simp
qed

text \<open>A retry finds the task, however far it has come in the meantime.\<close>

lemma create_task_retry:
  assumes v: "valid (w_registry w)" and u: "unique_requests (tasks (w_registry w))"
    and reg: "cs_registry svc = ops"
    and ok: "op_assert_task_create (cs_ownership_policy svc) (cc_auth_context command) = Inr ()"
    and t: "holds_request ops tasks (w_registry w) command k"
  shows "\<exists>t. tasks (w_registry w) k = Some t
    \<and> create_task svc now now_failed uuid command w =
        (Inr \<lparr>cr_task_id = k, cr_status = tr_status t,
              cr_client_request_id = cc_client_request_id command, cr_deduplicated = True\<rparr>,
         increment_counter ''duplicates_total'' w)"
  using t create_known [OF v u reg ok] by (auto simp: holds_request_def)

text \<open>A failed submission is recorded, and stays the answer to the request.\<close>

lemma create_submit_fails:
  assumes v: "valid (w_registry w)" and reg: "cs_registry svc = ops"
    and keeps: "executor_keeps_tasks valid tasks (cs_executor svc)"
    and wf: "wf_dict (cc_input_payload command)"
    and fails: "\<And>w. fst (ex_submit_task (cs_executor svc) (from_command now uuid command) w) = Inl e"
    and exc: "is_exception e"
    and run: "create_task_submit svc now now_failed uuid command w = (res, w')"
  shows "res = Inl (TaskSubmissionError (''Failed to submit task '' @ uuid))
    \<and> (\<exists>t. tasks (w_registry w') uuid = Some t \<and> tr_status t = FAILED)
    \<and> holds_request ops tasks (w_registry w') command uuid"
proof -
  let ?n = "from_command now uuid command"
  let ?m = "(tasks (w_registry w))(uuid \<mapsto> ?n)"
  from create_submit_eq [OF v reg, of uuid now command] obtain s where s: "valid s" "tasks s = ?m"
    "on_registry (reg_create_task ops ?n) w = (Inr ?n, w\<lparr>w_registry := s\<rparr>)" by blast
  obtain w2 where sub: "ex_submit_task (cs_executor svc) ?n (w\<lparr>w_registry := s\<rparr>) = (Inl e, w2)"
    using fails by (metis prod.collapse)
  from keeps sub s have w2: "valid (w_registry w2)" "tasks_progress ?m (tasks (w_registry w2))"
    unfolding executor_keeps_tasks_def by (auto dest!: spec [of _ ?n] spec [of _ "w\<lparr>w_registry := s\<rparr>"])
  from w2(2) obtain t2 where t2: "tasks (w_registry w2) uuid = Some t2" "same_task ?n t2"
    by (rule tasks_progress_Some [where k = uuid]) simp_all
  from update_law [OF w2(1) t2(1), of now_failed FAILED] obtain t3 s3 where u3:
    "reg_update_task_status ops now_failed uuid FAILED (w_registry w2) = (Inr t3, s3)" "valid s3"
    "tasks s3 = (tasks (w_registry w2))(uuid \<mapsto> t3)" "same_task t2 t3" "tr_status t3 = FAILED" by blast
  have id: "tr_task_id ?n = uuid" "tr_task_id t3 = uuid"
    using t2(2) u3(4) by (simp_all add: from_command_def same_task_def)
  have out: "res = Inl (TaskSubmissionError (''Failed to submit task '' @ uuid))" "w_registry w' = s3"
    using run s sub u3 id exc by (auto simp: create_task_submit_def reg on_registry_def)
  have "holds_request ops tasks s command uuid"
    by (rule holds_request_new [OF s(1) wf]) (simp add: s(2))
  moreover have "tasks_progress (tasks s) (tasks s3)"
    using tasks_progress_trans [OF w2(2)] tasks_progress_update [of "tasks (w_registry w2)" uuid t2 t3]
      t2(1) u3(3,4) s(2) by simp
  ultimately have "holds_request ops tasks s3 command uuid"
    using holds_request_progress [OF s(1) u3(2)] by blast
  with out u3 show ?thesis by simp
qed

end

section \<open>Access\<close>

context task_registry
begin

text \<open>A task that is missing or that the policy keeps from the caller: the same answer everywhere.\<close>

lemma get_owned_hidden:
  assumes "valid s"
    and "\<And>t. tasks s tid = Some t \<Longrightarrow> \<exists>m. op_assert_task_access policy auth t = Inl (PermissionError m)"
  shows "get_owned_task_or_raise_not_found ops policy tid auth s = Inl (TaskNotFoundError tid)"
  using assms by (auto simp: get_owned_task_eq split: option.splits sum.splits)

text \<open>Cancellation: a terminal task is left alone, an active one is flagged before the executor hears.\<close>

lemma cancel_task_eq:
  assumes v: "valid (w_registry w)" and reg: "cs_registry svc = ops"
    and t: "tasks (w_registry w) (ca_task_id command) = Some t"
      "op_assert_task_access (cs_ownership_policy svc) (ca_auth_context command) t = Inr ()"
  shows "if is_terminal (tr_status t)
    then cancel_task svc command w
           = (Inr \<lparr>cn_task_id = ca_task_id command, cn_status = ALREADY_TERMINAL\<rparr>, w)
    else \<exists>t' s. valid s \<and> tasks s = (tasks (w_registry w))(ca_task_id command \<mapsto> t')
           \<and> same_task t t' \<and> tr_status t' = tr_status t \<and> tr_cancellation_requested t'
           \<and> cancel_task svc command w =
               (case ex_request_cancellation (cs_executor svc) t' (w\<lparr>w_registry := s\<rparr>) of
                  (Inl e, w2) \<Rightarrow> (Inl e, w2)
                | (Inr _, w2) \<Rightarrow>
                    (Inr \<lparr>cn_task_id = ca_task_id command, cn_status = CANCELLATION_REQUESTED\<rparr>,
                     increment_counter ''cancels_total'' w2))"
proof -
  have own: "get_owned_task_or_raise_not_found ops (cs_ownership_policy svc) (ca_task_id command)
      (ca_auth_context command) (w_registry w) = Inr t"
    using t by (simp add: get_owned_task_eq [OF v])
  have id: "tr_task_id t = ca_task_id command" using tasks_key [OF v t(1)] .
  from cancel_law [OF v t(1)] obtain t' s where c:
    "reg_request_cancellation ops (ca_task_id command) (w_registry w) = (Inr t', s)" "valid s"
    "tasks s = (tasks (w_registry w))(ca_task_id command \<mapsto> t')" "tr_cancellation_requested t'"
    "same_task t t'" "tr_status t' = tr_status t" by blast
  have id': "tr_task_id t' = ca_task_id command" using c(5) id by (simp add: same_task_def)
  show ?thesis
  proof (cases "is_terminal (tr_status t)")
    case True
    then show ?thesis using own id by (simp add: cancel_task_def reg)
  next
    case False
    have "cancel_task svc command w =
        (case ex_request_cancellation (cs_executor svc) t' (w\<lparr>w_registry := s\<rparr>) of
           (Inl e, w2) \<Rightarrow> (Inl e, w2)
         | (Inr _, w2) \<Rightarrow>
             (Inr \<lparr>cn_task_id = ca_task_id command, cn_status = CANCELLATION_REQUESTED\<rparr>,
              increment_counter ''cancels_total'' w2))"
      using False own id id' c(1)
      by (simp add: cancel_task_def reg on_registry_def split: prod.splits sum.splits)
    with False c show ?thesis by auto
  qed
qed

end

section \<open>Polling and resuming\<close>

text \<open>
  A client that follows \<open>nextAfterEventId\<close>: one poll in each of the worlds it meets, each
  from the marker the one before returned.
\<close>

fun poll_pages ::
  "('r, 'v) task_stream_service \<Rightarrow> string \<Rightarrow> auth_context \<Rightarrow> string option \<Rightarrow> int
    \<Rightarrow> ('r, 'v, 'p, 'c, 'h) world list \<Rightarrow> exc + (task_event list \<times> string option)" where
  "poll_pages svc tid auth after limit [] = Inr ([], after)"
| "poll_pages svc tid auth after limit (w # ws) =
     (case fst (poll_events svc tid auth after limit None w) of
        Inl e \<Rightarrow> Inl e
      | Inr page \<Rightarrow>
          (case poll_pages svc tid auth (pr_next_after_event_id page) limit ws of
             Inl e \<Rightarrow> Inl e
           | Inr (evs, nxt) \<Rightarrow> Inr (pr_events page @ evs, nxt)))"

context event_reader
begin

lemma poll_events_eq:
  assumes "valid (w_events w)" "0 \<le> limit" "\<And>c. after = Some c \<Longrightarrow> checkpoint c"
    and "ps_event_store svc = ops"
    and "get_owned_task_or_raise_not_found (ps_registry svc) (ps_ownership_policy svc) tid auth
           (w_registry w) = Inr t"
  shows "poll_events svc tid auth after limit wait w =
    (Inr (poll_result tid after limit
           (take (nat limit) (events_after newer after (log (w_events w) tid)))),
     if after = None then w else increment_counter ''replays_total'' w)"
  using assms by (simp add: poll_events_def read_law wait_law split: option.splits)

text \<open>Resuming after the last event of a batch skips the batch and nothing else.\<close>

lemma events_after_resume:
  assumes v: "valid s" and B: "prefix B (events_after newer after (log s tid))" "B \<noteq> []"
  shows "events_after newer (Some (ev_event_id (last B))) (log s tid)
    = drop (length B) (events_after newer after (log s tid))"
proof -
  let ?L = "log s tid" and ?E = "events_after newer after (log s tid)"
  let ?R = "\<lambda>e f. newer (ev_event_id f) (ev_event_id e)"
  have E: "\<exists>P. ?E = filter P ?L \<and> (\<forall>e. P e \<longleftrightarrow> (\<forall>c. after = Some c \<longrightarrow> newer (ev_event_id e) c))"
    by (cases after) (auto simp: events_after_def intro: exI [of _ "\<lambda>_. True"])
  then obtain P where P: "?E = filter P ?L"
    "\<And>e. P e \<longleftrightarrow> (\<forall>c. after = Some c \<longrightarrow> newer (ev_event_id e) c)" by blast
  have len: "length B \<le> length ?E" using B(1) by (rule prefix_length_le)
  have pos: "length B - 1 < length ?E" using len B(2) by (cases B) auto
  have last: "last B = ?E ! (length B - 1)"
    using B by (auto simp: prefix_def last_conv_nth nth_append)
  have "last B \<in> set (filter P ?L)" using pos nth_mem [OF pos] last P(1) by simp
  then have "P (last B)" by simp
  then have sub: "newer (ev_event_id e) (ev_event_id (last B)) \<Longrightarrow> P e" for e
    using newer_trans by (auto simp: P(2))
  have "filter (?R (last B)) ?L = filter (?R (last B)) ?E"
    unfolding P(1) filter_filter by (rule filter_cong) (auto dest: sub)
  also have "\<dots> = drop (Suc (length B - 1)) ?E"
    unfolding last
  proof (rule filter_above_nth)
    show "sorted_wrt ?R ?E" unfolding P(1) using log_sorted [OF v] by (rule sorted_wrt_filter)
    show "length B - 1 < length ?E" using pos .
    show "\<not> ?R (?E ! (length B - 1)) (?E ! (length B - 1))" using newer_asym by blast
    show "\<And>x y. ?R x y \<Longrightarrow> \<not> ?R y x" using newer_asym by blast
  qed
  finally show ?thesis using B(2) by (simp add: events_after_def)
qed

lemma events_after_prefix:
  "prefix l l' \<Longrightarrow> prefix (events_after newer after l) (events_after newer after l')"
  by (auto simp: events_after_def prefix_def split: option.splits)

text \<open>
  The pages of a client that resumes while events arrive: in order, without a gap and without
  a duplicate; and all there is once a page comes back short.
\<close>

lemma poll_pages_prefix:
  assumes "0 \<le> limit" and "ps_event_store svc = ops"
    and "\<And>w. w \<in> set (w0 # ws) \<Longrightarrow> valid (w_events w)"
    and "\<And>w. w \<in> set (w0 # ws) \<Longrightarrow> \<exists>t. get_owned_task_or_raise_not_found (ps_registry svc)
           (ps_ownership_policy svc) tid auth (w_registry w) = Inr t"
    and "sorted_wrt (\<lambda>w w'. prefix (log (w_events w) tid) (log (w_events w') tid)) (w0 # ws)"
    and "\<And>c. after = Some c \<Longrightarrow> checkpoint c"
  shows "\<exists>evs nxt. poll_pages svc tid auth after limit (w0 # ws) = Inr (evs, nxt)
    \<and> prefix evs (events_after newer after (log (w_events (last (w0 # ws))) tid))
    \<and> nxt = (if evs = [] then after else Some (ev_event_id (last evs)))"
  using assms
proof (induction ws arbitrary: w0 after)
  case Nil
  then obtain t where t: "get_owned_task_or_raise_not_found (ps_registry svc)
      (ps_ownership_policy svc) tid auth (w_registry w0) = Inr t" by auto
  have "poll_events svc tid auth after limit None w0 =
    (Inr (poll_result tid after limit
           (take (nat limit) (events_after newer after (log (w_events w0) tid)))),
     if after = None then w0 else increment_counter ''replays_total'' w0)"
    by (rule poll_events_eq [OF _ Nil(1) _ Nil(2) t]) (use Nil in auto)
  then show ?case by (simp add: poll_result_def take_is_prefix)
next
  case (Cons w1 ws)
  let ?last = "last (w1 # ws)"
  let ?F = "events_after newer after (log (w_events w0) tid)"
  let ?E = "events_after newer after (log (w_events ?last) tid)"
  let ?B = "take (nat limit) ?F"
  let ?next = "if ?B = [] then after else Some (ev_event_id (last ?B))"
  from Cons.prems(4) obtain t where t: "get_owned_task_or_raise_not_found (ps_registry svc)
      (ps_ownership_policy svc) tid auth (w_registry w0) = Inr t" by auto
  have poll: "poll_events svc tid auth after limit None w0 = (Inr (poll_result tid after limit ?B),
     if after = None then w0 else increment_counter ''replays_total'' w0)"
    by (rule poll_events_eq [OF _ Cons.prems(1) Cons.prems(6) Cons.prems(2) t]) (use Cons.prems(3) in auto)
  have v: "valid (w_events w0)" "valid (w_events ?last)" using Cons.prems(3) by auto
  have "prefix (log (w_events w0) tid) (log (w_events ?last) tid)"
    using Cons.prems(5) by auto
  from prefix_order.trans [OF take_is_prefix events_after_prefix [OF this]]
  have BE: "prefix ?B ?E" .
  have next_ok: "checkpoint c" if "?next = Some c" for c
  proof (cases "?B = []")
    case False
    then have "last ?B \<in> set ?F" by (meson in_set_takeD last_in_set)
    then have "last ?B \<in> set (log (w_events w0) tid)"
      by (auto simp: events_after_def split: option.splits)
    with that False log_checkpoint [OF v(1)] show ?thesis by auto
  qed (use that Cons.prems(6) in auto)
  have "\<exists>evs nxt. poll_pages svc tid auth ?next limit (w1 # ws) = Inr (evs, nxt)
    \<and> prefix evs (events_after newer ?next (log (w_events ?last) tid))
    \<and> nxt = (if evs = [] then ?next else Some (ev_event_id (last evs)))"
    by (rule Cons.IH [OF Cons.prems(1,2) _ _ _ next_ok]) (use Cons.prems in auto)
  then obtain evs nxt where rest: "poll_pages svc tid auth ?next limit (w1 # ws) = Inr (evs, nxt)"
    "prefix evs (events_after newer ?next (log (w_events ?last) tid))"
    "nxt = (if evs = [] then ?next else Some (ev_event_id (last evs)))" by blast
  have "events_after newer ?next (log (w_events ?last) tid) = drop (length ?B) ?E"
    using events_after_resume [OF v(2) BE] by (cases "?B = []") auto
  with rest(2) have ext: "prefix (?B @ evs) (?B @ drop (length ?B) ?E)"
    by (simp only: same_prefix_prefix)
  have eq: "?B @ drop (length ?B) ?E = ?E" using BE by (auto simp: prefix_def)
  from ext have "prefix (?B @ evs) ?E" unfolding eq .
  then show ?case
    using poll rest by (simp add: poll_result_def)
qed

lemma poll_pages_replicate:
  assumes "0 \<le> limit" "ps_event_store svc = ops" "valid (w_events w)"
    and "get_owned_task_or_raise_not_found (ps_registry svc) (ps_ownership_policy svc) tid auth
           (w_registry w) = Inr t"
    and "\<And>c. after = Some c \<Longrightarrow> checkpoint c"
  shows "\<exists>nxt. poll_pages svc tid auth after limit (replicate n w)
    = Inr (take (n * nat limit) (events_after newer after (log (w_events w) tid)), nxt)"
  using assms(5)
proof (induction n arbitrary: after)
  case 0
  then show ?case by simp
next
  case (Suc n)
  let ?E = "events_after newer after (log (w_events w) tid)"
  let ?B = "take (nat limit) ?E"
  let ?next = "if ?B = [] then after else Some (ev_event_id (last ?B))"
  have poll: "poll_events svc tid auth after limit None w = (Inr (poll_result tid after limit ?B),
     if after = None then w else increment_counter ''replays_total'' w)"
    by (rule poll_events_eq [OF assms(3,1) Suc.prems assms(2,4)])
  have next_ok: "checkpoint c" if "?next = Some c" for c
  proof (cases "?B = []")
    case False
    then have "last ?B \<in> set ?E" by (meson in_set_takeD last_in_set)
    then have "last ?B \<in> set (log (w_events w) tid)"
      by (auto simp: events_after_def split: option.splits)
    with that False log_checkpoint [OF assms(3)] show ?thesis by auto
  qed (use that Suc.prems in auto)
  have eq: "events_after newer ?next (log (w_events w) tid) = drop (length ?B) ?E"
    using events_after_resume [OF assms(3) take_is_prefix] by (cases "?B = []") auto
  have "\<exists>nxt. poll_pages svc tid auth ?next limit (replicate n w)
      = Inr (take (n * nat limit) (events_after newer ?next (log (w_events w) tid)), nxt)"
    by (rule Suc.IH [OF next_ok])
  then obtain nxt where rest: "poll_pages svc tid auth ?next limit (replicate n w)
      = Inr (take (n * nat limit) (drop (length ?B) ?E), nxt)"
    unfolding eq by (rule exE)
  have d: "drop (length ?B) ?E = drop (nat limit) ?E" by (simp add: min_def)
  have t: "?B @ take (n * nat limit) (drop (length ?B) ?E) = take (Suc n * nat limit) ?E"
    unfolding d by (simp only: mult_Suc take_add)
  have page: "pr_next_after_event_id (poll_result tid after limit ?B) = ?next"
    "pr_events (poll_result tid after limit ?B) = ?B"
    by (simp_all only: poll_result_def poll_events_result.select_convs)
  show ?case
    by (intro exI [of _ nxt])
      (simp only: replicate_Suc poll_pages.simps poll fst_conv sum.case prod.case page rest t)
qed

end

section \<open>Properties of creation\<close>

text \<open>
  C5. A client that repeats a create command it got an answer to, however far the task has
  come by then, gets the same task id back, marked as a duplicate and with the status the
  task has by then; nothing is created, nothing is submitted again.
\<close>

theorem create_task_is_idempotent:
  assumes "tasks_valid (w_registry w)" "unique_requests (dict_get (w_registry w))"
    and "cs_registry svc = demo_registry"
    and "executor_keeps_tasks tasks_valid dict_get (cs_executor svc)"
    and "wf_dict (cc_input_payload command)"
    and "op_assert_task_create (cs_ownership_policy svc) (cc_auth_context command) = Inr ()"
    and "create_task svc now1 nowf1 uuid1 command w = (Inr r, w1)"
    and "tasks_valid (w_registry w2)"
    and "tasks_progress (dict_get (w_registry w1)) (dict_get (w_registry w2))"
  shows "\<exists>t. dict_get (w_registry w2) (cr_task_id r) = Some t
    \<and> create_task svc now2 nowf2 uuid2 command w2 =
        (Inr \<lparr>cr_task_id = cr_task_id r, cr_status = tr_status t,
              cr_client_request_id = cc_client_request_id command, cr_deduplicated = True\<rparr>,
         increment_counter ''duplicates_total'' w2)"
proof -
  from demo_reg.create_task_keeps [OF assms(1-4,7)]
  have w1: "tasks_valid (w_registry w1)" "unique_requests (dict_get (w_registry w1))" by auto
  have "holds_request demo_registry dict_get (w_registry w2) command (cr_task_id r)"
    using demo_reg.holds_request_progress [OF w1(1) assms(8) _ assms(9)]
      demo_reg.create_task_records [OF assms(1-5,7)] by blast
  then show ?thesis
    using demo_reg.create_task_retry [OF assms(8) unique_requests_progress [OF w1(2) assms(9)] assms(3,6)]
    by blast
qed


text \<open>
  C28. When the executor raises on submission, the caller gets \<open>TaskSubmissionError\<close>, the task
  stays in the registry with status FAILED, and a retry of the command is answered as a
  duplicate of that task: it is not submitted a second time.
\<close>

theorem create_task_submission_failure:
  assumes "tasks_valid (w_registry w)" "unique_requests (dict_get (w_registry w))"
    and "cs_registry svc = demo_registry"
    and "executor_keeps_tasks tasks_valid dict_get (cs_executor svc)"
    and "wf_dict (cc_input_payload command)"
    and "op_assert_task_create (cs_ownership_policy svc) (cc_auth_context command) = Inr ()"
    and "\<And>k t. dict_get (w_registry w) k = Some t \<Longrightarrow>
      \<not> (tr_owner_id t = ac_subject (cc_auth_context command)
          \<and> tr_client_request_id t = cc_client_request_id command)"
    and "\<And>v. fst (ex_submit_task (cs_executor svc) (from_command now uuid command) v) = Inl e"
    and "is_exception e"
  shows "\<exists>w'. create_task svc now nowf uuid command w
      = (Inl (TaskSubmissionError (''Failed to submit task '' @ uuid)), w')
    \<and> create_task svc now2 nowf2 uuid2 command w' =
        (Inr \<lparr>cr_task_id = uuid, cr_status = FAILED,
              cr_client_request_id = cc_client_request_id command, cr_deduplicated = True\<rparr>,
         increment_counter ''duplicates_total'' w')"
proof -
  obtain res w' where run: "create_task svc now nowf uuid command w = (res, w')"
    by (cases "create_task svc now nowf uuid command w")
  have "create_task svc now nowf uuid command w = create_task_submit svc now nowf uuid command w"
    using assms(1,3,6) by (rule demo_reg.create_unknown) (rule assms(7))
  from run [unfolded this] have sub: "create_task_submit svc now nowf uuid command w = (res, w')" .
  from demo_reg.create_submit_fails [OF assms(1,3,4,5,8,9) sub]
  have out: "res = Inl (TaskSubmissionError (''Failed to submit task '' @ uuid))"
    "\<exists>t. dict_get (w_registry w') uuid = Some t \<and> tr_status t = FAILED"
    "holds_request demo_registry dict_get (w_registry w') command uuid" by auto
  from demo_reg.create_task_keeps [OF assms(1-4) run]
  have w': "tasks_valid (w_registry w')" "unique_requests (dict_get (w_registry w'))" by auto
  from demo_reg.create_task_retry [OF w' assms(3,6) out(3)] out(1,2) run show ?thesis by auto
qed

text \<open>
  The lookup and the write of \<open>create_task\<close> are two steps: when two copies of a command
  both look the request up before either has written, both are accepted, and the registry
  holds two tasks for the one client request id.
\<close>

theorem create_task_race:
  assumes "tasks_valid (w_registry w)"
    and "cs_registry svc = demo_registry"
    and "executor_keeps_tasks tasks_valid dict_get (cs_executor svc)"
    and "uuid1 \<noteq> uuid2"
    and "create_task_check svc command w = (Inr None, w)"
    and "create_task_submit svc now1 nowf1 uuid1 command w = (res1, w1)"
    and "create_task_submit svc now2 nowf2 uuid2 command w1 = (res2, w2)"
  shows "\<not> unique_requests (dict_get (w_registry w2))"
proof -
  let ?n1 = "from_command now1 uuid1 command" and ?n2 = "from_command now2 uuid2 command"
  from demo_reg.create_task_submit_effect [OF assms(1-3,6)] have w1: "tasks_valid (w_registry w1)"
    "tasks_progress ((dict_get (w_registry w))(uuid1 \<mapsto> ?n1)) (dict_get (w_registry w1))" by auto
  from demo_reg.create_task_submit_effect [OF w1(1) assms(2,3,7)] have
    w2: "tasks_progress ((dict_get (w_registry w1))(uuid2 \<mapsto> ?n2)) (dict_get (w_registry w2))" by auto
  from w1(2) obtain t1 where t1: "dict_get (w_registry w1) uuid1 = Some t1" "same_task ?n1 t1"
    by (rule tasks_progress_Some [where k = uuid1]) simp_all
  from w2 obtain t where t: "dict_get (w_registry w2) uuid1 = Some t" "same_task t1 t"
    by (rule tasks_progress_Some [where k = uuid1]) (use assms(4) t1 in simp_all)
  from w2 obtain t' where t': "dict_get (w_registry w2) uuid2 = Some t'" "same_task ?n2 t'"
    by (rule tasks_progress_Some [where k = uuid2]) simp_all
  have "tr_owner_id t = tr_owner_id t'" "tr_client_request_id t = tr_client_request_id t'"
    using t(2) t1(2) t'(2) by (simp_all add: same_task_def from_command_def)
  with t(1) t'(1) assms(4) show ?thesis unfolding unique_requests_def by blast
qed

section \<open>Properties of access, cancellation and polling\<close>

text \<open>
  C16. A task the ownership policy keeps from the caller cannot be told from one that does not
  exist: polling, subscribing and cancelling all raise \<open>TaskNotFoundError\<close> with the task id,
  and change nothing, not even a counter.
\<close>

theorem foreign_task_is_not_found:
  assumes "tasks_valid (w_registry w)"
    and "\<And>t. dict_get (w_registry w) tid = Some t \<Longrightarrow>
      \<exists>m. op_assert_task_access policy auth t = Inl (PermissionError m)"
    and "ps_registry psvc = demo_registry" "ps_ownership_policy psvc = policy"
    and "cs_registry csvc = demo_registry" "cs_ownership_policy csvc = policy"
    and "ca_task_id command = tid" "ca_auth_context command = auth"
  shows "poll_events psvc tid auth after limit wait w = (Inl (TaskNotFoundError tid), w)
    \<and> prepare_subscription psvc tid auth after limit w = (Inl (TaskNotFoundError tid), w)
    \<and> cancel_task csvc command w = (Inl (TaskNotFoundError tid), w)"
  using demo_reg.get_owned_hidden [OF assms(1,2)] assms(3-)
  by (simp add: poll_events_def prepare_subscription_def cancel_task_def)

text \<open>
  C31. Cancelling a terminal task answers ALREADY_TERMINAL and changes nothing. Cancelling an
  active one sets its flag in the registry, and nothing else of it, before the executor is
  asked; the answer is CANCELLATION_REQUESTED unless the executor raises.
\<close>

theorem cancel_task_effect:
  assumes "tasks_valid (w_registry w)" "cs_registry svc = demo_registry"
    and "dict_get (w_registry w) (ca_task_id command) = Some t"
      "op_assert_task_access (cs_ownership_policy svc) (ca_auth_context command) t = Inr ()"
  shows "if is_terminal (tr_status t)
    then cancel_task svc command w
           = (Inr \<lparr>cn_task_id = ca_task_id command, cn_status = ALREADY_TERMINAL\<rparr>, w)
    else \<exists>t' s. tasks_valid s \<and> dict_get s = (dict_get (w_registry w))(ca_task_id command \<mapsto> t')
           \<and> same_task t t' \<and> tr_status t' = tr_status t \<and> tr_cancellation_requested t'
           \<and> cancel_task svc command w =
               (case ex_request_cancellation (cs_executor svc) t' (w\<lparr>w_registry := s\<rparr>) of
                  (Inl e, w2) \<Rightarrow> (Inl e, w2)
                | (Inr _, w2) \<Rightarrow>
                    (Inr \<lparr>cn_task_id = ca_task_id command, cn_status = CANCELLATION_REQUESTED\<rparr>,
                     increment_counter ''cancels_total'' w2))"
  using assms by (rule demo_reg.cancel_task_eq)

text \<open>
  A client that polls while events are appended, always from the marker it got last,
  receives a prefix of what comes after its first marker, in order, with no gap and no
  duplicate, and its marker is the id of the last event it has.
\<close>

theorem polling_resumes_exactly:
  assumes "0 \<le> limit" "ps_registry svc = demo_registry" "ps_event_store svc = demo_event_store"
    and "\<And>w. w \<in> set (w0 # ws) \<Longrightarrow> ordered_by key_newer key_ok (w_events w)"
    and "\<And>w. w \<in> set (w0 # ws) \<Longrightarrow> tasks_valid (w_registry w)
      \<and> (\<exists>t. dict_get (w_registry w) tid = Some t
           \<and> op_assert_task_access (ps_ownership_policy svc) auth t = Inr ())"
    and "sorted_wrt (\<lambda>w w'. prefix (task_events (w_events w) tid) (task_events (w_events w') tid)) (w0 # ws)"
    and "\<And>c. after = Some c \<Longrightarrow> key_ok c"
  shows "\<exists>evs nxt. poll_pages svc tid auth after limit (w0 # ws) = Inr (evs, nxt)
    \<and> prefix evs (events_after key_newer after (task_events (w_events (last (w0 # ws))) tid))
    \<and> nxt = (if evs = [] then after else Some (ev_event_id (last evs)))"
proof (rule demo_ev.poll_pages_prefix [OF assms(1,3,4) _ assms(6,7)])
  fix w
  assume "w \<in> set (w0 # ws)"
  from assms(5) [OF this] show "\<exists>t. get_owned_task_or_raise_not_found (ps_registry svc)
      (ps_ownership_policy svc) tid auth (w_registry w) = Inr t"
    using demo_reg.get_owned_task_eq [of "w_registry w"] by (auto simp: assms(2))
qed

text \<open>
  The greeter's event store orders event ids as strings, so a client that has seen event
  9-0 of a task is never given event 10-0.
\<close>

theorem greeter_store_loses_tenth_event:
  assumes "map ev_event_id (task_events evs tid) = map seq_event_id [1..<11]" "0 \<le> limit"
  shows "\<exists>e \<in> set (task_events evs tid). key_newer (ev_event_id e) (seq_event_id 9)
    \<and> (\<forall>batch. greeter_read_events_after tid (Some (seq_event_id 9)) limit evs = Inr batch \<longrightarrow> e \<notin> set batch)"
proof -
  have "seq_event_id 10 \<in> ev_event_id ` set (task_events evs tid)"
    by (simp only: set_map [symmetric] assms(1)) simp
  then obtain e where e: "e \<in> set (task_events evs tid)" "ev_event_id e = seq_event_id 10" by auto
  have "\<not> seq_event_id 10 > seq_event_id 9" using seq_id_ten by simp
  then have "e \<notin> set batch"
    if "greeter_read_events_after tid (Some (seq_event_id 9)) limit evs = Inr batch" for batch
    using that e assms(2) by (auto simp: greeter_read_events_after_def dest!: in_set_takeD)
  moreover have "key_newer (ev_event_id e) (seq_event_id 9)"
    unfolding e(2) by (simp add: seq_ids_numeric [symmetric])
  ultimately show ?thesis using e(1) by blast
qed

end
