(* ===== verification/Samples.thy ===== *)
theory Samples
  imports FakeExecutor
begin

text \<open>
  Concrete values the witnesses of the properties are evaluated on: the demo identity, a task
  and its record, the services wired to the in-memory stores and the fake executor, and the
  empty world they start in.
\<close>

definition sample_time :: datetime where
  "sample_time = DateTime 2026 1 2 3 4 5 0"

definition sample_command :: task_create_command where
  "sample_command = \<lparr>cc_client_request_id = ''req-1'', cc_task_type = ''demo.echo'',
     cc_input_payload = [(''message'', JStr ''hi'')], cc_metadata = [], cc_attachments = [],
     cc_auth_context = demo_auth_context\<rparr>"

type_synonym sample_world = "(task_dict, event_list, suspension_dict, receipt_dict, fake_state) world"

definition empty_world :: sample_world where
  "empty_world = \<lparr>w_registry = [], w_events = [], w_suspensions = [], w_receipts = [],
     w_host = \<lparr>fx_cancel_requested = [], fx_event_seq = [], fx_tasks = []\<rparr>, w_metrics = []\<rparr>"

definition sample_command_service ::
  "(task_dict, event_list, suspension_dict, receipt_dict, fake_state) task_command_service" where
  "sample_command_service = \<lparr>cs_registry = demo_registry, cs_executor = fake_executor,
     cs_ownership_policy = demo_ownership_policy\<rparr>"

definition sample_stream_service :: "(task_dict, event_list) task_stream_service" where
  "sample_stream_service = \<lparr>ps_registry = demo_registry, ps_event_store = demo_event_store,
     ps_ownership_policy = demo_ownership_policy\<rparr>"

definition sample_config :: "(task_dict, event_list) fake_config" where
  "sample_config = \<lparr>fc_registry = demo_registry, fc_event_store = demo_event_store,
     fc_progress_ticks = 2, fc_fail_after = None\<rparr>"

lemmas sample_defs = sample_time_def sample_command_def empty_world_def
  sample_command_service_def sample_stream_service_def sample_config_def demo_auth_context_def
  demo_ownership_policy_def

end
