(* ===== verification/FakeSystem.thy ===== *)
theory FakeSystem
  imports FakeExecutor TaskProperties Samples
begin

text \<open>
  The creation and cancellation services, the in-memory stores of the example host and the
  fake executor as one system: which worlds the services and the running coroutines can
  reach in any interleaving, and what holds in all of them.
\<close>

section \<open>Reachable worlds\<close>

type_synonym ('p, 'c) fake_world = "(task_dict, event_list, 'p, 'c, fake_state) world"

text \<open>\<open>uuid4\<close> is taken to return ids that are not in use.\<close>

inductive fake_reachable ::
  "(task_dict, event_list) fake_config
    \<Rightarrow> (task_dict, event_list, 'p, 'c, fake_state) task_command_service
    \<Rightarrow> ('p, 'c) fake_world \<Rightarrow> bool" for cfg svc where
  start: "w_registry w = [] \<Longrightarrow> w_events w = []
    \<Longrightarrow> w_host w = \<lparr>fx_cancel_requested = [], fx_event_seq = [], fx_tasks = []\<rparr>
    \<Longrightarrow> fake_reachable cfg svc w"
| create: "fake_reachable cfg svc w \<Longrightarrow> dict_get (w_registry w) uuid = None
    \<Longrightarrow> create_task svc now nowf uuid command w = (res, w') \<Longrightarrow> fake_reachable cfg svc w'"
| cancel: "fake_reachable cfg svc w \<Longrightarrow> cancel_task svc command w = (res, w')
    \<Longrightarrow> fake_reachable cfg svc w'"
| run: "fake_reachable cfg svc w \<Longrightarrow> fake_reachable cfg svc (fake_step cfg now tid w)"

section \<open>The invariant\<close>

fun pc_trace :: "fake_pc \<Rightarrow> task_event_type list" where
  "pc_trace FP_Begin = []"
| "pc_trace FP_EmitStarted = []"
| "pc_trace (FP_Loop k) = TASK_STARTED # replicate k TASK_PROGRESS"
| "pc_trace (FP_Sleep k) = TASK_STARTED # replicate k TASK_PROGRESS"
| "pc_trace (FP_CancelStatus k) = TASK_STARTED # replicate k TASK_PROGRESS"
| "pc_trace (FP_CancelEmit k) = TASK_STARTED # replicate k TASK_PROGRESS"
| "pc_trace (FP_FailStatus k) = TASK_STARTED # replicate k TASK_PROGRESS"
| "pc_trace (FP_FailEmit k) = TASK_STARTED # replicate k TASK_PROGRESS"
| "pc_trace (FP_CompleteStatus k) = TASK_STARTED # replicate k TASK_PROGRESS"
| "pc_trace (FP_CompleteEmit k) = TASK_STARTED # replicate k TASK_PROGRESS"

fun pc_status :: "fake_pc \<Rightarrow> task_status" where
  "pc_status FP_Begin = ACCEPTED"
| "pc_status (FP_CancelEmit k) = CANCELLED"
| "pc_status (FP_FailEmit k) = FAILED"
| "pc_status (FP_CompleteEmit k) = COMPLETED"
| "pc_status pc = RUNNING"

fun terminal_event :: "task_status \<Rightarrow> task_event_type" where
  "terminal_event COMPLETED = TASK_COMPLETED"
| "terminal_event FAILED = TASK_FAILED"
| "terminal_event _ = TASK_CANCELLED"

definition finished_trace :: "nat \<Rightarrow> task_status \<Rightarrow> task_event_type list \<Rightarrow> bool" where
  "finished_trace ticks st trace \<longleftrightarrow> is_terminal st
     \<and> (\<exists>k \<le> ticks. (st = COMPLETED \<longrightarrow> k = ticks)
          \<and> trace = TASK_STARTED # replicate k TASK_PROGRESS @ [terminal_event st])"

text \<open>What the invariant reads of one task: status, events, sequence number, program counter.\<close>

definition fake_seq :: "(task_dict, event_list, 'p, 'c, 'pc executor_state) world \<Rightarrow> string \<Rightarrow> nat" where
  "fake_seq w tid = (case dict_get (fx_event_seq (w_host w)) tid of None \<Rightarrow> 0 | Some n \<Rightarrow> n)"

definition ids_consecutive :: "task_event list \<Rightarrow> bool" where
  "ids_consecutive evs \<longleftrightarrow> map ev_event_id evs = map seq_event_id [1..<Suc (length evs)]"

definition task_inv :: "nat \<Rightarrow> task_record option \<Rightarrow> task_event list \<Rightarrow> nat \<Rightarrow> fake_pc option \<Rightarrow> bool" where
  "task_inv ticks task evs seq pc \<longleftrightarrow>
     ids_consecutive evs \<and> seq = length evs
     \<and> (case task of
          None \<Rightarrow> evs = [] \<and> pc = None
        | Some t \<Rightarrow>
            (case pc of
               Some q \<Rightarrow> pc_ok ticks q \<and> tr_status t = pc_status q \<and> map ev_type evs = pc_trace q
             | None \<Rightarrow> finished_trace ticks (tr_status t) (map ev_type evs)))"

definition fake_inv :: "(task_dict, event_list) fake_config \<Rightarrow> ('p, 'c) fake_world \<Rightarrow> bool" where
  "fake_inv cfg w \<longleftrightarrow> tasks_valid (w_registry w)
     \<and> (\<forall>tid. task_inv (fc_progress_ticks cfg) (dict_get (w_registry w) tid)
                (task_events (w_events w) tid) (fake_seq w tid) (dict_get (fx_tasks (w_host w)) tid))"

section \<open>The stores, one step\<close>

lemma fake_emit_demo:
  assumes "fc_event_store cfg = demo_event_store"
  shows "fake_emit cfg now tid ty p w =
    (let e = \<lparr>ev_type = ty, ev_task_id = tid, ev_event_id = seq_event_id (Suc (fake_seq w tid)),
              ev_created_at = now, ev_payload = p\<rparr>
     in (Inr e, w\<lparr>w_host := (w_host w)\<lparr>fx_event_seq :=
                     dict_set (fx_event_seq (w_host w)) tid (Suc (fake_seq w tid))\<rparr>,
                  w_events := w_events w @ [e]\<rparr>))"
  using assms by (simp add: fake_emit_def fake_seq_def seq_event_id_def on_events_def
      demo_event_store_def demo_append_event_def Let_def)

lemma fake_status_demo:
  assumes "fc_registry cfg = demo_registry" "dict_get (w_registry w) tid = Some t"
  shows "fake_status cfg now tid st w =
    (Inr (t\<lparr>tr_status := st\<rparr>), w\<lparr>w_registry := dict_set (w_registry w) tid (t\<lparr>tr_status := st\<rparr>)\<rparr>)"
  using assms by (simp add: fake_status_def on_registry_def demo_registry_def
      demo_update_task_status_def Let_def)

lemma ids_consecutive_append:
  "ids_consecutive evs \<Longrightarrow> ev_event_id e = seq_event_id (Suc (length evs)) \<Longrightarrow> ids_consecutive (evs @ [e])"
  by (simp add: ids_consecutive_def)

lemma ids_consecutive_single: "ev_event_id e = seq_event_id (Suc 0) \<Longrightarrow> ids_consecutive [e]"
  by (simp add: ids_consecutive_def)

lemmas fake_step_demo = fake_step_def fake_emit_demo fake_status_demo set_pc_def pop_task_def
  fake_seq_def dict_simps task_events_append

text \<open>A step of one task leaves the others as they are.\<close>

lemma fake_step_other:
  assumes cfg: "fc_registry cfg = demo_registry" "fc_event_store cfg = demo_event_store"
    and ne: "tid' \<noteq> tid" and pc: "dict_get (fx_tasks (w_host w)) tid = Some pc"
    and t: "dict_get (w_registry w) tid = Some t"
  shows "dict_get (w_registry (fake_step cfg now tid w)) tid' = dict_get (w_registry w) tid'
    \<and> task_events (w_events (fake_step cfg now tid w)) tid' = task_events (w_events w) tid'
    \<and> fake_seq (fake_step cfg now tid w) tid' = fake_seq w tid'
    \<and> dict_get (fx_tasks (w_host (fake_step cfg now tid w))) tid'
      = dict_get (fx_tasks (w_host w)) tid'"
  using ne pc
  by (cases pc)
    (simp_all add: fake_step_demo cfg fake_status_demo [OF cfg(1) t] Let_def split: option.splits if_splits)

text \<open>What it does to the task itself, the program counter after the step included.\<close>

lemma fake_step_self:
  assumes cfg: "fc_registry cfg = demo_registry" "fc_event_store cfg = demo_event_store"
    and pc: "dict_get (fx_tasks (w_host w)) tid = Some pc"
    and inv: "task_inv (fc_progress_ticks cfg) (dict_get (w_registry w) tid)
                (task_events (w_events w) tid) (fake_seq w tid) (Some pc)"
  shows "task_inv (fc_progress_ticks cfg) (dict_get (w_registry (fake_step cfg now tid w)) tid)
    (task_events (w_events (fake_step cfg now tid w)) tid) (fake_seq (fake_step cfg now tid w) tid)
    (dict_get (fx_tasks (w_host (fake_step cfg now tid w))) tid)"
proof -
  from inv obtain t where t: "dict_get (w_registry w) tid = Some t"
    "pc_ok (fc_progress_ticks cfg) pc" "tr_status t = pc_status pc"
    "map ev_type (task_events (w_events w) tid) = pc_trace pc"
    "ids_consecutive (task_events (w_events w) tid)"
    "fake_seq w tid = length (task_events (w_events w) tid)"
    by (auto simp: task_inv_def split: option.splits)
  show ?thesis
    using t(2-) pc
    by (cases pc)
      (auto simp: fake_step_demo cfg fake_status_demo [OF cfg(1) t(1)] task_inv_def Let_def
        ids_consecutive_append ids_consecutive_single finished_trace_def is_terminal_def t(1) replicate_append_same
        split: option.splits if_splits)
qed

section \<open>The invariant holds in every reachable world\<close>

lemma create_task_demo_cases:
  assumes "cs_registry svc = demo_registry" "create_task svc now nowf uuid command w = (res, w')"
  shows "(w_registry w' = w_registry w \<and> w_events w' = w_events w \<and> w_host w' = w_host w)
    \<or> create_task_submit svc now nowf uuid command w = (res, w')"
  using assms
  by (auto simp: create_task_def create_task_check_def split: sum.splits option.splits if_splits effect_splits)

lemma create_task_submit_fake:
  assumes "cs_registry svc = demo_registry" "cs_executor svc = fake_executor"
    and "dict_get (fx_tasks (w_host w)) uuid = None"
    and "create_task_submit svc now nowf uuid command w = (res, w')"
  shows "w_registry w' = dict_set (w_registry w) uuid (from_command now uuid command)
    \<and> w_events w' = w_events w
    \<and> w_host w' = (w_host w)\<lparr>fx_tasks := dict_set (fx_tasks (w_host w)) uuid FP_Begin\<rparr>"
  using assms
  by (auto simp: create_task_submit_def on_registry_def demo_registry_def demo_create_task_def
      fake_executor_def fake_submit_task_def submit_coroutine_def set_pc_def from_command_def increment_counter_def)

lemma cancel_task_fake:
  assumes "cs_registry svc = demo_registry" "cs_executor svc = fake_executor"
    and "tasks_valid (w_registry w)" "cancel_task svc command w = (res, w')"
  shows "(w_registry w' = w_registry w \<and> w_events w' = w_events w \<and> w_host w' = w_host w)
    \<or> (\<exists>t. dict_get (w_registry w) (ca_task_id command) = Some t \<and> \<not> is_terminal (tr_status t)
        \<and> w_registry w' = dict_set (w_registry w) (ca_task_id command) (t\<lparr>tr_cancellation_requested := True\<rparr>)
        \<and> w_events w' = w_events w
        \<and> w_host w' = (w_host w)\<lparr>fx_cancel_requested :=
             List.insert (ca_task_id command) (fx_cancel_requested (w_host w))\<rparr>)"
proof (cases "get_owned_task_or_raise_not_found demo_registry (cs_ownership_policy svc)
    (ca_task_id command) (ca_auth_context command) (w_registry w)")
  case (Inl e)
  then show ?thesis using assms by (simp add: cancel_task_def)
next
  case (Inr t)
  from demo_reg.get_owned_task_some [OF assms(3) Inr]
  have "dict_get (w_registry w) (ca_task_id command) = Some t" "tr_task_id t = ca_task_id command" by auto
  with Inr assms show ?thesis
    by (auto simp: cancel_task_def on_registry_def demo_registry_def demo_request_cancellation_def
        fake_executor_def fake_request_cancellation_def increment_counter_def Let_def split: if_splits)
qed

lemma fake_inv_start:
  "w_registry w = [] \<Longrightarrow> w_events w = []
    \<Longrightarrow> w_host w = \<lparr>fx_cancel_requested = [], fx_event_seq = [], fx_tasks = []\<rparr> \<Longrightarrow> fake_inv cfg w"
  by (simp add: fake_inv_def tasks_valid_empty task_inv_def ids_consecutive_def fake_seq_def
      task_events_def dict_simps)

lemma fake_inv_same:
  "fake_inv cfg w \<Longrightarrow> w_registry w' = w_registry w \<Longrightarrow> w_events w' = w_events w \<Longrightarrow>
    fx_event_seq (w_host w') = fx_event_seq (w_host w) \<Longrightarrow> fx_tasks (w_host w') = fx_tasks (w_host w)
    \<Longrightarrow> fake_inv cfg w'"
  by (simp add: fake_inv_def fake_seq_def)

lemma fake_inv_create:
  assumes svc: "cs_registry svc = demo_registry" "cs_executor svc = fake_executor"
    and inv: "fake_inv cfg w" and new: "dict_get (w_registry w) uuid = None"
    and run: "create_task svc now nowf uuid command w = (res, w')"
  shows "fake_inv cfg w'"
  using create_task_demo_cases [OF svc(1) run]
proof
  assume "w_registry w' = w_registry w \<and> w_events w' = w_events w \<and> w_host w' = w_host w"
  with inv show ?thesis by (simp add: fake_inv_def fake_seq_def)
next
  assume sub: "create_task_submit svc now nowf uuid command w = (res, w')"
  from inv new have none: "dict_get (fx_tasks (w_host w)) uuid = None"
    by (auto simp: fake_inv_def task_inv_def dest!: spec [of _ uuid])
  have evs: "task_events (w_events w) uuid = []"
    using inv new by (auto simp: fake_inv_def task_inv_def dest!: spec [of _ uuid])
  from create_task_submit_fake [OF svc none sub] inv evs show ?thesis
    by (auto simp: fake_inv_def fake_seq_def dict_simps task_inv_def from_command_def
        intro!: tasks_valid_set)
qed

lemma fake_inv_cancel:
  assumes svc: "cs_registry svc = demo_registry" "cs_executor svc = fake_executor"
    and inv: "fake_inv cfg w" and run: "cancel_task svc command w = (res, w')"
  shows "fake_inv cfg w'"
proof -
  have v: "tasks_valid (w_registry w)" using inv by (simp add: fake_inv_def)
  from cancel_task_fake [OF svc v run] show ?thesis
  proof (elim disjE exE conjE)
    assume "w_registry w' = w_registry w" "w_events w' = w_events w" "w_host w' = w_host w"
    with inv show ?thesis by (simp add: fake_inv_def fake_seq_def)
  next
    fix t
    assume t: "dict_get (w_registry w) (ca_task_id command) = Some t"
      and "w_registry w' = dict_set (w_registry w) (ca_task_id command) (t\<lparr>tr_cancellation_requested := True\<rparr>)"
      "w_events w' = w_events w"
      "w_host w' = (w_host w)\<lparr>fx_cancel_requested :=
         List.insert (ca_task_id command) (fx_cancel_requested (w_host w))\<rparr>"
    note w' = this(2-)
    from t v have "tr_task_id t = ca_task_id command" by (simp add: tasks_valid_def)
    with v w' have "tasks_valid (w_registry w')" by (auto intro!: tasks_valid_set)
    moreover have "task_inv (fc_progress_ticks cfg) (dict_get (w_registry w') tid)
      (task_events (w_events w') tid) (fake_seq w' tid) (dict_get (fx_tasks (w_host w')) tid)" for tid
    proof -
      have "task_inv (fc_progress_ticks cfg) (dict_get (w_registry w) tid)
        (task_events (w_events w) tid) (fake_seq w tid) (dict_get (fx_tasks (w_host w)) tid)"
        using inv by (simp add: fake_inv_def)
      then show ?thesis
        using t w' by (cases "tid = ca_task_id command") (simp_all add: fake_seq_def dict_simps task_inv_def cong: option.case_cong)
    qed
    ultimately show ?thesis by (simp add: fake_inv_def)
  qed
qed

lemma fake_step_valid:
  assumes cfg: "fc_registry cfg = demo_registry" "fc_event_store cfg = demo_event_store"
    and "tasks_valid (w_registry w)" "dict_get (w_registry w) tid = Some t"
  shows "tasks_valid (w_registry (fake_step cfg now tid w))"
proof (cases "dict_get (fx_tasks (w_host w)) tid")
  case (Some pc)
  have "tr_task_id t = tid" using assms(3,4) by (simp add: tasks_valid_def)
  then have "tasks_valid (dict_set (w_registry w) tid (t\<lparr>tr_status := st\<rparr>))" for st
    using assms(3) by (intro tasks_valid_set) simp_all
  with Some assms(3) show ?thesis
    by (cases pc)
      (auto simp: fake_step_demo cfg fake_status_demo [OF cfg(1) assms(4)] Let_def
        split: option.splits if_splits)
qed (use assms(3) in \<open>simp add: fake_step_idle\<close>)

lemma fake_inv_run:
  assumes cfg: "fc_registry cfg = demo_registry" "fc_event_store cfg = demo_event_store"
    and inv: "fake_inv cfg w"
  shows "fake_inv cfg (fake_step cfg now tid w)"
proof (cases "dict_get (fx_tasks (w_host w)) tid")
  case None
  then show ?thesis using inv by (simp add: fake_step_idle)
next
  case (Some pc)
  have self: "task_inv (fc_progress_ticks cfg) (dict_get (w_registry w) tid)
      (task_events (w_events w) tid) (fake_seq w tid) (Some pc)"
    using inv Some unfolding fake_inv_def by metis
  then obtain t where t: "dict_get (w_registry w) tid = Some t"
    by (auto simp: task_inv_def split: option.splits)
  have v: "tasks_valid (w_registry (fake_step cfg now tid w))"
    using fake_step_valid [OF cfg _ t] inv by (simp add: fake_inv_def)
  have "task_inv (fc_progress_ticks cfg) (dict_get (w_registry (fake_step cfg now tid w)) tid')
    (task_events (w_events (fake_step cfg now tid w)) tid') (fake_seq (fake_step cfg now tid w) tid')
    (dict_get (fx_tasks (w_host (fake_step cfg now tid w))) tid')" for tid'
  proof (cases "tid' = tid")
    case True
    with fake_step_self [OF cfg Some self] show ?thesis by simp
  next
    case False
    have "task_inv (fc_progress_ticks cfg) (dict_get (w_registry w) tid')
      (task_events (w_events w) tid') (fake_seq w tid') (dict_get (fx_tasks (w_host w)) tid')"
      using inv by (simp add: fake_inv_def)
    with fake_step_other [OF cfg False Some t, of now] show ?thesis by simp
  qed
  with v show ?thesis by (simp add: fake_inv_def)
qed

lemma fake_reachable_inv:
  assumes "fake_reachable cfg svc w"
    and "fc_registry cfg = demo_registry" "fc_event_store cfg = demo_event_store"
    and "cs_registry svc = demo_registry" "cs_executor svc = fake_executor"
  shows "fake_inv cfg w"
  using assms(1)
proof (induction rule: fake_reachable.induct)
  case (start w)
  then show ?case by (rule fake_inv_start)
next
  case (create w uuid now nowf command res w')
  then show ?case using fake_inv_create [OF assms(4,5)] by blast
next
  case (cancel w command res w')
  then show ?case using fake_inv_cancel [OF assms(4,5)] by blast
next
  case (run w now tid)
  then show ?case using fake_inv_run [OF assms(2,3)] by blast
qed

section \<open>Order of the events\<close>

lemma ids_consecutive_sorted:
  assumes "ids_consecutive evs"
  shows "sorted_wrt (\<lambda>e f. key_newer (ev_event_id f) (ev_event_id e)) evs"
    and "e \<in> set evs \<Longrightarrow> key_ok (ev_event_id e)"
proof -
  have ids: "map ev_event_id evs = map seq_event_id [1..<Suc (length evs)]"
    using assms by (simp add: ids_consecutive_def)
  have "sorted_wrt (\<lambda>m n. key_newer (seq_event_id n) (seq_event_id m)) [1..<Suc (length evs)]"
    by (rule sorted_wrt_mono_rel [OF _ sorted_wrt_upt]) (simp add: seq_ids_numeric [symmetric])
  then have "sorted_wrt (\<lambda>a b. key_newer b a) (map ev_event_id evs)"
    unfolding ids by (simp add: sorted_wrt_map)
  then show "sorted_wrt (\<lambda>e f. key_newer (ev_event_id f) (ev_event_id e)) evs"
    by (simp add: sorted_wrt_map)
  assume "e \<in> set evs"
  then have "ev_event_id e \<in> set (map ev_event_id evs)" by simp
  then show "key_ok (ev_event_id e)" unfolding ids by (auto simp: key_ok_def event_key_seq)
qed

lemma fake_inv_ordered:
  assumes "fake_inv cfg w"
  shows "ordered_by key_newer key_ok (w_events w)"
proof -
  have ids: "ids_consecutive (task_events (w_events w) tid)" for tid
    using assms by (simp add: fake_inv_def task_inv_def)
  have "key_ok (ev_event_id e)" if "e \<in> set (w_events w)" for e
    using ids_consecutive_sorted(2) [OF ids [of "ev_task_id e"], of e] that
    by (simp add: task_events_in)
  with ids_consecutive_sorted(1) [OF ids] show ?thesis by (simp add: ordered_by_def)
qed

section \<open>Cancellation reaches the coroutine\<close>

fun cancellable :: "fake_pc \<Rightarrow> bool" where
  "cancellable (FP_FailStatus k) = False"
| "cancellable (FP_FailEmit k) = False"
| "cancellable (FP_CompleteStatus k) = False"
| "cancellable (FP_CompleteEmit k) = False"
| "cancellable pc = True"

fun progress_bound :: "fake_pc \<Rightarrow> nat" where
  "progress_bound FP_Begin = 0"
| "progress_bound FP_EmitStarted = 0"
| "progress_bound (FP_Loop k) = k"
| "progress_bound (FP_Sleep k) = Suc k"
| "progress_bound (FP_CancelStatus k) = k"
| "progress_bound (FP_CancelEmit k) = k"
| "progress_bound (FP_FailStatus k) = k"
| "progress_bound (FP_FailEmit k) = k"
| "progress_bound (FP_CompleteStatus k) = k"
| "progress_bound (FP_CompleteEmit k) = k"

definition cancelling :: "string \<Rightarrow> nat \<Rightarrow> ('p, 'c) fake_world \<Rightarrow> bool" where
  "cancelling tid b w \<longleftrightarrow> tid \<in> set (fx_cancel_requested (w_host w))
     \<and> (\<exists>t. dict_get (w_registry w) tid = Some t
        \<and> (case dict_get (fx_tasks (w_host w)) tid of
             Some pc \<Rightarrow> cancellable pc \<and> progress_bound pc \<le> b
           | None \<Rightarrow> tr_status t = CANCELLED
               \<and> count_list (map ev_type (task_events (w_events w) tid)) TASK_PROGRESS \<le> b))"

lemma count_progress: "count_list (pc_trace pc) TASK_PROGRESS \<le> progress_bound pc"
proof -
  have "count_list (replicate k TASK_PROGRESS) TASK_PROGRESS = k" for k by (induction k) auto
  then show ?thesis by (cases pc) auto
qed

lemma cancelling_step:
  assumes cfg: "fc_registry cfg = demo_registry" "fc_event_store cfg = demo_event_store"
    "fc_fail_after cfg = None"
    and inv: "fake_inv cfg w" and c: "cancelling tid b w"
  shows "cancelling tid b (fake_step cfg now tid w)"
proof (cases "dict_get (fx_tasks (w_host w)) tid")
  case None
  then show ?thesis using c by (simp add: fake_step_idle)
next
  case (Some pc)
  from c Some obtain t where t: "dict_get (w_registry w) tid = Some t" "cancellable pc"
    "progress_bound pc \<le> b" "tid \<in> set (fx_cancel_requested (w_host w))"
    by (auto simp: cancelling_def)
  have "task_inv (fc_progress_ticks cfg) (dict_get (w_registry w) tid)
      (task_events (w_events w) tid) (fake_seq w tid) (Some pc)"
    using inv Some unfolding fake_inv_def by metis
  then have trace: "map ev_type (task_events (w_events w) tid) = pc_trace pc"
    "tr_status t = pc_status pc"
    using t(1) by (simp_all add: task_inv_def)
  have "count_list (map ev_type (task_events (w_events w) tid)) TASK_PROGRESS \<le> b"
    using count_progress [of pc] t(3) trace(1) by simp
  then show ?thesis
    using Some t trace(2)
    by (cases pc)
      (auto simp: fake_step_demo cfg fake_status_demo [OF cfg(1) t(1)] cancelling_def Let_def
        split: if_splits)
qed

lemma cancelling_run:
  assumes cfg: "fc_registry cfg = demo_registry" "fc_event_store cfg = demo_event_store"
    "fc_fail_after cfg = None"
  shows "fake_inv cfg w \<Longrightarrow> cancelling tid b w \<Longrightarrow> cancelling tid b (fake_run cfg now tid n w)"
  by (induction n arbitrary: w) (simp_all add: cancelling_step [OF cfg] fake_inv_run [OF cfg(1,2)])

lemma fake_reachable_run:
  "fake_reachable cfg svc w \<Longrightarrow> fake_reachable cfg svc (fake_run cfg now tid n w)"
  by (induction n arbitrary: w) (auto intro: fake_reachable.run)

lemma fake_run_task_kept:
  assumes cfg: "fc_registry cfg = demo_registry" "fc_event_store cfg = demo_event_store"
  shows "fake_inv cfg w \<Longrightarrow> dict_get (w_registry w) tid \<noteq> None \<Longrightarrow>
    dict_get (w_registry (fake_run cfg now tid n w)) tid \<noteq> None"
proof (induction n arbitrary: w)
  case (Suc n)
  have "dict_get (w_registry (fake_step cfg now tid w)) tid \<noteq> None"
  proof (cases "dict_get (fx_tasks (w_host w)) tid")
    case (Some pc)
    from Suc.prems obtain t where "dict_get (w_registry w) tid = Some t" by auto
    with Some show ?thesis
      by (cases pc) (auto simp: fake_step_demo cfg fake_status_demo Let_def split: option.splits if_splits)
  qed (use Suc.prems in \<open>simp add: fake_step_idle\<close>)
  then show ?case using Suc.IH fake_inv_run [OF cfg Suc.prems(1)] by simp
qed simp

lemma fake_run_done:
  assumes "fake_inv cfg w" "2 * fc_progress_ticks cfg + 5 \<le> n"
  shows "dict_get (fx_tasks (w_host (fake_run cfg now tid n w))) tid = None"
proof (rule fake_run_ends)
  fix pc
  assume pc: "dict_get (fx_tasks (w_host w)) tid = Some pc"
  have "task_inv (fc_progress_ticks cfg) (dict_get (w_registry w) tid)
      (task_events (w_events w) tid) (fake_seq w tid) (Some pc)"
    using assms(1) pc unfolding fake_inv_def by metis
  then have "pc_ok (fc_progress_ticks cfg) pc" by (auto simp: task_inv_def split: option.splits)
  moreover have "awaits_left (fc_progress_ticks cfg) pc \<le> 2 * fc_progress_ticks cfg + 5"
    by (cases pc) auto
  ultimately show "pc_ok (fc_progress_ticks cfg) pc \<and> awaits_left (fc_progress_ticks cfg) pc \<le> n"
    using assms(2) by simp
qed

lemma fake_inv_finished:
  assumes "fake_inv cfg w" "dict_get (w_registry w) tid = Some t" "dict_get (fx_tasks (w_host w)) tid = None"
  shows "finished_trace (fc_progress_ticks cfg) (tr_status t) (map ev_type (task_events (w_events w) tid))"
proof -
  have "task_inv (fc_progress_ticks cfg) (Some t) (task_events (w_events w) tid) (fake_seq w tid) None"
    using assms unfolding fake_inv_def by metis
  then show ?thesis by (simp add: task_inv_def)
qed

lemma fake_inv_running:
  assumes "fake_inv cfg w" "dict_get (w_registry w) tid = Some t"
    "dict_get (fx_tasks (w_host w)) tid = Some pc"
  shows "pc_ok (fc_progress_ticks cfg) pc" "tr_status t = pc_status pc"
    "map ev_type (task_events (w_events w) tid) = pc_trace pc"
proof -
  have "task_inv (fc_progress_ticks cfg) (Some t) (task_events (w_events w) tid) (fake_seq w tid) (Some pc)"
    using assms unfolding fake_inv_def by metis
  then show "pc_ok (fc_progress_ticks cfg) pc" "tr_status t = pc_status pc"
    "map ev_type (task_events (w_events w) tid) = pc_trace pc"
    by (simp_all add: task_inv_def)
qed

section \<open>Properties\<close>

definition fake_host ::
  "(task_dict, event_list) fake_config
    \<Rightarrow> (task_dict, event_list, 'p, 'c, fake_state) task_command_service \<Rightarrow> bool" where
  "fake_host cfg svc \<longleftrightarrow> fc_registry cfg = demo_registry \<and> fc_event_store cfg = demo_event_store
     \<and> cs_registry svc = demo_registry \<and> cs_executor svc = fake_executor"

lemma fake_hostD:
  assumes "fake_host cfg svc"
  shows "fc_registry cfg = demo_registry" "fc_event_store cfg = demo_event_store"
    "cs_registry svc = demo_registry" "cs_executor svc = fake_executor"
  using assms by (simp_all add: fake_host_def)

lemma fake_host_inv: "fake_host cfg svc \<Longrightarrow> fake_reachable cfg svc w \<Longrightarrow> fake_inv cfg w"
  unfolding fake_host_def by (blast intro: fake_reachable_inv)

lemma sample_host: "fake_host sample_config sample_command_service"
  by (simp add: fake_host_def sample_defs)

lemma sample_start: "fake_reachable sample_config sample_command_service empty_world"
  by (rule fake_reachable.start) (simp_all add: empty_world_def)

text \<open>The world after the sample command has been created under the id \<open>t1\<close>.\<close>

definition created_world :: sample_world where
  "created_world = snd (create_task sample_command_service sample_time sample_time ''t1'' sample_command
     empty_world)"

lemma created_world_eq:
  "created_world = empty_world\<lparr>w_registry := [(''t1'', from_command sample_time ''t1'' sample_command)],
     w_host := \<lparr>fx_cancel_requested = [], fx_event_seq = [], fx_tasks = [(''t1'', FP_Begin)]\<rparr>,
     w_metrics := [Counter ''task_starts_total'' []]\<rparr>"
  by (simp add: created_world_def create_task_def create_task_check_def create_task_submit_def
      sample_defs demo_registry_def demo_registry_defs dict_values_def on_registry_def
      fake_executor_def fake_submit_task_def submit_coroutine_def set_pc_def dict_get_def dict_set_def from_command_def
      increment_counter_def)

lemma created_reachable: "fake_reachable sample_config sample_command_service created_world"
proof (rule fake_reachable.create [OF sample_start])
  show "dict_get (w_registry empty_world) ''t1'' = None" by (simp add: empty_world_def dict_simps)
  show "create_task sample_command_service sample_time sample_time ''t1'' sample_command empty_world
      = (fst (create_task sample_command_service sample_time sample_time ''t1'' sample_command empty_world),
         created_world)"
    by (simp add: created_world_def)
qed

text \<open>
  C4. A task whose coroutine has ended is in a terminal status, and its event stream is
  TASK_STARTED, some TASK_PROGRESS events (all of them if it completed), and exactly one
  terminal event, the one of its status; the ids are 1-0, 2-0, ... without a gap. This holds
  in every interleaving of creations, cancellations and runs of other tasks.
\<close>

theorem fake_task_trace:
  assumes "fake_host cfg svc" "fake_reachable cfg svc w"
    and "dict_get (w_registry w) tid = Some t" "dict_get (fx_tasks (w_host w)) tid = None"
  shows "is_terminal (tr_status t) \<and> (\<exists>k \<le> fc_progress_ticks cfg.
      (tr_status t = COMPLETED \<longrightarrow> k = fc_progress_ticks cfg)
    \<and> map ev_type (task_events (w_events w) tid)
        = TASK_STARTED # replicate k TASK_PROGRESS @ [terminal_event (tr_status t)]
    \<and> map ev_event_id (task_events (w_events w) tid) = map seq_event_id [1..<k + 3])"
proof -
  have inv: "fake_inv cfg w" using assms(1,2) by (rule fake_host_inv)
  from fake_inv_finished [OF inv assms(3,4)] obtain k where k: "is_terminal (tr_status t)"
    "k \<le> fc_progress_ticks cfg" "tr_status t = COMPLETED \<longrightarrow> k = fc_progress_ticks cfg"
    "map ev_type (task_events (w_events w) tid)
       = TASK_STARTED # replicate k TASK_PROGRESS @ [terminal_event (tr_status t)]"
    by (auto simp: finished_trace_def)
  have "length (task_events (w_events w) tid) = k + 2"
    using arg_cong [OF k(4), of length] by simp
  moreover have "ids_consecutive (task_events (w_events w) tid)"
    using inv by (simp add: fake_inv_def task_inv_def)
  ultimately have "map ev_event_id (task_events (w_events w) tid) = map seq_event_id [1..<k + 3]"
    unfolding ids_consecutive_def by (simp add: numeral_3_eq_3)
  with k show ?thesis by (intro conjI exI [of _ k])
qed

text \<open>
  Every status change a coroutine writes is one \<open>ensure_transition\<close> allows: a task goes
  from ACCEPTED to RUNNING and from there to one terminal status, and is not touched again.
\<close>

theorem fake_status_transitions:
  assumes "fake_host cfg svc" "fake_reachable cfg svc w"
    and "dict_get (w_registry w) tid = Some t"
  shows "\<exists>t'. dict_get (w_registry (fake_step cfg now tid' w)) tid = Some t'
    \<and> ensure_transition (tr_status t) (tr_status t') = Inr ()"
proof -
  have inv: "fake_inv cfg w" using assms(1,2) by (rule fake_host_inv)
  note cfg = fake_hostD(1,2) [OF assms(1)]
  have same: "ensure_transition st st = Inr ()" for st
    by (cases st) (simp_all add: ensure_transition_ok_iff)
  show ?thesis
  proof (cases "dict_get (fx_tasks (w_host w)) tid'")
    case None
    then show ?thesis using assms(3) same by (simp add: fake_step_idle)
  next
    case (Some pc)
    then have "task_inv (fc_progress_ticks cfg) (dict_get (w_registry w) tid')
        (task_events (w_events w) tid') (fake_seq w tid') (Some pc)"
      using inv unfolding fake_inv_def by metis
    then obtain u where u: "dict_get (w_registry w) tid' = Some u" "tr_status u = pc_status pc"
      by (auto simp: task_inv_def split: option.splits)
    show ?thesis
    proof (cases "tid' = tid")
      case False
      then have "tid \<noteq> tid'" by simp
      from fake_step_other [OF cfg this Some u(1)] assms(3) same show ?thesis by auto
    next
      case True
      with u assms(3) have "tr_status t = pc_status pc" by simp
      then show ?thesis using Some True u(1) assms(3) same
        by (cases pc)
          (auto simp: fake_step_demo cfg fake_status_demo Let_def ensure_transition_ok_iff
            split: option.splits if_splits)
    qed
  qed
qed

text \<open>
  C17. A created task reaches a terminal status: the event loop needs to run its coroutine for
  at most \<open>2 * progress_ticks + 5\<close> awaits.
\<close>

theorem fake_task_terminates:
  assumes "fake_host cfg svc" "fake_reachable cfg svc w"
    and "dict_get (w_registry w) tid \<noteq> None" "2 * fc_progress_ticks cfg + 5 \<le> n"
  shows "\<exists>t. dict_get (w_registry (fake_run cfg now tid n w)) tid = Some t \<and> is_terminal (tr_status t)
    \<and> dict_get (fx_tasks (w_host (fake_run cfg now tid n w))) tid = None"
proof -
  have inv: "fake_inv cfg w" using assms(1,2) by (rule fake_host_inv)
  note cfg = fake_hostD(1,2) [OF assms(1)]
  have inv': "fake_inv cfg (fake_run cfg now tid n w)"
    using assms(1) fake_reachable_run [OF assms(2)] by (rule fake_host_inv)
  have done': "dict_get (fx_tasks (w_host (fake_run cfg now tid n w))) tid = None"
    using inv assms(4) by (rule fake_run_done)
  moreover obtain t where t: "dict_get (w_registry (fake_run cfg now tid n w)) tid = Some t"
    using fake_run_task_kept [OF cfg inv assms(3)] by blast
  ultimately show ?thesis
    using fake_inv_finished [OF inv' t] by (simp add: finished_trace_def)
qed


text \<open>Polling from the beginning, in a world of the invariant.\<close>

lemma fake_inv_polls:
  assumes "fake_inv cfg w" "0 \<le> limit"
    and "ps_registry psvc = demo_registry" "ps_event_store psvc = demo_event_store"
    and "dict_get (w_registry w) tid = Some t"
      "op_assert_task_access (ps_ownership_policy psvc) auth t = Inr ()"
  shows "\<exists>nxt. poll_pages psvc tid auth None limit (replicate n w)
    = Inr (take (n * nat limit) (task_events (w_events w) tid), nxt)"
proof -
  have v: "tasks_valid (w_registry w)" using assms(1) by (simp add: fake_inv_def)
  have own: "get_owned_task_or_raise_not_found (ps_registry psvc) (ps_ownership_policy psvc) tid auth
      (w_registry w) = Inr t"
    using demo_reg.get_owned_task_eq [OF v] assms(3,5,6) by simp
  show ?thesis
    using demo_ev.poll_pages_replicate [OF assms(2,4) fake_inv_ordered [OF assms(1)] own, of None n]
    by (simp add: events_after_def)
qed

text \<open>
  In every reachable world of the host, a client that may see the task and polls from the
  beginning with a limit, following the markers, has after \<open>n\<close> polls received exactly the
  first \<open>n * limit\<close> events of the task, in order.
\<close>

theorem fake_host_polls:
  assumes "fake_host cfg svc" "fake_reachable cfg svc w" "0 \<le> limit"
    and "ps_registry psvc = demo_registry" "ps_event_store psvc = demo_event_store"
    and "dict_get (w_registry w) tid = Some t"
      "op_assert_task_access (ps_ownership_policy psvc) auth t = Inr ()"
  shows "\<exists>nxt. poll_pages psvc tid auth None limit (replicate n w)
    = Inr (take (n * nat limit) (task_events (w_events w) tid), nxt)"
  using fake_inv_polls [OF fake_host_inv [OF assms(1,2)] assms(3-7)] .

section \<open>Witnesses\<close>

lemmas created_simps = created_world_eq sample_defs from_command_def dict_get_def

definition completed_world :: sample_world where
  "completed_world = fake_run sample_config sample_time ''t1'' 9 created_world"

lemma completed_reachable: "fake_reachable sample_config sample_command_service completed_world"
  unfolding completed_world_def by (rule fake_reachable_run [OF created_reachable])

lemma completed_status:
  "map_option tr_status (dict_get (w_registry completed_world) ''t1'') = Some COMPLETED"
  "dict_get (fx_tasks (w_host completed_world)) ''t1'' = None"
  by code_simp+

definition sample_cancel :: cancel_task_command where
  "sample_cancel = \<lparr>ca_task_id = ''t1'', ca_auth_context = demo_auth_context, ca_reason = None\<rparr>"

definition cancelled_world :: sample_world where
  "cancelled_world = snd (cancel_task sample_command_service sample_cancel created_world)"

lemma cancelled_reachable: "fake_reachable sample_config sample_command_service cancelled_world"
  unfolding cancelled_world_def
  by (rule fake_reachable.cancel [OF created_reachable]) (rule prod.collapse [symmetric])

lemma cancelled_facts:
  "dict_get (fx_tasks (w_host cancelled_world)) ''t1'' = Some FP_Begin"
  "fx_cancel_requested (w_host cancelled_world) = [''t1'']"
  by code_simp+

theorem fake_task_trace_witness:
  "\<exists>k \<le> 2. map ev_type (task_events (w_events completed_world) ''t1'')
     = TASK_STARTED # replicate k TASK_PROGRESS @ [TASK_COMPLETED]"
proof -
  from completed_status(1) obtain t where t: "dict_get (w_registry completed_world) ''t1'' = Some t"
    "tr_status t = COMPLETED" by auto
  from fake_task_trace [OF sample_host completed_reachable t(1) completed_status(2)] t(2)
  show ?thesis by (auto simp: sample_config_def)
qed

theorem fake_status_transitions_witness:
  "\<exists>t'. dict_get (w_registry (fake_step sample_config sample_time ''t1'' created_world)) ''t1'' = Some t'
    \<and> ensure_transition ACCEPTED (tr_status t') = Inr ()"
  using fake_status_transitions [OF sample_host created_reachable, of "''t1''"
      "from_command sample_time ''t1'' sample_command" sample_time "''t1''"]
  by (simp add: created_simps)

theorem fake_task_terminates_witness:
  "\<exists>t. dict_get (w_registry (fake_run sample_config sample_time ''t1'' 9 created_world)) ''t1'' = Some t
    \<and> is_terminal (tr_status t)"
proof -
  have "dict_get (w_registry created_world) ''t1'' \<noteq> None" by (simp add: created_simps)
  moreover have "2 * fc_progress_ticks sample_config + 5 \<le> 9" by (simp add: sample_config_def)
  ultimately show ?thesis
    using fake_task_terminates [OF sample_host created_reachable, of "''t1''" 9 sample_time] by blast
qed


theorem fake_host_polls_witness:
  "\<exists>nxt. poll_pages sample_stream_service ''t1'' demo_auth_context None 3 (replicate 2 completed_world)
    = Inr (take (2 * nat 3) (task_events (w_events completed_world) ''t1''), nxt)"
proof -
  from completed_status(1) obtain t where t: "dict_get (w_registry completed_world) ''t1'' = Some t"
    by auto
  have "map_option tr_owner_id (dict_get (w_registry completed_world) ''t1'') = Some ''demo-user''"
    by code_simp
  with t have "op_assert_task_access (ps_ownership_policy sample_stream_service) demo_auth_context t = Inr ()"
    by (simp add: sample_defs)
  then show ?thesis
    by (intro fake_host_polls [OF sample_host completed_reachable _ _ _ t])
      (simp_all add: sample_stream_service_def)
qed

text \<open>The creation properties, on the sample command; the retry comes when the task has completed.\<close>

lemma empty_unique: "unique_requests (dict_get (w_registry empty_world))"
  by (simp add: unique_requests_def empty_world_def dict_simps)

lemma empty_valid: "tasks_valid (w_registry empty_world)"
  by (simp add: empty_world_def tasks_valid_empty)

lemma sample_service:
  "cs_registry sample_command_service = demo_registry"
  "executor_keeps_tasks tasks_valid dict_get (cs_executor sample_command_service)"
  "wf_dict (cc_input_payload sample_command)"
  "op_assert_task_create (cs_ownership_policy sample_command_service) (cc_auth_context sample_command) = Inr ()"
  by (simp_all add: sample_defs fake_executor_keeps wf_dict_def)

lemma created_result:
  "create_task sample_command_service sample_time sample_time ''t1'' sample_command empty_world
    = (Inr \<lparr>cr_task_id = ''t1'', cr_status = ACCEPTED, cr_client_request_id = ''req-1'',
            cr_deduplicated = False\<rparr>, created_world)"
  by (simp add: created_world_def create_task_def create_task_check_def create_task_submit_def
      sample_defs demo_registry_def demo_registry_defs dict_values_def on_registry_def
      fake_executor_def fake_submit_task_def submit_coroutine_def set_pc_def dict_get_def dict_set_def from_command_def
      increment_counter_def)

theorem create_task_is_idempotent_witness:
  "\<exists>t. dict_get (w_registry created_world) ''t1'' = Some t
    \<and> create_task sample_command_service sample_time sample_time ''t2'' sample_command created_world =
        (Inr \<lparr>cr_task_id = ''t1'', cr_status = tr_status t, cr_client_request_id = ''req-1'',
              cr_deduplicated = True\<rparr>,
         increment_counter ''duplicates_total'' created_world)"
proof -
  have "tasks_valid (w_registry created_world)"
    by (simp add: created_simps tasks_valid_def dict_ok_def)
  from create_task_is_idempotent [OF empty_valid empty_unique sample_service created_result this]
  show ?thesis by (simp add: sample_command_def)
qed


definition refusing_executor :: "('r, 'v, 'p, 'c, 'h) task_executor" where
  "refusing_executor = \<lparr>ex_submit_task = (\<lambda>t w. (Inl (RuntimeError ''queue is down''), w)),
     ex_request_cancellation = (\<lambda>t w. (Inr (), w))\<rparr>"

theorem create_task_submission_failure_witness:
  "\<exists>w'. create_task (sample_command_service\<lparr>cs_executor := refusing_executor\<rparr>) sample_time sample_time
        ''t1'' sample_command empty_world
      = (Inl (TaskSubmissionError ''Failed to submit task t1''), w')"
proof -
  have "executor_keeps_tasks tasks_valid dict_get
      (cs_executor (sample_command_service\<lparr>cs_executor := refusing_executor\<rparr>))"
    by (simp add: executor_keeps_tasks_def refusing_executor_def)
  from create_task_submission_failure [OF empty_valid empty_unique _ this sample_service(3),
      where e = "RuntimeError ''queue is down''" and uuid = "''t1''" and now = sample_time
        and nowf = sample_time and ?now2.0 = sample_time and ?nowf2.0 = sample_time
        and ?uuid2.0 = "''t2''"]
  show ?thesis
    by (auto simp: sample_service sample_defs refusing_executor_def is_exception_def dict_simps)
qed

theorem create_task_race_witness:
  "\<not> unique_requests (dict_get (w_registry (snd (create_task_submit sample_command_service sample_time
      sample_time ''t2'' sample_command created_world))))"
proof -
  have check: "create_task_check sample_command_service sample_command empty_world = (Inr None, empty_world)"
    by (simp add: create_task_check_def sample_defs demo_registry_def demo_registry_defs dict_values_def)
  have first: "create_task_submit sample_command_service sample_time sample_time ''t1'' sample_command
      empty_world = (Inr \<lparr>cr_task_id = ''t1'', cr_status = ACCEPTED, cr_client_request_id = ''req-1'',
            cr_deduplicated = False\<rparr>, created_world)"
    using created_result by (simp add: create_task_def check)
  show ?thesis
    by (rule create_task_race [OF empty_valid sample_service(1,2) _ check first, of "''t2''"
          sample_time sample_time]) (auto simp: prod_eq_iff)
qed

text \<open>Access, cancellation and polling.\<close>

definition other_auth :: auth_context where
  "other_auth = demo_auth_context\<lparr>ac_subject := ''mallory''\<rparr>"

lemma created_task:
  "dict_get (w_registry created_world) ''t1'' = Some (from_command sample_time ''t1'' sample_command)"
  "tasks_valid (w_registry created_world)"
  by (simp_all add: created_simps tasks_valid_def dict_ok_def)

theorem foreign_task_is_not_found_witness:
  "poll_events sample_stream_service ''t1'' other_auth None 10 None created_world
     = (Inl (TaskNotFoundError ''t1''), created_world)"
proof -
  have "\<exists>m. op_assert_task_access demo_ownership_policy other_auth t = Inl (PermissionError m)"
    if "dict_get (w_registry created_world) ''t1'' = Some t" for t
    using that created_task(1) by (auto simp: demo_ownership_policy_def other_auth_def sample_defs from_command_def)
  from foreign_task_is_not_found [OF created_task(2) this, where psvc = sample_stream_service
      and csvc = sample_command_service and command = "sample_cancel\<lparr>ca_auth_context := other_auth\<rparr>"
      and after = None and limit = 10 and wait = None]
  show ?thesis by (simp add: sample_stream_service_def sample_command_service_def sample_cancel_def)
qed

theorem cancel_task_effect_witness:
  "\<exists>w'. cancel_task sample_command_service sample_cancel created_world
     = (Inr \<lparr>cn_task_id = ''t1'', cn_status = CANCELLATION_REQUESTED\<rparr>, w')"
proof -
  have "op_assert_task_access (cs_ownership_policy sample_command_service) (ca_auth_context sample_cancel)
      (from_command sample_time ''t1'' sample_command) = Inr ()"
    by (simp add: sample_cancel_def sample_defs from_command_def)
  from cancel_task_effect [OF created_task(2) sample_service(1) _ this] created_task(1)
  show ?thesis
    by (auto simp: sample_cancel_def is_terminal_def from_command_def sample_command_service_def
        fake_executor_def fake_request_cancellation_def)
qed

theorem polling_resumes_exactly_witness:
  "\<exists>evs nxt. poll_pages sample_stream_service ''t1'' demo_auth_context None 3
      [created_world, completed_world] = Inr (evs, nxt)
    \<and> prefix evs (task_events (w_events completed_world) ''t1'')"
proof -
  have ord: "ordered_by key_newer key_ok (w_events w) \<and> tasks_valid (w_registry w)"
    if "w \<in> set [created_world, completed_world]" for w
  proof -
    have "fake_inv sample_config w"
      using that fake_host_inv [OF sample_host created_reachable]
        fake_host_inv [OF sample_host completed_reachable] by auto
    then show ?thesis using fake_inv_ordered [of sample_config w] by (simp add: fake_inv_def)
  qed
  have own: "map_option tr_owner_id (dict_get (w_registry w) ''t1'') = Some ''demo-user''"
    if "w \<in> set [created_world, completed_world]" for w
  proof -
    have "map_option tr_owner_id (dict_get (w_registry created_world) ''t1'') = Some ''demo-user''"
      "map_option tr_owner_id (dict_get (w_registry completed_world) ''t1'') = Some ''demo-user''"
      by code_simp+
    with that show ?thesis by auto
  qed
  have "task_events (w_events created_world) ''t1'' = []"
    by (simp add: created_simps task_events_def)
  then have "sorted_wrt (\<lambda>w w'. prefix (task_events (w_events w) ''t1'') (task_events (w_events w') ''t1''))
      [created_world, completed_world]" by simp
  moreover have "tasks_valid (w_registry w) \<and> (\<exists>t. dict_get (w_registry w) ''t1'' = Some t
      \<and> op_assert_task_access (ps_ownership_policy sample_stream_service) demo_auth_context t = Inr ())"
    if w: "w \<in> set [created_world, completed_world]" for w
  proof -
    from own [OF w] obtain t where "dict_get (w_registry w) ''t1'' = Some t" "tr_owner_id t = ''demo-user''"
      by auto
    with ord [OF w] show ?thesis
      by (simp add: sample_stream_service_def demo_ownership_policy_def demo_auth_context_def)
  qed
  moreover have "ordered_by key_newer key_ok (w_events w)"
    if "w \<in> set [created_world, completed_world]" for w using ord [OF that] ..
  moreover have "ps_registry sample_stream_service = demo_registry"
    "ps_event_store sample_stream_service = demo_event_store"
    by (simp_all add: sample_stream_service_def)
  ultimately have "\<exists>evs nxt. poll_pages sample_stream_service ''t1'' demo_auth_context None 3
      (created_world # [completed_world]) = Inr (evs, nxt)
    \<and> prefix evs (events_after key_newer None (task_events (w_events (last (created_world # [completed_world]))) ''t1''))
    \<and> nxt = (if evs = [] then None else Some (ev_event_id (last evs)))"
    by (intro polling_resumes_exactly) simp_all
  then obtain evs nxt where "poll_pages sample_stream_service ''t1'' demo_auth_context None 3
      [created_world, completed_world] = Inr (evs, nxt)"
    "prefix evs (events_after key_newer None (task_events (w_events (last [created_world, completed_world])) ''t1''))"
    by blast
  then show ?thesis by (intro exI [of _ evs] exI [of _ nxt]) (simp add: events_after_def)
qed

definition numbered_events :: "event_list" where
  "numbered_events = map (\<lambda>n. \<lparr>ev_type = TASK_PROGRESS, ev_task_id = ''t1'', ev_event_id = seq_event_id n,
     ev_created_at = sample_time, ev_payload = []\<rparr>) [1..<11]"

theorem greeter_store_loses_tenth_event_witness:
  "\<exists>e \<in> set (task_events numbered_events ''t1''). \<forall>batch.
     greeter_read_events_after ''t1'' (Some (seq_event_id 9)) 100 numbered_events = Inr batch \<longrightarrow> e \<notin> set batch"
  using greeter_store_loses_tenth_event [of numbered_events "''t1''" 100]
  by (auto simp: numbered_events_def task_events_def comp_def)

end
