(* ===== verification/ActionService.thy ===== *)
theory ActionService
  imports TaskServices
begin

text \<open>
  \<open>TaskActionService\<close> of \<open>taskbridge/services.py\<close>: a client's action on a suspended task.
  \<open>submit_action\<close> is split where the code first writes: \<open>submit_checks\<close> only reads,
  \<open>accept_action_if_open\<close> decides, \<open>lost_race\<close> reads again when somebody else was faster,
  \<open>finish_accept\<close> writes the receipt and the event and hands over to the resume service.
\<close>

section \<open>The service\<close>

text \<open>
  The resume service is either the library's \<open>TaskResumeService\<close>, whose \<open>resume_task\<close> does
  nothing, or a host's subclass that overrides it; the code tells the two apart by
  \<open>type(self._resume_service).resume_task is TaskResumeService.resume_task\<close>.
\<close>

datatype ('r, 'v, 'p, 'c, 'h) resume_service =
    DefaultResume
  | HostResume "submit_action_command \<Rightarrow> task_suspension_record \<Rightarrow> ('r, 'v, 'p, 'c, 'h) world
      \<Rightarrow> (exc + unit) \<times> ('r, 'v, 'p, 'c, 'h) world"

fun resume_task ::
  "('r, 'v, 'p, 'c, 'h) resume_service \<Rightarrow> submit_action_command \<Rightarrow> task_suspension_record
    \<Rightarrow> ('r, 'v, 'p, 'c, 'h) world \<Rightarrow> (exc + unit) \<times> ('r, 'v, 'p, 'c, 'h) world" where
  "resume_task DefaultResume command suspension w = (Inr (), w)"
| "resume_task (HostResume f) command suspension w = f command suspension w"

fun is_default_resume :: "('r, 'v, 'p, 'c, 'h) resume_service \<Rightarrow> bool" where
  "is_default_resume DefaultResume = True"
| "is_default_resume (HostResume f) = False"

record ('r, 'v, 'p, 'c, 'h) action_service =
  as_registry :: "'r task_registry_ops"
  as_suspension_store :: "'p suspension_store_ops"
  as_receipt_store :: "'c action_receipt_store_ops"
  as_event_store :: "'v event_store_ops"
  as_ownership_policy :: ownership_policy
  as_resume_service :: "('r, 'v, 'p, 'c, 'h) resume_service"
  as_action_validation_policy :: "action_validation_policy option"

section \<open>Helpers\<close>

definition get_suspension_or_not_found ::
  "('r, 'v, 'p, 'c, 'h) action_service \<Rightarrow> string \<Rightarrow> string \<Rightarrow> 'p \<Rightarrow> exc + task_suspension_record" where
  "get_suspension_or_not_found svc task_id suspend_id s =
     (case ss_get_suspension (as_suspension_store svc) task_id suspend_id s of
        Inl e \<Rightarrow> (if is_key_error e then Inl (TaskNotFoundError suspend_id) else Inl e)
      | Inr r \<Rightarrow> Inr r)"

definition same_action_receipt :: "task_action_receipt \<Rightarrow> submit_action_command \<Rightarrow> bool" where
  "same_action_receipt receipt command \<longleftrightarrow>
     re_suspend_id receipt = sc_suspend_id command
     \<and> re_action_type receipt = sc_action_type command
     \<and> dict_eq (re_payload receipt) (sc_payload command)
     \<and> dict_eq (re_metadata receipt) (sc_metadata command)"

definition action_result ::
  "submit_action_command \<Rightarrow> submit_action_result_status \<Rightarrow> submit_action_result" where
  "action_result command status = \<lparr>
     sr_task_id = sc_task_id command,
     sr_suspend_id = sc_suspend_id command,
     sr_client_action_id = sc_client_action_id command,
     sr_status = status\<rparr>"

definition is_a2ui :: "string \<Rightarrow> bool" where
  "is_a2ui action_type \<longleftrightarrow> action_type = ''a2ui_action''"

definition conflicting_action :: "submit_action_command \<Rightarrow> exc" where
  "conflicting_action command = IdempotencyConflictError
     (''Conflicting idempotent task action for '' @ sc_client_action_id command)"

definition receipt_not_available :: "submit_action_command \<Rightarrow> exc" where
  "receipt_not_available command = TaskConflictError
     (''Action receipt is not yet available for '' @ sc_client_action_id command)"

section \<open>Before the write\<close>

text \<open>The checks on the suspension the action is for.\<close>

definition check_suspension ::
  "submit_action_command \<Rightarrow> task_suspension_record \<Rightarrow> exc + unit" where
  "check_suspension command suspension =
     (if sc_action_type command \<notin> set (su_allowed_actions suspension)
      then Inl (IdempotencyConflictError (''Action type not allowed: '' @ sc_action_type command))
      else if is_a2ui (sc_action_type command) \<and> sc_metadata command = []
      then Inl (InvalidRequestError ''a2ui_action requires action metadata'')
      else Inr ())"

text \<open>
  What follows the receipt lookup: \<open>Some result\<close> is a return, \<open>None\<close> goes on to accept.
\<close>

definition check_receipt ::
  "('r, 'v, 'p, 'c, 'h) action_service \<Rightarrow> submit_action_command \<Rightarrow> task_record
    \<Rightarrow> task_suspension_record \<Rightarrow> task_action_receipt option \<Rightarrow> exc + submit_action_result option" where
  "check_receipt svc command task suspension receipt =
     (case receipt of
        Some existing \<Rightarrow>
          (if same_action_receipt existing command
           then Inr (Some (action_result command SA_DEDUPLICATED))
           else Inl (conflicting_action command))
      | None \<Rightarrow>
          (if su_status suspension = SUS_EXPIRED
           then Inr (Some (action_result command SA_REJECTED_EXPIRED))
           else if su_status suspension \<noteq> SUS_OPEN
           then (if su_successful_action_id suspension = Some (sc_client_action_id command)
                 then Inl (receipt_not_available command)
                 else Inr (Some (action_result command SA_REJECTED_ALREADY_RESOLVED)))
           else if is_a2ui (sc_action_type command) \<and> as_action_validation_policy svc = None
           then Inl (InvalidRequestError ''a2ui_action requires a host action validation policy'')
           else (case (case as_action_validation_policy svc of
                         None \<Rightarrow> Inr ()
                       | Some policy \<Rightarrow> policy command task suspension) of
                   Inl e \<Rightarrow> Inl e
                 | Inr _ \<Rightarrow>
                     (if is_a2ui (sc_action_type command) \<and> is_default_resume (as_resume_service svc)
                      then Inl (RuntimeError ''A2UI actions require a host resume service'')
                      else Inr None))))"

definition submit_checks ::
  "('r, 'v, 'p, 'c, 'h) action_service \<Rightarrow> submit_action_command \<Rightarrow> ('r, 'v, 'p, 'c, 'h) world
    \<Rightarrow> exc + submit_action_result option" where
  "submit_checks svc command w =
     (case get_owned_task_or_raise_not_found (as_registry svc) (as_ownership_policy svc)
             (sc_task_id command) (sc_auth_context command) (w_registry w) of
        Inl e \<Rightarrow> Inl e
      | Inr task \<Rightarrow>
          (case get_suspension_or_not_found svc (sc_task_id command) (sc_suspend_id command)
                  (w_suspensions w) of
             Inl e \<Rightarrow> Inl e
           | Inr suspension \<Rightarrow>
               (case check_suspension command suspension of
                  Inl e \<Rightarrow> Inl e
                | Inr _ \<Rightarrow>
                    (case rs_get_receipt (as_receipt_store svc) (sc_task_id command)
                            (sc_client_action_id command) (w_receipts w) of
                       Inl e \<Rightarrow> Inl e
                     | Inr receipt \<Rightarrow> check_receipt svc command task suspension receipt))))"

section \<open>After a lost race\<close>

definition lost_receipt ::
  "submit_action_command \<Rightarrow> task_action_receipt option \<Rightarrow> exc + submit_action_result" where
  "lost_receipt command receipt =
     (case receipt of
        None \<Rightarrow> Inl (receipt_not_available command)
      | Some winning_receipt \<Rightarrow>
          (if same_action_receipt winning_receipt command
           then Inr (action_result command SA_DEDUPLICATED)
           else Inl (conflicting_action command)))"

definition lost_other :: "submit_action_command \<Rightarrow> task_suspension_record \<Rightarrow> submit_action_result" where
  "lost_other command current =
     action_result command (if su_status current = SUS_EXPIRED then SA_REJECTED_EXPIRED
                            else SA_REJECTED_ALREADY_RESOLVED)"

definition lost_race ::
  "('r, 'v, 'p, 'c, 'h) action_service \<Rightarrow> submit_action_command \<Rightarrow> ('r, 'v, 'p, 'c, 'h) world
    \<Rightarrow> exc + submit_action_result" where
  "lost_race svc command w =
     (case get_suspension_or_not_found svc (sc_task_id command) (sc_suspend_id command)
             (w_suspensions w) of
        Inl e \<Rightarrow> Inl e
      | Inr current \<Rightarrow>
          (if su_successful_action_id current = Some (sc_client_action_id command)
           then (case rs_get_receipt (as_receipt_store svc) (sc_task_id command)
                        (sc_client_action_id command) (w_receipts w) of
                   Inl e \<Rightarrow> Inl e
                 | Inr receipt \<Rightarrow> lost_receipt command receipt)
           else Inr (lost_other command current)))"

section \<open>After a won race\<close>

definition accepted_receipt :: "datetime \<Rightarrow> submit_action_command \<Rightarrow> task_action_receipt" where
  "accepted_receipt now command = \<lparr>
     re_task_id = sc_task_id command,
     re_suspend_id = sc_suspend_id command,
     re_client_action_id = sc_client_action_id command,
     re_action_type = sc_action_type command,
     re_payload = sc_payload command,
     re_metadata = sc_metadata command,
     re_actor_id = ac_subject (sc_auth_context command),
     re_status = AR_ACCEPTED,
     re_created_at = now,
     re_processed_at = Some now,
     re_expires_at = None\<rparr>"

definition accepted_event :: "datetime \<Rightarrow> submit_action_command \<Rightarrow> task_event" where
  "accepted_event now command = \<lparr>
     ev_type = TASK_ACTION_ACCEPTED,
     ev_task_id = sc_task_id command,
     ev_event_id = ''0-0'',
     ev_created_at = now,
     ev_payload = [(''suspendId'', JStr (sc_suspend_id command)),
                   (''clientActionId'', JStr (sc_client_action_id command)),
                   (''actionType'', JStr (sc_action_type command)),
                   (''acceptedAt'', JStr (isoformat now))]\<rparr>"

definition finish_accept ::
  "('r, 'v, 'p, 'c, 'h) action_service \<Rightarrow> datetime \<Rightarrow> submit_action_command \<Rightarrow> task_suspension_record
    \<Rightarrow> ('r, 'v, 'p, 'c, 'h) world \<Rightarrow> (exc + submit_action_result) \<times> ('r, 'v, 'p, 'c, 'h) world" where
  "finish_accept svc now command accepted w =
     and_then (on_receipts (rs_save_receipt (as_receipt_store svc) (accepted_receipt now command)) w)
       (\<lambda>_ w1.
     and_then (on_events (es_append_event (as_event_store svc) (accepted_event now command)) w1)
       (\<lambda>_ w2.
          case resume_task (as_resume_service svc) command accepted w2 of
            (Inl e, w3) \<Rightarrow>
              (if is_exception e
               then (Inr (action_result command SA_ACCEPTED),
                     increment_counter ''actions_accepted_total''
                       (increment_counter ''actions_resume_pending_total'' w3))
               else (Inl e, w3))
          | (Inr _, w3) \<Rightarrow>
              and_then (on_suspensions (ss_mark_resume_dispatched (as_suspension_store svc)
                          (sc_task_id command) (sc_suspend_id command)) w3)
                (\<lambda>_ w4. (Inr (action_result command SA_ACCEPTED),
                         increment_counter ''actions_accepted_total'' w4))))"

section \<open>The whole method\<close>

text \<open>\<open>accept_now\<close> is the store's clock reading, \<open>now\<close> the service's.\<close>

definition submit_action ::
  "('r, 'v, 'p, 'c, 'h) action_service \<Rightarrow> datetime \<Rightarrow> datetime \<Rightarrow> submit_action_command
    \<Rightarrow> ('r, 'v, 'p, 'c, 'h) world \<Rightarrow> (exc + submit_action_result) \<times> ('r, 'v, 'p, 'c, 'h) world" where
  "submit_action svc accept_now now command w =
     (case submit_checks svc command w of
        Inl e \<Rightarrow> (Inl e, w)
      | Inr (Some result) \<Rightarrow> (Inr result, w)
      | Inr None \<Rightarrow>
          and_then (on_suspensions (ss_accept_action_if_open (as_suspension_store svc) accept_now
                      (sc_task_id command) (sc_suspend_id command) (sc_client_action_id command)) w)
            (\<lambda>accepted w1.
               case accepted of
                 None \<Rightarrow> (lost_race svc command w1, w1)
               | Some record \<Rightarrow> finish_accept svc now command record w1))"

end
