(* ===== verification/ActionInterleaving.thy ===== *)
theory ActionInterleaving
  imports ActionService HostStores
begin

text \<open>
  \<open>submit_action\<close> as the coroutine it is: \<open>submit_step\<close> runs one request from one await on a
  store to the next, and any number of requests, the retention service, the reconciliation
  and the host's own writes are interleaved. \<open>submit_run\<close> shows that the steps of a request
  that runs alone add up to \<open>submit_action\<close>.
\<close>

section \<open>One request\<close>

datatype submit_pc =
    SP_Task
  | SP_Susp task_record
  | SP_Receipt task_record task_suspension_record
  | SP_Accept
  | SP_LostSusp
  | SP_LostReceipt
  | SP_Save task_suspension_record
  | SP_Append datetime task_suspension_record
  | SP_Resume task_suspension_record
  | SP_Mark
  | SP_Done "exc + submit_action_result"

definition raise_or :: "exc + 'a \<Rightarrow> ('a \<Rightarrow> submit_pc) \<Rightarrow> submit_pc" where
  "raise_or r k = (case r of Inl e \<Rightarrow> SP_Done (Inl e) | Inr a \<Rightarrow> k a)"

fun submit_step ::
  "('r, 'v, 'p, 'c, 'h) action_service \<Rightarrow> datetime \<Rightarrow> submit_action_command \<Rightarrow> submit_pc
    \<Rightarrow> ('r, 'v, 'p, 'c, 'h) world \<Rightarrow> submit_pc \<times> ('r, 'v, 'p, 'c, 'h) world" where
  "submit_step svc now command SP_Task w =
     (raise_or (get_owned_task_or_raise_not_found (as_registry svc) (as_ownership_policy svc)
                  (sc_task_id command) (sc_auth_context command) (w_registry w)) SP_Susp, w)"
| "submit_step svc now command (SP_Susp task) w =
     (raise_or (get_suspension_or_not_found svc (sc_task_id command) (sc_suspend_id command)
                  (w_suspensions w))
        (\<lambda>suspension. raise_or (check_suspension command suspension) (\<lambda>_. SP_Receipt task suspension)), w)"
| "submit_step svc now command (SP_Receipt task suspension) w =
     (raise_or (rs_get_receipt (as_receipt_store svc) (sc_task_id command)
                  (sc_client_action_id command) (w_receipts w))
        (\<lambda>receipt. raise_or (check_receipt svc command task suspension receipt)
           (\<lambda>early. case early of Some result \<Rightarrow> SP_Done (Inr result) | None \<Rightarrow> SP_Accept)), w)"
| "submit_step svc now command SP_Accept w =
     (case on_suspensions (ss_accept_action_if_open (as_suspension_store svc) now
             (sc_task_id command) (sc_suspend_id command) (sc_client_action_id command)) w of
        (r, w1) \<Rightarrow> (raise_or r (\<lambda>accepted. case accepted of None \<Rightarrow> SP_LostSusp | Some s \<Rightarrow> SP_Save s), w1))"
| "submit_step svc now command SP_LostSusp w =
     (raise_or (get_suspension_or_not_found svc (sc_task_id command) (sc_suspend_id command)
                  (w_suspensions w))
        (\<lambda>current. if su_successful_action_id current = Some (sc_client_action_id command)
                   then SP_LostReceipt else SP_Done (Inr (lost_other command current))), w)"
| "submit_step svc now command SP_LostReceipt w =
     (raise_or (rs_get_receipt (as_receipt_store svc) (sc_task_id command)
                  (sc_client_action_id command) (w_receipts w))
        (\<lambda>receipt. SP_Done (lost_receipt command receipt)), w)"
| "submit_step svc now command (SP_Save accepted) w =
     (case on_receipts (rs_save_receipt (as_receipt_store svc) (accepted_receipt now command)) w of
        (r, w1) \<Rightarrow> (raise_or r (\<lambda>_. SP_Append now accepted), w1))"
| "submit_step svc now command (SP_Append t accepted) w =
     (case on_events (es_append_event (as_event_store svc) (accepted_event t command)) w of
        (r, w1) \<Rightarrow> (raise_or r (\<lambda>_. SP_Resume accepted), w1))"
| "submit_step svc now command (SP_Resume accepted) w =
     (case resume_task (as_resume_service svc) command accepted w of
        (Inl e, w1) \<Rightarrow>
          (if is_exception e
           then (SP_Done (Inr (action_result command SA_ACCEPTED)),
                 increment_counter ''actions_accepted_total''
                   (increment_counter ''actions_resume_pending_total'' w1))
           else (SP_Done (Inl e), w1))
      | (Inr _, w1) \<Rightarrow> (SP_Mark, w1))"
| "submit_step svc now command SP_Mark w =
     (case on_suspensions (ss_mark_resume_dispatched (as_suspension_store svc)
             (sc_task_id command) (sc_suspend_id command)) w of
        (Inl e, w1) \<Rightarrow> (SP_Done (Inl e), w1)
      | (Inr _, w1) \<Rightarrow> (SP_Done (Inr (action_result command SA_ACCEPTED)),
                       increment_counter ''actions_accepted_total'' w1))"
| "submit_step svc now command (SP_Done r) w = (SP_Done r, w)"

text \<open>A request on its own; step \<open>n\<close> reads the clock as \<open>clock n\<close>.\<close>

fun submit_run ::
  "('r, 'v, 'p, 'c, 'h) action_service \<Rightarrow> (nat \<Rightarrow> datetime) \<Rightarrow> submit_action_command \<Rightarrow> nat
    \<Rightarrow> submit_pc \<times> ('r, 'v, 'p, 'c, 'h) world \<Rightarrow> submit_pc \<times> ('r, 'v, 'p, 'c, 'h) world" where
  "submit_run svc clock command 0 s = s"
| "submit_run svc clock command (Suc n) (pc, w) =
     submit_run svc (\<lambda>k. clock (Suc k)) command n (submit_step svc (clock 0) command pc w)"

lemma submit_run_Done [simp]: "submit_run svc clock command n (SP_Done r, w) = (SP_Done r, w)"
  by (induction n arbitrary: clock) simp_all

text \<open>The part after the accept, then the whole method.\<close>

lemma submit_run_save:
  "submit_run svc clock command (Suc (Suc (Suc (Suc n)))) (SP_Save accepted, w) =
     (case finish_accept svc (clock 0) command accepted w of (r, w') \<Rightarrow> (SP_Done r, w'))"
  unfolding finish_accept_def
  by (auto simp: raise_or_def split: prod.splits sum.splits effect_splits)

lemma submit_run_lost:
  "submit_run svc clock command (Suc (Suc n)) (SP_LostSusp, w) = (SP_Done (lost_race svc command w), w)"
  by (auto simp: raise_or_def lost_race_def split: sum.splits)

lemma submit_run_checks:
  "submit_run svc clock command (Suc (Suc (Suc n))) (SP_Task, w) =
     (case submit_checks svc command w of
        Inl e \<Rightarrow> (SP_Done (Inl e), w)
      | Inr (Some r) \<Rightarrow> (SP_Done (Inr r), w)
      | Inr None \<Rightarrow> submit_run svc (\<lambda>k. clock (k + 3)) command n (SP_Accept, w))"
  by (auto simp: raise_or_def submit_checks_def numeral_3_eq_3 split: sum.splits option.splits)

lemma submit_run_accept:
  "submit_run svc clock command (Suc (Suc (Suc (Suc (Suc n))))) (SP_Accept, w) =
     (case and_then (on_suspensions (ss_accept_action_if_open (as_suspension_store svc) (clock 0)
                      (sc_task_id command) (sc_suspend_id command) (sc_client_action_id command)) w)
            (\<lambda>accepted w1.
               case accepted of
                 None \<Rightarrow> (lost_race svc command w1, w1)
               | Some record \<Rightarrow> finish_accept svc (clock 1) command record w1) of
        (r, w') \<Rightarrow> (SP_Done r, w'))"
  by (cases "on_suspensions (ss_accept_action_if_open (as_suspension_store svc) (clock 0)
        (sc_task_id command) (sc_suspend_id command) (sc_client_action_id command)) w")
    (auto simp: raise_or_def submit_run_lost submit_run_save simp del: submit_run.simps(2)
      simp: submit_run.simps(2) [where pc = SP_Accept] split: sum.splits option.splits)

lemma submit_run_eq:
  assumes "8 \<le> n"
  shows "submit_run svc clock command n (SP_Task, w) =
    (case submit_action svc (clock 3) (clock 4) command w of (r, w') \<Rightarrow> (SP_Done r, w'))"
proof -
  obtain m where n: "n = Suc (Suc (Suc (Suc (Suc (Suc (Suc (Suc m)))))))"
    using assms by (auto simp: le_iff_add eval_nat_numeral)
  have "submit_run svc (\<lambda>k. clock (k + 3)) command (Suc (Suc (Suc (Suc (Suc m))))) (SP_Accept, w) =
    (case submit_action svc (clock 3) (clock 4) command w of (r, w') \<Rightarrow> (SP_Done r, w'))"
    if "submit_checks svc command w = Inr None"
    unfolding submit_run_accept using that by (simp add: submit_action_def cong: option.case_cong)
  then show ?thesis unfolding n submit_run_checks
    by (auto simp: submit_action_def split: sum.splits option.splits)
qed

section \<open>Many requests and the rest of the host\<close>

text \<open>
  The requests in flight or finished, by an id of their own, and the world. Beside the steps of
  requests: the retention service's two writes, the reconciliation's mark, the host opening a
  suspension under a key not used before, and anything the host does to the other stores.
\<close>

record ('r, 'v, 'p, 'c, 'h) action_system =
  sy_world :: "('r, 'v, 'p, 'c, 'h) world"
  sy_requests :: "nat \<Rightarrow> (submit_action_command \<times> submit_pc) option"

definition fresh_suspension :: "task_suspension_record \<Rightarrow> bool" where
  "fresh_suspension r \<longleftrightarrow> su_status r = SUS_OPEN \<and> su_successful_action_id r = None
     \<and> su_resume_handoff_status r = RH_NONE"

inductive action_step ::
  "('r, 'v, 'p, 'c, 'h) action_service \<Rightarrow> ('p \<Rightarrow> bool) \<Rightarrow> ('p \<Rightarrow> string \<times> string \<Rightarrow> task_suspension_record option)
    \<Rightarrow> ('r, 'v, 'p, 'c, 'h) action_system \<Rightarrow> ('r, 'v, 'p, 'c, 'h) action_system \<Rightarrow> bool"
  for svc svalid susp where
  request: "sy_requests s i = None
    \<Longrightarrow> action_step svc svalid susp s (s\<lparr>sy_requests := (sy_requests s)(i \<mapsto> (command, SP_Task))\<rparr>)"
| step: "sy_requests s i = Some (command, pc) \<Longrightarrow> submit_step svc now command pc (sy_world s) = (pc', w')
    \<Longrightarrow> action_step svc svalid susp s
          \<lparr>sy_world = w', sy_requests = (sy_requests s)(i \<mapsto> (command, pc'))\<rparr>"
| expire: "on_suspensions (ss_expire_open_suspensions (as_suspension_store svc) now) (sy_world s) = (r, w')
    \<Longrightarrow> action_step svc svalid susp s (s\<lparr>sy_world := w'\<rparr>)"
| prune: "on_receipts (rs_delete_expired_receipts (as_receipt_store svc) now) (sy_world s) = (r', w')
    \<Longrightarrow> action_step svc svalid susp s (s\<lparr>sy_world := w'\<rparr>)"
| mark: "on_suspensions (ss_mark_resume_dispatched (as_suspension_store svc) t u) (sy_world s) = (r'', w')
    \<Longrightarrow> action_step svc svalid susp s (s\<lparr>sy_world := w'\<rparr>)"
| suspend: "susp (w_suspensions (sy_world s)) (su_task_id r, su_suspend_id r) = None \<Longrightarrow> fresh_suspension r
    \<Longrightarrow> svalid p' \<Longrightarrow> susp p' = (susp (w_suspensions (sy_world s)))((su_task_id r, su_suspend_id r) \<mapsto> r)
    \<Longrightarrow> action_step svc svalid susp s (s\<lparr>sy_world := (sy_world s)\<lparr>w_suspensions := p'\<rparr>\<rparr>)"
| host: "w_suspensions w' = w_suspensions (sy_world s) \<Longrightarrow> w_receipts w' = w_receipts (sy_world s)
    \<Longrightarrow> action_step svc svalid susp s (s\<lparr>sy_world := w'\<rparr>)"

text \<open>What a host's resume hook must leave alone.\<close>

definition resume_keeps_stores :: "('r, 'v, 'p, 'c, 'h) resume_service \<Rightarrow> bool" where
  "resume_keeps_stores rs \<longleftrightarrow>
     (\<forall>command suspension w. w_suspensions (snd (resume_task rs command suspension w)) = w_suspensions w
        \<and> w_receipts (snd (resume_task rs command suspension w)) = w_receipts w)"

lemma default_resume_keeps: "resume_keeps_stores DefaultResume"
  by (simp add: resume_keeps_stores_def)

text \<open>The program counters of a request that has won its suspension, and of one with a receipt.\<close>

fun has_won :: "submit_pc \<Rightarrow> bool" where
  "has_won (SP_Save s) = True"
| "has_won (SP_Append t s) = True"
| "has_won (SP_Resume s) = True"
| "has_won SP_Mark = True"
| "has_won (SP_Done (Inr r)) = (sr_status r = SA_ACCEPTED)"
| "has_won _ = False"

fun has_receipt :: "submit_pc \<Rightarrow> bool" where
  "has_receipt (SP_Append t s) = True"
| "has_receipt (SP_Resume s) = True"
| "has_receipt SP_Mark = True"
| "has_receipt (SP_Done (Inr r)) = (sr_status r = SA_ACCEPTED)"
| "has_receipt _ = False"

definition suspension_key :: "submit_action_command \<Rightarrow> string \<times> string" where
  "suspension_key command = (sc_task_id command, sc_suspend_id command)"

definition receipt_key :: "submit_action_command \<Rightarrow> string \<times> string" where
  "receipt_key command = (sc_task_id command, sc_client_action_id command)"

definition action_inv ::
  "('p \<Rightarrow> bool) \<Rightarrow> ('p \<Rightarrow> string \<times> string \<Rightarrow> task_suspension_record option)
    \<Rightarrow> ('c \<Rightarrow> bool) \<Rightarrow> ('c \<Rightarrow> string \<times> string \<Rightarrow> task_action_receipt option)
    \<Rightarrow> ('r, 'v, 'p, 'c, 'h) action_system \<Rightarrow> bool" where
  "action_inv svalid susp cvalid receipts s \<longleftrightarrow>
     svalid (w_suspensions (sy_world s)) \<and> cvalid (w_receipts (sy_world s))
     \<and> (\<forall>k r. receipts (w_receipts (sy_world s)) k = Some r \<longrightarrow> re_expires_at r = None)
     \<and> (\<forall>i command pc. sy_requests s i = Some (command, pc) \<longrightarrow> has_won pc \<longrightarrow>
          (\<exists>r. susp (w_suspensions (sy_world s)) (suspension_key command) = Some r
             \<and> su_status r = SUS_RESOLVED
             \<and> su_successful_action_id r = Some (sc_client_action_id command)))
     \<and> (\<forall>i command pc. sy_requests s i = Some (command, pc) \<longrightarrow> has_receipt pc \<longrightarrow>
          receipts (w_receipts (sy_world s)) (receipt_key command) \<noteq> None)
     \<and> (\<forall>i j command command' pc pc'. sy_requests s i = Some (command, pc) \<longrightarrow>
          sy_requests s j = Some (command', pc') \<longrightarrow> has_won pc \<longrightarrow> has_won pc' \<longrightarrow>
          suspension_key command = suspension_key command' \<longrightarrow> i = j)"

lemma early_not_accepted:
  "check_receipt svc command task suspension receipt = Inr (Some r) \<Longrightarrow> sr_status r \<noteq> SA_ACCEPTED"
  "lost_receipt command receipt = Inr r \<Longrightarrow> sr_status r \<noteq> SA_ACCEPTED"
  "sr_status (lost_other command current) \<noteq> SA_ACCEPTED"
  by (auto simp: check_receipt_def lost_receipt_def lost_other_def action_result_def
      split: option.splits if_splits sum.splits)

lemma has_won_Done: "has_won (SP_Done r) \<longleftrightarrow> (\<exists>a. r = Inr a \<and> sr_status a = SA_ACCEPTED)"
  "has_receipt (SP_Done r) \<longleftrightarrow> (\<exists>a. r = Inr a \<and> sr_status a = SA_ACCEPTED)"
  by (cases r; simp)+

locale suspended_actions =
  sus: suspension_store sops svalid susp + rcp: action_receipt_store cops cvalid receipts
  for sops :: "'p suspension_store_ops" and svalid and susp
    and cops :: "'c action_receipt_store_ops" and cvalid and receipts
begin

text \<open>What one step of a request does to the two stores and to its own standing.\<close>

lemma submit_step_cases:
  assumes stores: "as_suspension_store svc = sops" "as_receipt_store svc = cops"
    and keeps: "resume_keeps_stores (as_resume_service svc)"
    and v: "svalid (w_suspensions w)" "cvalid (w_receipts w)"
    and run: "submit_step svc now command pc w = (pc', w')"
  obtains (quiet) "w_suspensions w' = w_suspensions w" "w_receipts w' = w_receipts w"
      "has_won pc' \<Longrightarrow> has_won pc" "has_receipt pc' \<Longrightarrow> has_receipt pc"
  | (win) r where "pc = SP_Accept" "susp (w_suspensions w) (suspension_key command) = Some r"
      "su_status r = SUS_OPEN" "svalid (w_suspensions w')"
      "susp (w_suspensions w') = (susp (w_suspensions w))(suspension_key command \<mapsto>
         resolve_suspension now (sc_client_action_id command) r)"
      "w_receipts w' = w_receipts w" "\<not> has_receipt pc'"
  | (save) a where "pc' = SP_Append now a" "has_won pc" "w_suspensions w' = w_suspensions w"
      "cvalid (w_receipts w')"
      "receipts (w_receipts w') = (receipts (w_receipts w))(receipt_key command \<mapsto> accepted_receipt now command)"
  | (mark) r where "has_won pc" "has_receipt pc" "susp (w_suspensions w) (suspension_key command) = Some r"
      "svalid (w_suspensions w')" "w_receipts w' = w_receipts w"
      "susp (w_suspensions w') = (susp (w_suspensions w))(suspension_key command \<mapsto>
         r\<lparr>su_resume_handoff_status := RH_DISPATCHED\<rparr>)"
proof (cases pc)
  case SP_Task
  with run show thesis by (intro quiet) (auto simp: raise_or_def split: sum.splits)
next
  case (SP_Susp t)
  with run show thesis by (intro quiet) (auto simp: raise_or_def split: sum.splits)
next
  case (SP_Receipt t s)
  with run show thesis
    by (intro quiet)
      (auto simp: raise_or_def early_not_accepted split: sum.splits option.splits)
next
  case SP_LostSusp
  with run show thesis
    by (intro quiet) (auto simp: raise_or_def early_not_accepted split: sum.splits if_splits)
next
  case SP_LostReceipt
  with run show thesis
    by (intro quiet) (auto simp: raise_or_def has_won_Done early_not_accepted split: sum.splits)
next
  case SP_Accept
  show thesis
  proof (cases "\<exists>r. susp (w_suspensions w) (suspension_key command) = Some r \<and> su_status r = SUS_OPEN")
    case True
    then obtain r where r: "susp (w_suspensions w) (suspension_key command) = Some r" "su_status r = SUS_OPEN"
      by blast
    from sus.accept_open [OF v(1) r [unfolded suspension_key_def], of now "sc_client_action_id command"]
    show thesis using run SP_Accept stores
      by (intro win [OF SP_Accept r])
        (auto simp: on_suspensions_def raise_or_def suspension_key_def)
  next
    case False
    from sus.accept_closed [OF v(1), of "sc_task_id command" "sc_suspend_id command" now
        "sc_client_action_id command"] False
    have "ss_accept_action_if_open sops now (sc_task_id command) (sc_suspend_id command)
        (sc_client_action_id command) (w_suspensions w) = (Inr None, w_suspensions w)"
      by (auto simp: suspension_key_def)
    then show thesis using run SP_Accept stores
      by (intro quiet) (auto simp: on_suspensions_def raise_or_def)
  qed
next
  case (SP_Save a)
  from rcp.save_law [OF v(2), of "accepted_receipt now command"] run SP_Save stores show thesis
    by (intro save [of a]) (auto simp: on_receipts_def raise_or_def receipt_key_def accepted_receipt_def)
next
  case (SP_Append t a)
  with run show thesis
    by (intro quiet) (auto simp: on_events_def raise_or_def split: prod.splits sum.splits)
next
  case (SP_Resume a)
  obtain r2 w2 where res: "resume_task (as_resume_service svc) command a w = (r2, w2)"
    by (cases "resume_task (as_resume_service svc) command a w")
  with keeps have "w_suspensions w2 = w_suspensions w" "w_receipts w2 = w_receipts w"
    unfolding resume_keeps_stores_def by (metis snd_conv)+
  with res run SP_Resume show thesis by (intro quiet) (auto split: sum.splits if_splits)
next
  case SP_Mark
  show thesis
  proof (cases "susp (w_suspensions w) (suspension_key command)")
    case None
    from sus.mark_missing [OF v(1) None [unfolded suspension_key_def]] run SP_Mark stores show thesis
      by (intro quiet) (auto simp: on_suspensions_def)
  next
    case (Some r)
    from sus.mark_law [OF v(1) Some [unfolded suspension_key_def]] run SP_Mark stores show thesis
      by (intro mark [OF _ _ Some]) (auto simp: on_suspensions_def suspension_key_def)
  qed
next
  case (SP_Done r)
  with run show thesis by (intro quiet) auto
qed

lemma action_invD:
  assumes "action_inv svalid susp cvalid receipts s"
  shows "svalid (w_suspensions (sy_world s))" "cvalid (w_receipts (sy_world s))"
    and "receipts (w_receipts (sy_world s)) k = Some rc \<Longrightarrow> re_expires_at rc = None"
    and "sy_requests s i = Some (command, pc) \<Longrightarrow> has_won pc \<Longrightarrow>
      \<exists>r. susp (w_suspensions (sy_world s)) (suspension_key command) = Some r
         \<and> su_status r = SUS_RESOLVED \<and> su_successful_action_id r = Some (sc_client_action_id command)"
    and "sy_requests s i = Some (command, pc) \<Longrightarrow> has_receipt pc \<Longrightarrow>
      receipts (w_receipts (sy_world s)) (receipt_key command) \<noteq> None"
    and "sy_requests s i = Some (command, pc) \<Longrightarrow> sy_requests s j = Some (command', pc') \<Longrightarrow>
      has_won pc \<Longrightarrow> has_won pc' \<Longrightarrow> suspension_key command = suspension_key command' \<Longrightarrow> i = j"
  using assms unfolding action_inv_def by blast+

text \<open>Whoever writes to the stores: a resolution stays, and no receipt goes.\<close>

lemma action_inv_world:
  assumes inv: "action_inv svalid susp cvalid receipts s"
    and "svalid (w_suspensions w')" "cvalid (w_receipts w')"
    and "\<And>k r. susp (w_suspensions (sy_world s)) k = Some r \<Longrightarrow> su_status r = SUS_RESOLVED \<Longrightarrow>
      \<exists>r'. susp (w_suspensions w') k = Some r' \<and> su_status r' = SUS_RESOLVED
         \<and> su_successful_action_id r' = su_successful_action_id r"
    and "\<And>k. receipts (w_receipts (sy_world s)) k \<noteq> None \<Longrightarrow> receipts (w_receipts w') k \<noteq> None"
    and "\<And>k r. receipts (w_receipts w') k = Some r \<Longrightarrow> re_expires_at r = None"
  shows "action_inv svalid susp cvalid receipts (s\<lparr>sy_world := w'\<rparr>)"
  unfolding action_inv_def
proof (intro conjI allI impI; simp)
  show "svalid (w_suspensions w')" "cvalid (w_receipts w')" by fact+
  show "receipts (w_receipts w') k = Some r \<Longrightarrow> re_expires_at r = None" for k r by fact
next
  fix i command pc
  assume *: "sy_requests s i = Some (command, pc)" "has_won pc"
  from action_invD(4) [OF inv *] obtain r where
    "susp (w_suspensions (sy_world s)) (suspension_key command) = Some r" "su_status r = SUS_RESOLVED"
    "su_successful_action_id r = Some (sc_client_action_id command)" by blast
  with assms(4) [OF this(1,2)]
  show "\<exists>r. susp (w_suspensions w') (suspension_key command) = Some r
      \<and> su_status r = SUS_RESOLVED \<and> su_successful_action_id r = Some (sc_client_action_id command)"
    by auto
next
  fix i command pc
  assume "sy_requests s i = Some (command, pc)" "has_receipt pc"
  from assms(5) [OF action_invD(5) [OF inv this]]
  show "\<exists>y. receipts (w_receipts w') (receipt_key command) = Some y" by simp
next
  fix i j command command' pc pc'
  assume "sy_requests s i = Some (command, pc)" "sy_requests s j = Some (command', pc')"
    "has_won pc" "has_won pc'" "suspension_key command = suspension_key command'"
  then show "i = j" by (rule action_invD(6) [OF inv])
qed

text \<open>A request's standing changes after its own write.\<close>

lemma action_inv_request:
  assumes inv: "action_inv svalid susp cvalid receipts s"
    and pc: "has_won pc' \<Longrightarrow>
      (\<exists>r. susp (w_suspensions (sy_world s)) (suspension_key command) = Some r
         \<and> su_status r = SUS_RESOLVED \<and> su_successful_action_id r = Some (sc_client_action_id command))
      \<and> (\<forall>j command' q. j \<noteq> i \<longrightarrow> sy_requests s j = Some (command', q) \<longrightarrow> has_won q \<longrightarrow>
           suspension_key command' \<noteq> suspension_key command)"
    and "has_receipt pc' \<Longrightarrow> receipts (w_receipts (sy_world s)) (receipt_key command) \<noteq> None"
  shows "action_inv svalid susp cvalid receipts
    (s\<lparr>sy_requests := (sy_requests s)(i \<mapsto> (command, pc'))\<rparr>)"
proof -
  let ?s = "s\<lparr>sy_requests := (sy_requests s)(i \<mapsto> (command, pc'))\<rparr>"
  have req: "sy_requests ?s j = Some (c, q) \<longleftrightarrow>
      (if j = i then c = command \<and> q = pc' else sy_requests s j = Some (c, q))" for j c q by auto
  show ?thesis unfolding action_inv_def
  proof (intro conjI allI impI)
    show "svalid (w_suspensions (sy_world ?s))" "cvalid (w_receipts (sy_world ?s))"
      using action_invD(1,2) [OF inv] by simp_all
    show "receipts (w_receipts (sy_world ?s)) k = Some r \<Longrightarrow> re_expires_at r = None" for k r
      using action_invD(3) [OF inv] by simp
  next
    fix j c q
    assume "sy_requests ?s j = Some (c, q)" "has_won q"
    then show "\<exists>r. susp (w_suspensions (sy_world ?s)) (suspension_key c) = Some r
      \<and> su_status r = SUS_RESOLVED \<and> su_successful_action_id r = Some (sc_client_action_id c)"
      unfolding req using pc action_invD(4) [OF inv, of j c q] by (auto split: if_splits)
  next
    fix j c q
    assume "sy_requests ?s j = Some (c, q)" "has_receipt q"
    then show "receipts (w_receipts (sy_world ?s)) (receipt_key c) \<noteq> None"
      unfolding req using assms(3) action_invD(5) [OF inv, of j c q] by (auto split: if_splits)
  next
    fix j l c c' q q'
    assume *: "sy_requests ?s j = Some (c, q)" "sy_requests ?s l = Some (c', q')" "has_won q"
      "has_won q'" "suspension_key c = suspension_key c'"
    show "j = l"
    proof (cases "j = i \<or> l = i")
      case True
      then show ?thesis using *(1-2) pc *(3-) unfolding req by (auto split: if_splits)
    next
      case False
      with * show ?thesis unfolding req using action_invD(6) [OF inv, of j c q l c' q'] by simp
    qed
  qed
qed

lemma action_inv_submit:
  assumes stores: "as_suspension_store svc = sops" "as_receipt_store svc = cops"
    and keeps: "resume_keeps_stores (as_resume_service svc)"
    and inv: "action_inv svalid susp cvalid receipts s"
    and i: "sy_requests s i = Some (command, pc)"
    and run: "submit_step svc now command pc (sy_world s) = (pc', w')"
  shows "action_inv svalid susp cvalid receipts
    \<lparr>sy_world = w', sy_requests = (sy_requests s)(i \<mapsto> (command, pc'))\<rparr>"
proof -
  note v = action_invD(1,2) [OF inv]
  let ?w = "sy_world s" and ?s = "s\<lparr>sy_world := w'\<rparr>"
  have eq: "\<lparr>sy_world = w', sy_requests = (sy_requests s)(i \<mapsto> (command, pc'))\<rparr>
    = ?s\<lparr>sy_requests := (sy_requests ?s)(i \<mapsto> (command, pc'))\<rparr>" by simp
  have others: "suspension_key c \<noteq> suspension_key command"
    if "has_won pc" "j \<noteq> i" "sy_requests s j = Some (c, q)" "has_won q" for j c q
    using action_invD(6) [OF inv that(3) i] that by blast
  from stores keeps v run
  have "action_inv svalid susp cvalid receipts (?s\<lparr>sy_requests := (sy_requests ?s)(i \<mapsto> (command, pc'))\<rparr>)"
  proof (cases rule: submit_step_cases)
    case quiet
    have "action_inv svalid susp cvalid receipts ?s"
      by (rule action_inv_world [OF inv])
        (use quiet v action_invD(3) [OF inv] in auto)
    then show ?thesis
      by (rule action_inv_request)
        (use quiet action_invD(4,5) [OF inv i] others in auto)
  next
    case (win r)
    have "action_inv svalid susp cvalid receipts ?s"
      by (rule action_inv_world [OF inv]) (use win v action_invD(3) [OF inv] in auto)
    moreover have "suspension_key c \<noteq> suspension_key command"
      if "sy_requests s j = Some (c, q)" "has_won q" for j c q
      using action_invD(4) [OF inv that] win by auto
    ultimately show ?thesis
      by (intro action_inv_request) (use win in \<open>auto simp: resolve_suspension_def\<close>)
  next
    case (save a)
    have "action_inv svalid susp cvalid receipts ?s"
      by (rule action_inv_world [OF inv])
        (use save v action_invD(3) [OF inv] in \<open>auto simp: accepted_receipt_def split: if_splits\<close>)
    then show ?thesis
      by (rule action_inv_request)
        (use save action_invD(4) [OF inv i] others in auto)
  next
    case (mark r)
    from action_invD(4) [OF inv i mark(1)] mark(3) have r: "su_status r = SUS_RESOLVED"
      "su_successful_action_id r = Some (sc_client_action_id command)" by auto
    have "action_inv svalid susp cvalid receipts ?s"
      by (rule action_inv_world [OF inv]) (use mark r v action_invD(3) [OF inv] in auto)
    then show ?thesis
      by (rule action_inv_request)
        (use mark r action_invD(5) [OF inv i] others in auto)
  qed
  then show ?thesis unfolding eq .
qed

lemma action_inv_step:
  assumes stores: "as_suspension_store svc = sops" "as_receipt_store svc = cops"
    and keeps: "resume_keeps_stores (as_resume_service svc)"
    and inv: "action_inv svalid susp cvalid receipts s"
    and step: "action_step svc svalid susp s s'"
  shows "action_inv svalid susp cvalid receipts s'"
  using step
proof cases
  case (request i command)
  then show ?thesis using action_inv_request [OF inv, of SP_Task] by simp
next
  case (step i command pc now pc' w')
  then show ?thesis using action_inv_submit [OF stores keeps inv] by blast
next
  case (expire now r w')
  from sus.expire_law [OF action_invD(1) [OF inv], of now] obtain n p where
    p: "ss_expire_open_suspensions sops now (w_suspensions (sy_world s)) = (Inr n, p)" "svalid p"
    "susp p = (\<lambda>k. map_option (expire_if_overdue now) (susp (w_suspensions (sy_world s)) k))" by blast
  have "w' = (sy_world s)\<lparr>w_suspensions := p\<rparr>"
    using expire p stores by (simp add: on_suspensions_def)
  with p expire action_invD(1-3) [OF inv] show ?thesis
    by (auto intro!: action_inv_world [OF inv] simp: expire_if_overdue_def is_overdue_def)
next
  case (prune now r w')
  from rcp.delete_law [OF action_invD(2) [OF inv], of now] obtain n p where
    p: "rs_delete_expired_receipts cops now (w_receipts (sy_world s)) = (Inr n, p)" "cvalid p"
    "receipts p = (\<lambda>k. case receipts (w_receipts (sy_world s)) k of None \<Rightarrow> None
        | Some r \<Rightarrow> if receipt_expired now r then None else Some r)" by blast
  have "receipts p = receipts (w_receipts (sy_world s))"
    unfolding p(3) using action_invD(3) [OF inv]
    by (auto simp: fun_eq_iff receipt_expired_def split: option.splits)
  moreover have "w' = (sy_world s)\<lparr>w_receipts := p\<rparr>"
    using prune p stores by (simp add: on_receipts_def)
  ultimately show ?thesis using p(2) prune action_invD(1-3) [OF inv]
    by (auto intro!: action_inv_world [OF inv])
next
  case (mark t u r w')
  show ?thesis
  proof (cases "susp (w_suspensions (sy_world s)) (t, u)")
    case None
    from sus.mark_missing [OF action_invD(1) [OF inv] None] mark stores
    have "w' = sy_world s" by (simp add: on_suspensions_def)
    with mark inv show ?thesis by simp
  next
    case (Some q)
    from sus.mark_law [OF action_invD(1) [OF inv] Some] obtain p where
      p: "ss_mark_resume_dispatched sops t u (w_suspensions (sy_world s))
            = (Inr (q\<lparr>su_resume_handoff_status := RH_DISPATCHED\<rparr>), p)" "svalid p"
      "susp p = (susp (w_suspensions (sy_world s)))((t, u) \<mapsto> q\<lparr>su_resume_handoff_status := RH_DISPATCHED\<rparr>)"
      by blast
    have "w' = (sy_world s)\<lparr>w_suspensions := p\<rparr>"
      using mark p stores by (simp add: on_suspensions_def)
    with p Some mark action_invD(1-3) [OF inv] show ?thesis
      by (auto intro!: action_inv_world [OF inv])
  qed
next
  case (suspend r p')
  then show ?thesis using action_invD(1-3) [OF inv]
    by (auto intro!: action_inv_world [OF inv])
next
  case (host w')
  then show ?thesis using action_invD(1-3) [OF inv]
    by (auto intro!: action_inv_world [OF inv])
qed

end

end
