(* ===== verification/ActionProperties.thy ===== *)
theory ActionProperties
  imports ActionInterleaving Samples TaskProperties
begin

text \<open>
  The contract of \<open>submit_action\<close> as a function on the two maps it writes, the refinement of
  the code to it, and the properties of the interleaved system, read on the in-memory stores
  of the example host through the interpretation \<open>mem_actions\<close>.
\<close>

interpretation mem_actions: suspended_actions mem_suspension_store suspensions_valid dict_get
  mem_receipt_store receipts_valid dict_get
  by unfold_locales

section \<open>What one submission does\<close>

record action_view =
  av_suspensions :: "string \<times> string \<Rightarrow> task_suspension_record option"
  av_receipts :: "string \<times> string \<Rightarrow> task_action_receipt option"

text \<open>
  \<open>task\<close> is the task if the caller may see it, \<open>resumed\<close> whether the resume hook came back
  without an exception. Nothing is written on any path but the last, and that writes the
  resolution and the receipt together.
\<close>

definition submit_spec ::
  "('r, 'v, 'p, 'c, 'h) action_service \<Rightarrow> datetime \<Rightarrow> datetime \<Rightarrow> submit_action_command \<Rightarrow> bool
    \<Rightarrow> task_record option \<Rightarrow> action_view \<Rightarrow> (exc + submit_action_result) \<times> action_view" where
  "submit_spec svc accept_now now command resumed task v =
     (case task of
        None \<Rightarrow> (Inl (TaskNotFoundError (sc_task_id command)), v)
      | Some t \<Rightarrow>
          (case av_suspensions v (suspension_key command) of
             None \<Rightarrow> (Inl (TaskNotFoundError (sc_suspend_id command)), v)
           | Some s \<Rightarrow>
               (case check_suspension command s of
                  Inl e \<Rightarrow> (Inl e, v)
                | Inr _ \<Rightarrow>
                    (case check_receipt svc command t s (av_receipts v (receipt_key command)) of
                       Inl e \<Rightarrow> (Inl e, v)
                     | Inr (Some result) \<Rightarrow> (Inr result, v)
                     | Inr None \<Rightarrow>
                         (let s' = resolve_suspension accept_now (sc_client_action_id command) s
                          in (Inr (action_result command SA_ACCEPTED),
                              \<lparr>av_suspensions = (av_suspensions v)(suspension_key command \<mapsto>
                                  (if resumed then s'\<lparr>su_resume_handoff_status := RH_DISPATCHED\<rparr> else s')),
                               av_receipts = (av_receipts v)(receipt_key command \<mapsto>
                                  accepted_receipt now command)\<rparr>))))))"

lemma check_receipt_open:
  "check_receipt svc command t s receipt = Inr None \<Longrightarrow> su_status s = SUS_OPEN \<and> receipt = None"
  by (auto simp: check_receipt_def split: option.splits if_splits sum.splits)

definition view_of ::
  "('p \<Rightarrow> string \<times> string \<Rightarrow> task_suspension_record option)
    \<Rightarrow> ('c \<Rightarrow> string \<times> string \<Rightarrow> task_action_receipt option)
    \<Rightarrow> ('r, 'v, 'p, 'c, 'h) world \<Rightarrow> action_view" where
  "view_of susp receipts w =
     \<lparr>av_suspensions = susp (w_suspensions w), av_receipts = receipts (w_receipts w)\<rparr>"

context suspended_actions
begin

lemma finish_accept_view:
  assumes stores: "as_suspension_store svc = sops" "as_receipt_store svc = cops"
    and v: "svalid (w_suspensions w)" "cvalid (w_receipts w)"
    and s: "susp (w_suspensions w) (suspension_key command) = Some s'"
    and ev: "\<And>v. \<exists>e v'. es_append_event (as_event_store svc) (accepted_event now command) v = (Inr e, v')"
    and resume: "resume_keeps_stores (as_resume_service svc)"
      "\<And>w. fst (resume_task (as_resume_service svc) command accepted w) = outcome"
      "outcome \<noteq> Inl CancelledError"
  shows "\<exists>w'. finish_accept svc now command accepted w = (Inr (action_result command SA_ACCEPTED), w')
    \<and> svalid (w_suspensions w') \<and> cvalid (w_receipts w')
    \<and> susp (w_suspensions w') = (susp (w_suspensions w))(suspension_key command \<mapsto>
         (if outcome = Inr () then s'\<lparr>su_resume_handoff_status := RH_DISPATCHED\<rparr> else s'))
    \<and> receipts (w_receipts w') = (receipts (w_receipts w))(receipt_key command \<mapsto> accepted_receipt now command)"
proof -
  from rcp.save_law [OF v(2), of "accepted_receipt now command"] obtain c where
    c: "rs_save_receipt cops (accepted_receipt now command) (w_receipts w)
          = (Inr (accepted_receipt now command), c)" "cvalid c"
    "receipts c = (receipts (w_receipts w))(receipt_key command \<mapsto> accepted_receipt now command)"
    by (auto simp: receipt_key_def accepted_receipt_def)
  let ?w1 = "w\<lparr>w_receipts := c\<rparr>"
  from ev obtain e v' where e:
    "es_append_event (as_event_store svc) (accepted_event now command) (w_events w) = (Inr e, v')" by blast
  let ?w2 = "w\<lparr>w_receipts := c, w_events := v'\<rparr>"
  obtain w3 where w3: "resume_task (as_resume_service svc) command accepted ?w2 = (outcome, w3)"
    using resume(2) [of ?w2] by (cases "resume_task (as_resume_service svc) command accepted ?w2") auto
  with resume(1) have keep: "w_suspensions w3 = w_suspensions w" "w_receipts w3 = c"
    unfolding resume_keeps_stores_def by (auto dest!: spec [of _ command] spec [of _ accepted] spec [of _ ?w2])
  have fin: "finish_accept svc now command accepted w =
     (case (outcome, w3) of
        (Inl e, w3) \<Rightarrow>
          (if is_exception e
           then (Inr (action_result command SA_ACCEPTED),
                 increment_counter ''actions_accepted_total''
                   (increment_counter ''actions_resume_pending_total'' w3))
           else (Inl e, w3))
      | (Inr _, w3) \<Rightarrow>
          and_then (on_suspensions (ss_mark_resume_dispatched sops
                      (sc_task_id command) (sc_suspend_id command)) w3)
            (\<lambda>_ w4. (Inr (action_result command SA_ACCEPTED),
                     increment_counter ''actions_accepted_total'' w4)))"
    using c(1) e w3 by (simp add: finish_accept_def stores on_receipts_def on_events_def cong: sum.case_cong)
  show ?thesis
  proof (cases outcome)
    case (Inl x)
    with resume(3) have "is_exception x" by (simp add: is_exception_def)
    with Inl fin keep c v s show ?thesis by (simp add: fun_upd_idem)
  next
    case (Inr u)
    have k: "susp (w_suspensions w3) (sc_task_id command, sc_suspend_id command) = Some s'"
      using s keep by (simp add: suspension_key_def)
    from sus.mark_law [OF _ k] v(1) keep obtain p where p:
      "ss_mark_resume_dispatched sops (sc_task_id command) (sc_suspend_id command) (w_suspensions w3)
         = (Inr (s'\<lparr>su_resume_handoff_status := RH_DISPATCHED\<rparr>), p)" "svalid p"
      "susp p = (susp (w_suspensions w))(suspension_key command \<mapsto>
         s'\<lparr>su_resume_handoff_status := RH_DISPATCHED\<rparr>)" by (auto simp: suspension_key_def)
    with Inr fin keep c show ?thesis by (simp add: on_suspensions_def)
  qed
qed

text \<open>The refinement: a submission that runs alone does what the specification says.\<close>

lemma submit_action_refines:
  assumes stores: "as_suspension_store svc = sops" "as_receipt_store svc = cops"
    and v: "svalid (w_suspensions w)" "cvalid (w_receipts w)"
    and task: "get_owned_task_or_raise_not_found (as_registry svc) (as_ownership_policy svc)
        (sc_task_id command) (sc_auth_context command) (w_registry w)
      = (case task of None \<Rightarrow> Inl (TaskNotFoundError (sc_task_id command)) | Some t \<Rightarrow> Inr t)"
    and ev: "\<And>v. \<exists>e v'. es_append_event (as_event_store svc) (accepted_event now command) v = (Inr e, v')"
    and resume: "resume_keeps_stores (as_resume_service svc)"
      "\<And>s w. fst (resume_task (as_resume_service svc) command s w) = outcome"
      "outcome \<noteq> Inl CancelledError"
  shows "(case submit_action svc accept_now now command w of (r, w') \<Rightarrow> (r, view_of susp receipts w'))
    = submit_spec svc accept_now now command (outcome = Inr ()) task (view_of susp receipts w)"
proof (cases task)
  case None
  then show ?thesis using task by (simp add: submit_action_def submit_checks_def submit_spec_def)
next
  case task': (Some t)
  show ?thesis
  proof (cases "susp (w_suspensions w) (suspension_key command)")
    case None
    then show ?thesis using task' task sus.get_law [OF v(1)]
      by (simp add: submit_action_def submit_checks_def submit_spec_def stores view_of_def
          get_suspension_or_not_found_def suspension_key_def)
  next
    case s: (Some s)
    have checks: "submit_checks svc command w =
      (case check_suspension command s of
         Inl e \<Rightarrow> Inl e
       | Inr _ \<Rightarrow> check_receipt svc command t s (receipts (w_receipts w) (receipt_key command)))"
      using task' task s sus.get_law [OF v(1)] rcp.get_law [OF v(2)]
      by (simp add: submit_checks_def stores get_suspension_or_not_found_def suspension_key_def
          receipt_key_def cong: sum.case_cong)
    show ?thesis
    proof (cases "submit_checks svc command w = Inr None")
      case False
      then show ?thesis using checks task' s
        by (auto simp: submit_action_def submit_spec_def view_of_def
            split: sum.splits option.splits)
    next
      case True
      from True checks have cr: "check_suspension command s = Inr ()"
        "check_receipt svc command t s (receipts (w_receipts w) (receipt_key command)) = Inr None"
        by (auto split: sum.splits)
      from check_receipt_open [OF cr(2)] have op: "su_status s = SUS_OPEN" by simp
      let ?s' = "resolve_suspension accept_now (sc_client_action_id command) s"
      from sus.accept_open [OF v(1) s [unfolded suspension_key_def] op, of accept_now
          "sc_client_action_id command"] obtain p where p:
        "ss_accept_action_if_open sops accept_now (sc_task_id command) (sc_suspend_id command)
           (sc_client_action_id command) (w_suspensions w) = (Inr (Some ?s'), p)" "svalid p"
        "susp p = (susp (w_suspensions w))(suspension_key command \<mapsto> ?s')"
        by (auto simp: suspension_key_def)
      let ?w1 = "w\<lparr>w_suspensions := p\<rparr>"
      have "svalid (w_suspensions ?w1)" "cvalid (w_receipts ?w1)"
        "susp (w_suspensions ?w1) (suspension_key command) = Some ?s'"
        using p v by simp_all
      from finish_accept_view [OF stores this ev resume(1,2,3)] obtain w' where w':
        "finish_accept svc now command ?s' ?w1 = (Inr (action_result command SA_ACCEPTED), w')"
        "susp (w_suspensions w') = (susp p)(suspension_key command \<mapsto>
           (if outcome = Inr () then ?s'\<lparr>su_resume_handoff_status := RH_DISPATCHED\<rparr> else ?s'))"
        "receipts (w_receipts w') = (receipts (w_receipts w))(receipt_key command \<mapsto> accepted_receipt now command)"
        by auto
      have "submit_action svc accept_now now command w = (Inr (action_result command SA_ACCEPTED), w')"
        using True p(1) w'(1) by (simp add: submit_action_def stores on_suspensions_def)
      then show ?thesis using w'(2,3) p(3) task' s cr
        by (simp add: submit_spec_def view_of_def Let_def)
    qed
  qed
qed

lemma submit_known_receipt:
  assumes "as_suspension_store svc = sops" "as_receipt_store svc = cops"
    and "svalid (w_suspensions w)" "cvalid (w_receipts w)"
    and "get_owned_task_or_raise_not_found (as_registry svc) (as_ownership_policy svc)
        (sc_task_id command) (sc_auth_context command) (w_registry w) = Inr t"
    and "susp (w_suspensions w) (suspension_key command) = Some s"
    and "check_suspension command s = Inr ()"
    and "receipts (w_receipts w) (receipt_key command) = Some rc"
  shows "submit_action svc accept_now now command w =
    (if same_action_receipt rc command then (Inr (action_result command SA_DEDUPLICATED), w)
     else (Inl (conflicting_action command), w))"
  using assms sus.get_law rcp.get_law
  by (simp add: submit_action_def submit_checks_def get_suspension_or_not_found_def
      suspension_key_def receipt_key_def check_receipt_def)

lemma submit_lost_receipt:
  assumes "as_suspension_store svc = sops" "as_receipt_store svc = cops"
    and "svalid (w_suspensions w)" "cvalid (w_receipts w)"
    and "get_owned_task_or_raise_not_found (as_registry svc) (as_ownership_policy svc)
        (sc_task_id command) (sc_auth_context command) (w_registry w) = Inr t"
    and "susp (w_suspensions w) (suspension_key command) = Some s"
    and "check_suspension command s = Inr ()" "su_status s = SUS_RESOLVED"
      "su_successful_action_id s = Some (sc_client_action_id command)"
    and "receipts (w_receipts w) (receipt_key command) = None"
  shows "submit_action svc accept_now now command w = (Inl (receipt_not_available command), w)"
  using assms sus.get_law rcp.get_law
  by (simp add: submit_action_def submit_checks_def get_suspension_or_not_found_def
      suspension_key_def receipt_key_def check_receipt_def)

lemma action_reachable_inv:
  assumes stores: "as_suspension_store svc = sops" "as_receipt_store svc = cops"
    and keeps: "resume_keeps_stores (as_resume_service svc)"
    and init: "svalid (w_suspensions w0)" "cvalid (w_receipts w0)"
      "\<And>k r. receipts (w_receipts w0) k = Some r \<Longrightarrow> re_expires_at r = None"
    and reach: "(action_step svc svalid susp)\<^sup>*\<^sup>* \<lparr>sy_world = w0, sy_requests = Map.empty\<rparr> s"
  shows "action_inv svalid susp cvalid receipts s"
  using reach
proof (induction rule: rtranclp_induct)
  case base
  then show ?case using init by (simp add: action_inv_def)
next
  case (step s s')
  then show ?case using action_inv_step [OF stores keeps] by blast
qed

end

section \<open>Properties\<close>

definition mem_action_service :: "('r, 'v, suspension_dict, receipt_dict, 'h) action_service \<Rightarrow> bool" where
  "mem_action_service svc \<longleftrightarrow>
     as_suspension_store svc = mem_suspension_store \<and> as_receipt_store svc = mem_receipt_store"

definition action_start :: "('r, 'v, suspension_dict, receipt_dict, 'h) world \<Rightarrow> bool" where
  "action_start w \<longleftrightarrow> suspensions_valid (w_suspensions w) \<and> receipts_valid (w_receipts w)
     \<and> (\<forall>k r. dict_get (w_receipts w) k = Some r \<longrightarrow> re_expires_at r = None)"

lemma mem_reachable_inv:
  assumes "mem_action_service svc" "resume_keeps_stores (as_resume_service svc)" "action_start w0"
    and "(action_step svc suspensions_valid dict_get)\<^sup>*\<^sup>* \<lparr>sy_world = w0, sy_requests = Map.empty\<rparr> s"
  shows "action_inv suspensions_valid dict_get receipts_valid dict_get s"
  using assms(1,3) unfolding mem_action_service_def action_start_def
  by (intro mem_actions.action_reachable_inv [OF _ _ assms(2) _ _ _ assms(4)]) auto

text \<open>
  C1. However requests, retention, reconciliation and the host interleave, at most one request
  is ever answered ACCEPTED for a suspension, and the suspension records that request's
  action as the one that resolved it.
\<close>

theorem action_single_winner:
  assumes "mem_action_service svc" "resume_keeps_stores (as_resume_service svc)" "action_start w0"
    and "(action_step svc suspensions_valid dict_get)\<^sup>*\<^sup>* \<lparr>sy_world = w0, sy_requests = Map.empty\<rparr> s"
    and "sy_requests s i = Some (command, SP_Done (Inr r))" "sr_status r = SA_ACCEPTED"
  shows "(\<exists>q. dict_get (w_suspensions (sy_world s)) (suspension_key command) = Some q
      \<and> su_status q = SUS_RESOLVED \<and> su_successful_action_id q = Some (sc_client_action_id command))
    \<and> (\<forall>j command' r'. sy_requests s j = Some (command', SP_Done (Inr r')) \<and> sr_status r' = SA_ACCEPTED
         \<and> suspension_key command' = suspension_key command \<longrightarrow> j = i)"
proof -
  note inv = mem_reachable_inv [OF assms(1-4)]
  have won: "has_won (SP_Done (Inr r))" using assms(6) by simp
  from mem_actions.action_invD(4) [OF inv assms(5) won]
  show ?thesis
  proof (intro conjI allI impI)
    fix j command' r'
    assume j: "sy_requests s j = Some (command', SP_Done (Inr r')) \<and> sr_status r' = SA_ACCEPTED
      \<and> suspension_key command' = suspension_key command"
    then have "has_won (SP_Done (Inr r'))" by simp
    from mem_actions.action_invD(6) [OF inv _ assms(5) this won] j show "j = i" by blast
  qed
qed


text \<open>
  A request whose steps are not interleaved with anything does what \<open>submit_action\<close> does,
  in eight steps: five up to the accept and the receipt, three to the end.
\<close>

theorem submit_steps_are_submit_action:
  "submit_run svc clock command 8 (SP_Task, w) =
    (case submit_action svc (clock 3) (clock 4) command w of (r, w') \<Rightarrow> (SP_Done r, w'))"
  by (rule submit_run_eq) simp

text \<open>
  C6. A submission that runs alone is one atomic step of its specification: nothing is written
  unless the action is accepted, and then the resolution, the receipt and (if the resume hook
  came back) the dispatch mark are written together.
\<close>

theorem submit_action_meets_spec:
  assumes "mem_action_service svc" "as_registry svc = demo_registry"
    and "tasks_valid (w_registry w)" "suspensions_valid (w_suspensions w)" "receipts_valid (w_receipts w)"
    and "\<And>t e. op_assert_task_access (as_ownership_policy svc) (sc_auth_context command) t = Inl e
      \<Longrightarrow> is_permission_error e"
    and "as_event_store svc = demo_event_store"
    and "resume_keeps_stores (as_resume_service svc)"
      "\<And>s w. fst (resume_task (as_resume_service svc) command s w) = outcome"
      "outcome \<noteq> Inl CancelledError"
  shows "(case submit_action svc accept_now now command w of (r, w') \<Rightarrow> (r, view_of dict_get dict_get w'))
    = submit_spec svc accept_now now command (outcome = Inr ())
        (case dict_get (w_registry w) (sc_task_id command) of
           None \<Rightarrow> None
         | Some t \<Rightarrow> if op_assert_task_access (as_ownership_policy svc) (sc_auth_context command) t = Inr ()
                     then Some t else None)
        (view_of dict_get dict_get w)"
proof (rule mem_actions.submit_action_refines [OF _ _ assms(4,5) _ _ assms(8-10)])
  show "as_suspension_store svc = mem_suspension_store" "as_receipt_store svc = mem_receipt_store"
    using assms(1) by (simp_all add: mem_action_service_def)
  show "\<exists>e v'. es_append_event (as_event_store svc) (accepted_event now command) v = (Inr e, v')" for v
    by (simp add: assms(7) demo_event_store_def demo_append_event_def)
  show "get_owned_task_or_raise_not_found (as_registry svc) (as_ownership_policy svc)
      (sc_task_id command) (sc_auth_context command) (w_registry w)
    = (case (case dict_get (w_registry w) (sc_task_id command) of
           None \<Rightarrow> None
         | Some t \<Rightarrow> if op_assert_task_access (as_ownership_policy svc) (sc_auth_context command) t = Inr ()
                     then Some t else None) of
        None \<Rightarrow> Inl (TaskNotFoundError (sc_task_id command)) | Some t \<Rightarrow> Inr t)"
    unfolding assms(2) demo_reg.get_owned_task_eq [OF assms(3)]
    using assms(6) by (auto split: option.splits sum.splits)
qed

text \<open>
  C22. A client that repeats an accepted action, with the same id, type, payload and metadata,
  gets DEDUPLICATED and nothing is written, as long as the task and the suspension are there
  and the receipt has not been overwritten; another type, payload or metadata under the id is a
  conflict.
\<close>

theorem submit_action_retry:
  assumes "mem_action_service svc" "suspensions_valid (w_suspensions w)" "receipts_valid (w_receipts w)"
    and "get_owned_task_or_raise_not_found (as_registry svc) (as_ownership_policy svc)
        (sc_task_id command) (sc_auth_context command) (w_registry w) = Inr t"
    and "dict_get (w_suspensions w) (suspension_key command) = Some s"
    and "check_suspension command s = Inr ()"
    and "dict_get (w_receipts w) (receipt_key command) = Some (accepted_receipt now0 first)"
    and "wf_dict (sc_payload first)" "wf_dict (sc_metadata first)"
  shows "(command = first \<longrightarrow> submit_action svc accept_now now command w
            = (Inr (action_result command SA_DEDUPLICATED), w))
    \<and> (sc_action_type first \<noteq> sc_action_type command \<or> \<not> dict_eq (sc_payload first) (sc_payload command)
        \<or> \<not> dict_eq (sc_metadata first) (sc_metadata command) \<longrightarrow>
         submit_action svc accept_now now command w = (Inl (conflicting_action command), w))"
proof -
  have "submit_action svc accept_now now command w =
    (if same_action_receipt (accepted_receipt now0 first) command
     then (Inr (action_result command SA_DEDUPLICATED), w)
     else (Inl (conflicting_action command), w))"
    using assms(1) by (intro mem_actions.submit_known_receipt [OF _ _ assms(2-7)])
      (simp_all add: mem_action_service_def)
  then show ?thesis using assms(8,9)
    by (auto simp: same_action_receipt_def accepted_receipt_def dict_eq_refl)
qed

end
