(* ===== verification/Maintenance.thy ===== *)
theory Maintenance
  imports ActionProperties
begin

text \<open>
  The two services a host runs in the background, from \<open>taskbridge/services.py\<close>:
  \<open>TaskResumeReconciliationService\<close>, which hands accepted actions whose resume did not go
  through to the resume service again, and \<open>TaskRetentionService\<close>, which deletes expired
  receipts and expires overdue suspensions.
\<close>

section \<open>Reconciliation\<close>

record ('r, 'v, 'p, 'c, 'h) reconciliation_service =
  rc_receipt_store :: "'c action_receipt_store_ops"
  rc_suspension_store :: "'p suspension_store_ops"
  rc_resume_service :: "('r, 'v, 'p, 'c, 'h) resume_service"

definition receipt_command :: "task_action_receipt \<Rightarrow> submit_action_command" where
  "receipt_command receipt = \<lparr>
     sc_task_id = re_task_id receipt,
     sc_client_action_id = re_client_action_id receipt,
     sc_suspend_id = re_suspend_id receipt,
     sc_action_type = re_action_type receipt,
     sc_payload = re_payload receipt,
     sc_metadata = re_metadata receipt,
     sc_auth_context = \<lparr>ac_subject = re_actor_id receipt, ac_scopes = {}, ac_app_id = None,
                        ac_attributes = []\<rparr>\<rparr>"

text \<open>The loop over the pending hand-offs; an exception ends it.\<close>

fun reconcile_loop ::
  "('r, 'v, 'p, 'c, 'h) reconciliation_service \<Rightarrow> task_suspension_record list \<Rightarrow> nat
    \<Rightarrow> ('r, 'v, 'p, 'c, 'h) world \<Rightarrow> (exc + nat) \<times> ('r, 'v, 'p, 'c, 'h) world" where
  "reconcile_loop svc [] processed w = (Inr processed, w)"
| "reconcile_loop svc (suspension # rest) processed w =
     (case su_successful_action_id suspension of
        None \<Rightarrow> reconcile_loop svc rest processed w
      | Some action_id \<Rightarrow>
          (case rs_get_receipt (rc_receipt_store svc) (su_task_id suspension) action_id (w_receipts w) of
             Inl e \<Rightarrow> (Inl e, w)
           | Inr None \<Rightarrow> reconcile_loop svc rest processed w
           | Inr (Some receipt) \<Rightarrow>
               (if is_a2ui (re_action_type receipt) \<and> re_metadata receipt = []
                then reconcile_loop svc rest processed w
                else if is_a2ui (re_action_type receipt) \<and> is_default_resume (rc_resume_service svc)
                then (Inl (RuntimeError ''A2UI actions require a host resume service''), w)
                else and_then (resume_task (rc_resume_service svc) (receipt_command receipt) suspension w)
                  (\<lambda>_ w1.
                     and_then (on_suspensions (ss_mark_resume_dispatched (rc_suspension_store svc)
                                 (su_task_id suspension) (su_suspend_id suspension)) w1)
                       (\<lambda>_ w2. reconcile_loop svc rest (Suc processed) w2)))))"

definition reconcile_pending_resumes ::
  "('r, 'v, 'p, 'c, 'h) reconciliation_service \<Rightarrow> ('r, 'v, 'p, 'c, 'h) world
    \<Rightarrow> (exc + nat) \<times> ('r, 'v, 'p, 'c, 'h) world" where
  "reconcile_pending_resumes svc w =
     (case ss_list_pending_resume_handoffs (rc_suspension_store svc) (w_suspensions w) of
        Inl e \<Rightarrow> (Inl e, w)
      | Inr pending \<Rightarrow> reconcile_loop svc pending 0 w)"

section \<open>Retention\<close>

record ('p, 'c) retention_service =
  rt_receipt_store :: "'c action_receipt_store_ops"
  rt_suspension_store :: "'p suspension_store_ops"

text \<open>The counts it returns: expired receipts, expired suspensions. \<open>clock\<close> is read without \<open>now\<close>.\<close>

definition prune_expired_state ::
  "('p, 'c) retention_service \<Rightarrow> datetime \<Rightarrow> datetime option
    \<Rightarrow> ('r, 'v, 'p, 'c, 'h) world \<Rightarrow> (exc + nat \<times> nat) \<times> ('r, 'v, 'p, 'c, 'h) world" where
  "prune_expired_state svc clock now w =
     (let expires_before = (case now of Some t \<Rightarrow> t | None \<Rightarrow> clock) in
      and_then (on_receipts (rs_delete_expired_receipts (rt_receipt_store svc) expires_before) w)
        (\<lambda>expired_receipts w1.
           and_then (on_suspensions (ss_expire_open_suspensions (rt_suspension_store svc) expires_before) w1)
             (\<lambda>expired_suspensions w2. (Inr (expired_receipts, expired_suspensions), w2))))"

section \<open>What reconciliation does\<close>

definition record_key :: "task_suspension_record \<Rightarrow> string \<times> string" where
  "record_key s = (su_task_id s, su_suspend_id s)"

lemma record_key_fun: "record_key = (\<lambda>s. (su_task_id s, su_suspend_id s))"
  by (simp add: fun_eq_iff record_key_def)

text \<open>The hand-offs it can complete: there is a receipt, and an A2UI receipt has its metadata.\<close>

definition resumable ::
  "(string \<times> string \<Rightarrow> task_action_receipt option) \<Rightarrow> task_suspension_record \<Rightarrow> bool" where
  "resumable receipts s \<longleftrightarrow>
     (case su_successful_action_id s of
        None \<Rightarrow> False
      | Some a \<Rightarrow>
          (case receipts (su_task_id s, a) of
             None \<Rightarrow> False
           | Some rc \<Rightarrow> \<not> (is_a2ui (re_action_type rc) \<and> re_metadata rc = [])))"

definition dispatched :: "task_suspension_record \<Rightarrow> task_suspension_record" where
  "dispatched s = s\<lparr>su_resume_handoff_status := RH_DISPATCHED\<rparr>"

context suspended_actions
begin

lemma reconcile_loop_eq:
  assumes stores: "rc_suspension_store svc = sops" "rc_receipt_store svc = cops"
    and host: "\<not> is_default_resume (rc_resume_service svc)" "resume_keeps_stores (rc_resume_service svc)"
    and ok: "\<And>command s w. fst (resume_task (rc_resume_service svc) command s w) = Inr ()"
    and v: "svalid (w_suspensions w)" "cvalid (w_receipts w)"
    and pending: "distinct (map record_key pending)"
      "\<And>s. s \<in> set pending \<Longrightarrow> susp (w_suspensions w) (record_key s) = Some s"
  shows "\<exists>w'. reconcile_loop svc pending n w
      = (Inr (n + length (filter (resumable (receipts (w_receipts w))) pending)), w')
    \<and> svalid (w_suspensions w') \<and> w_receipts w' = w_receipts w
    \<and> susp (w_suspensions w') = (\<lambda>k.
         if \<exists>s \<in> set pending. record_key s = k \<and> resumable (receipts (w_receipts w)) s
         then map_option dispatched (susp (w_suspensions w) k) else susp (w_suspensions w) k)"
  using v pending
proof (induction pending arbitrary: n w)
  case Nil
  then show ?case by simp
next
  case (Cons s pending)
  let ?R = "receipts (w_receipts w)"
  have s: "susp (w_suspensions w) (record_key s) = Some s" using Cons.prems(4) by simp
  have rest: "distinct (map record_key pending)" "record_key s \<notin> record_key ` set pending"
    using Cons.prems(3) by auto
  show ?case
  proof (cases "resumable ?R s")
    case False
    then have "reconcile_loop svc (s # pending) n w = reconcile_loop svc pending n w"
      using rcp.get_law [OF Cons.prems(2)]
      by (auto simp: resumable_def stores split: option.splits)
    moreover from Cons.IH [OF Cons.prems(1,2) rest(1), of n] Cons.prems(4)
    have "\<exists>w'. reconcile_loop svc pending n w = (Inr (n + length (filter (resumable ?R) pending)), w')
      \<and> svalid (w_suspensions w') \<and> w_receipts w' = w_receipts w
      \<and> susp (w_suspensions w') = (\<lambda>k. if \<exists>s \<in> set pending. record_key s = k \<and> resumable ?R s
           then map_option dispatched (susp (w_suspensions w) k) else susp (w_suspensions w) k)"
      by simp
    ultimately show ?thesis using False by simp
  next
    case True
    then obtain a rc where a: "su_successful_action_id s = Some a" "?R (su_task_id s, a) = Some rc"
      "\<not> (is_a2ui (re_action_type rc) \<and> re_metadata rc = [])"
      by (auto simp: resumable_def split: option.splits)
    obtain w1 where w1: "resume_task (rc_resume_service svc) (receipt_command rc) s w = (Inr (), w1)"
      using ok by (metis prod.collapse)
    with host(2) have keep: "w_suspensions w1 = w_suspensions w" "w_receipts w1 = w_receipts w"
      unfolding resume_keeps_stores_def by (metis snd_conv)+
    from sus.mark_law [OF Cons.prems(1) s [unfolded record_key_def]] obtain p where
      p: "ss_mark_resume_dispatched sops (su_task_id s) (su_suspend_id s) (w_suspensions w)
            = (Inr (dispatched s), p)" "svalid p"
      "susp p = (susp (w_suspensions w))(record_key s \<mapsto> dispatched s)"
      by (auto simp: dispatched_def record_key_def)
    let ?w2 = "w1\<lparr>w_suspensions := p\<rparr>"
    have step: "reconcile_loop svc (s # pending) n w = reconcile_loop svc pending (Suc n) ?w2"
      using a w1 p(1) keep host(1) rcp.get_law [OF Cons.prems(2)]
      by (auto simp: stores on_suspensions_def)
    have "susp p (record_key s') = Some s'" if "s' \<in> set pending" for s'
    proof -
      from that rest(2) have "record_key s' \<noteq> record_key s" by (metis imageI)
      with that Cons.prems(4) p(3) show ?thesis by simp
    qed
    then obtain w' where w': "reconcile_loop svc pending (Suc n) ?w2
        = (Inr (Suc n + length (filter (resumable ?R) pending)), w')"
      "svalid (w_suspensions w')" "w_receipts w' = w_receipts w"
      "susp (w_suspensions w') = (\<lambda>k. if \<exists>s \<in> set pending. record_key s = k \<and> resumable ?R s
           then map_option dispatched (susp p k) else susp p k)"
      using Cons.IH [of ?w2 "Suc n"] p(2) keep Cons.prems(2) rest(1) by (auto cong: if_cong)
    have "susp (w_suspensions w') k = (if \<exists>s \<in> set (s # pending). record_key s = k \<and> resumable ?R s
         then map_option dispatched (susp (w_suspensions w) k) else susp (w_suspensions w) k)" for k
    proof (cases "k = record_key s")
      case k: True
      with rest(2) have "\<not> (\<exists>s \<in> set pending. record_key s = k \<and> resumable ?R s)" by (metis imageI)
      with k True s p(3) show ?thesis by (auto simp: w'(4))
    next
      case False
      then have "susp p k = susp (w_suspensions w) k"
        "(\<exists>s \<in> set (s # pending). record_key s = k \<and> resumable ?R s)
          \<longleftrightarrow> (\<exists>s \<in> set pending. record_key s = k \<and> resumable ?R s)"
        by (auto simp: p(3))
      then show ?thesis by (simp only: w'(4))
    qed
    with step w'(1-3) True show ?thesis by (intro exI [of _ w']) (simp add: fun_eq_iff)
  qed
qed

lemma reconcile_eq:
  assumes stores: "rc_suspension_store svc = sops" "rc_receipt_store svc = cops"
    and host: "\<not> is_default_resume (rc_resume_service svc)" "resume_keeps_stores (rc_resume_service svc)"
    and ok: "\<And>command s w. fst (resume_task (rc_resume_service svc) command s w) = Inr ()"
    and v: "svalid (w_suspensions w)" "cvalid (w_receipts w)"
  shows "\<exists>n w'. reconcile_pending_resumes svc w = (Inr n, w')
    \<and> svalid (w_suspensions w') \<and> w_receipts w' = w_receipts w
    \<and> n = card {k. \<exists>s. susp (w_suspensions w) k = Some s \<and> su_resume_handoff_status s = RH_PENDING
                    \<and> resumable (receipts (w_receipts w)) s}
    \<and> susp (w_suspensions w') = (\<lambda>k. map_option (\<lambda>s.
         if su_resume_handoff_status s = RH_PENDING \<and> resumable (receipts (w_receipts w)) s
         then dispatched s else s) (susp (w_suspensions w) k))"
proof -
  let ?R = "receipts (w_receipts w)" and ?S = "susp (w_suspensions w)"
  from sus.pending_law [OF v(1)] obtain rs where rs:
    "ss_list_pending_resume_handoffs sops (w_suspensions w) = Inr rs" "distinct (map record_key rs)"
    "set rs = {r. ?S (record_key r) = Some r \<and> su_resume_handoff_status r = RH_PENDING}"
    by (auto simp: record_key_fun)
  from reconcile_loop_eq [OF stores host ok v rs(2), of 0] rs(3) obtain w' where
    w': "reconcile_loop svc rs 0 w = (Inr (length (filter (resumable ?R) rs)), w')"
    "svalid (w_suspensions w')" "w_receipts w' = w_receipts w"
    "susp (w_suspensions w') = (\<lambda>k. if \<exists>s \<in> set rs. record_key s = k \<and> resumable ?R s
       then map_option dispatched (?S k) else ?S k)" by auto
  have key: "?S k = Some s \<Longrightarrow> record_key s = k" for k s
    using sus.susp_key [OF v(1)] by (simp add: record_key_def)
  have "distinct (map record_key (filter (resumable ?R) rs))"
    using rs(2) by (simp add: distinct_map_filter)
  then have "length (filter (resumable ?R) rs) = card (record_key ` set (filter (resumable ?R) rs))"
    by (metis distinct_card length_map list.set_map)
  also have "record_key ` set (filter (resumable ?R) rs) =
      {k. \<exists>s. ?S k = Some s \<and> su_resume_handoff_status s = RH_PENDING \<and> resumable ?R s}"
  proof (intro set_eqI iffI)
    fix k
    assume "k \<in> {k. \<exists>s. ?S k = Some s \<and> su_resume_handoff_status s = RH_PENDING \<and> resumable ?R s}"
    then obtain s where s: "?S k = Some s" "su_resume_handoff_status s = RH_PENDING" "resumable ?R s" by blast
    with key [OF s(1)] show "k \<in> record_key ` set (filter (resumable ?R) rs)"
      by (intro image_eqI [of _ _ s]) (auto simp: rs(3))
  qed (use key in \<open>auto simp: rs(3)\<close>)
  finally have "length (filter (resumable ?R) rs) = card \<dots>" .
  moreover have "susp (w_suspensions w') = (\<lambda>k. map_option (\<lambda>s.
         if su_resume_handoff_status s = RH_PENDING \<and> resumable ?R s
         then dispatched s else s) (?S k))"
    unfolding w'(4)
  proof
    fix k
    show "(if \<exists>s \<in> set rs. record_key s = k \<and> resumable ?R s then map_option dispatched (?S k) else ?S k)
        = map_option (\<lambda>s. if su_resume_handoff_status s = RH_PENDING \<and> resumable ?R s
            then dispatched s else s) (?S k)"
      using key by (cases "?S k") (auto simp: rs(3))
  qed
  ultimately show ?thesis using rs(1) w'(1-3) by (simp add: reconcile_pending_resumes_def stores)
qed

end

section \<open>Properties\<close>

definition mem_reconciliation ::
  "('r, 'v, suspension_dict, receipt_dict, 'h) reconciliation_service \<Rightarrow> bool" where
  "mem_reconciliation svc \<longleftrightarrow>
     rc_suspension_store svc = mem_suspension_store \<and> rc_receipt_store svc = mem_receipt_store"


text \<open>
  C27. The window between the accept and the receipt: if the process dies there, the suspension
  is resolved with no receipt. Then the client's own retry raises \<open>TaskConflictError\<close> and
  changes nothing, every other action is rejected, and reconciliation leaves the hand-off
  pending: nothing in the services gets the task going again.
\<close>

theorem lost_receipt_is_stuck:
  assumes "mem_action_service asvc" "mem_reconciliation rsvc"
    and "suspensions_valid (w_suspensions w)" "receipts_valid (w_receipts w)"
    and "dict_get (w_suspensions w) (suspension_key command) = Some s"
      "su_status s = SUS_RESOLVED" "su_successful_action_id s = Some (sc_client_action_id command)"
    and "dict_get (w_receipts w) (receipt_key command) = None"
    and "get_owned_task_or_raise_not_found (as_registry asvc) (as_ownership_policy asvc)
        (sc_task_id command) (sc_auth_context command) (w_registry w) = Inr t"
      "check_suspension command s = Inr ()"
    and "\<not> is_default_resume (rc_resume_service rsvc)" "resume_keeps_stores (rc_resume_service rsvc)"
      "\<And>command s w. fst (resume_task (rc_resume_service rsvc) command s w) = Inr ()"
  shows "submit_action asvc accept_now now command w = (Inl (receipt_not_available command), w)
    \<and> dict_get (w_suspensions (snd (reconcile_pending_resumes rsvc w))) (suspension_key command) = Some s"
proof
  from assms(1) have a: "as_suspension_store asvc = mem_suspension_store"
    "as_receipt_store asvc = mem_receipt_store" by (simp_all add: mem_action_service_def)
  show "submit_action asvc accept_now now command w = (Inl (receipt_not_available command), w)"
    by (rule mem_actions.submit_lost_receipt [OF a assms(3,4,9,5,10,6,7,8)])
  from assms(2) have r: "rc_suspension_store rsvc = mem_suspension_store"
    "rc_receipt_store rsvc = mem_receipt_store" by (simp_all add: mem_reconciliation_def)
  have "su_task_id s = sc_task_id command"
    using mem_susp.susp_key [OF assms(3,5)] by (simp add: suspension_key_def)
  then have "\<not> resumable (dict_get (w_receipts w)) s"
    using assms(7,8) by (simp add: resumable_def receipt_key_def)
  with mem_actions.reconcile_eq [OF r assms(11-13,3,4)] assms(5)
  show "dict_get (w_suspensions (snd (reconcile_pending_resumes rsvc w))) (suspension_key command) = Some s"
    by auto
qed

text \<open>
  C29. A retention run deletes exactly the receipts whose expiry is before its time and turns
  exactly the open suspensions whose expiry is before it into EXPIRED, returns both counts,
  and touches nothing else.
\<close>

theorem prune_effect:
  assumes "rt_receipt_store svc = mem_receipt_store" "rt_suspension_store svc = mem_suspension_store"
    and "suspensions_valid (w_suspensions w)" "receipts_valid (w_receipts w)"
  shows "\<exists>p c. prune_expired_state svc clock (Some now) w =
      (Inr (card {k. \<exists>r. dict_get (w_receipts w) k = Some r \<and> receipt_expired now r},
            card {k. \<exists>s. dict_get (w_suspensions w) k = Some s \<and> is_overdue now s}),
       w\<lparr>w_receipts := c, w_suspensions := p\<rparr>)
    \<and> suspensions_valid p \<and> receipts_valid c
    \<and> (\<forall>k. dict_get c k = (case dict_get (w_receipts w) k of None \<Rightarrow> None
         | Some r \<Rightarrow> if receipt_expired now r then None else Some r))
    \<and> (\<forall>k. dict_get p k = map_option (expire_if_overdue now) (dict_get (w_suspensions w) k))"
proof -
  from mem_rec.delete_law [OF assms(4), of now] obtain c where c:
    "rs_delete_expired_receipts mem_receipt_store now (w_receipts w) =
       (Inr (card {k. \<exists>r. dict_get (w_receipts w) k = Some r \<and> receipt_expired now r}), c)"
    "receipts_valid c" "dict_get c = (\<lambda>k. case dict_get (w_receipts w) k of None \<Rightarrow> None
         | Some r \<Rightarrow> if receipt_expired now r then None else Some r)" by blast
  from mem_susp.expire_law [OF assms(3), of now] obtain p where p:
    "ss_expire_open_suspensions mem_suspension_store now (w_suspensions w) =
       (Inr (card {k. \<exists>s. dict_get (w_suspensions w) k = Some s \<and> is_overdue now s}), p)"
    "suspensions_valid p"
    "dict_get p = (\<lambda>k. map_option (expire_if_overdue now) (dict_get (w_suspensions w) k))" by blast
  have "prune_expired_state svc clock (Some now) w =
      (Inr (card {k. \<exists>r. dict_get (w_receipts w) k = Some r \<and> receipt_expired now r},
            card {k. \<exists>s. dict_get (w_suspensions w) k = Some s \<and> is_overdue now s}),
       w\<lparr>w_receipts := c, w_suspensions := p\<rparr>)"
    using assms(1,2) c(1) p(1)
    by (simp add: prune_expired_state_def on_receipts_def on_suspensions_def)
  with c p show ?thesis by (intro exI [of _ p] exI [of _ c]) simp
qed

end
