(* ===== verification/ActionWitnesses.thy ===== *)
theory ActionWitnesses
  imports FakeSystem Maintenance
begin

text \<open>
  The properties of actions and of the background services, evaluated on concrete worlds: the
  sample task, suspended once, with an approval accepted, interrupted or pending.
\<close>

section \<open>Sample worlds\<close>

definition sample_suspension :: task_suspension_record where
  "sample_suspension = \<lparr>su_task_id = ''t1'', su_suspend_id = ''s1'', su_owner_id = ''demo-user'',
     su_status = SUS_OPEN, su_kind = USER_ACTION_REQUIRED, su_reason_code = ''APPROVAL'',
     su_allowed_actions = [''approve'', ''reject''], su_schema_version = 1,
     su_interaction_payload = [], su_ui_hints = [], su_resume_token = None,
     su_successful_action_id = None, su_resume_handoff_status = RH_NONE,
     su_created_at = sample_time, su_expires_at = None, su_resolved_at = None\<rparr>"

definition sample_action :: submit_action_command where
  "sample_action = \<lparr>sc_task_id = ''t1'', sc_client_action_id = ''a1'', sc_suspend_id = ''s1'',
     sc_action_type = ''approve'', sc_payload = [(''note'', JStr ''ok'')], sc_metadata = [],
     sc_auth_context = demo_auth_context\<rparr>"

definition sample_action_service ::
  "(task_dict, event_list, suspension_dict, receipt_dict, fake_state) action_service" where
  "sample_action_service = \<lparr>as_registry = demo_registry, as_suspension_store = mem_suspension_store,
     as_receipt_store = mem_receipt_store, as_event_store = demo_event_store,
     as_ownership_policy = demo_ownership_policy, as_resume_service = DefaultResume,
     as_action_validation_policy = None\<rparr>"

definition host_resume :: "('r, 'v, 'p, 'c, 'h) resume_service" where
  "host_resume = HostResume (\<lambda>command suspension w. (Inr (), w))"

definition sample_reconciliation ::
  "(task_dict, event_list, suspension_dict, receipt_dict, fake_state) reconciliation_service" where
  "sample_reconciliation = \<lparr>rc_receipt_store = mem_receipt_store,
     rc_suspension_store = mem_suspension_store, rc_resume_service = host_resume\<rparr>"

definition suspended_world :: sample_world where
  "suspended_world = created_world\<lparr>w_suspensions := [((''t1'', ''s1''), sample_suspension)]\<rparr>"

definition accepted_world :: sample_world where
  "accepted_world = snd (submit_action sample_action_service sample_time sample_time sample_action suspended_world)"

definition interrupted_world :: sample_world where
  "interrupted_world = created_world\<lparr>w_suspensions :=
     [((''t1'', ''s1''), resolve_suspension sample_time ''a1'' sample_suspension)]\<rparr>"

definition pending_world :: sample_world where
  "pending_world = interrupted_world\<lparr>w_receipts :=
     [((''t1'', ''a1''), accepted_receipt sample_time sample_action)]\<rparr>"

lemma sample_action_mem: "mem_action_service sample_action_service"
  by (simp add: mem_action_service_def sample_action_service_def)

lemma sample_action_resume: "resume_keeps_stores (as_resume_service sample_action_service)"
  by (simp add: sample_action_service_def default_resume_keeps)

lemma host_resume_facts:
  "\<not> is_default_resume host_resume" "resume_keeps_stores host_resume"
  "fst (resume_task host_resume command s w) = Inr ()"
  by (simp_all add: host_resume_def resume_keeps_stores_def)

lemma sample_worlds_valid:
  "suspensions_valid (w_suspensions suspended_world)" "receipts_valid (w_receipts suspended_world)"
  "suspensions_valid (w_suspensions interrupted_world)" "receipts_valid (w_receipts interrupted_world)"
  "suspensions_valid (w_suspensions pending_world)" "receipts_valid (w_receipts pending_world)"
  by (simp_all add: suspended_world_def interrupted_world_def pending_world_def created_world_eq
      empty_world_def suspensions_valid_def receipts_valid_def dict_ok_def dict_get_def
      sample_suspension_def resolve_suspension_def accepted_receipt_def sample_action_def)

lemma suspended_start: "action_start suspended_world"
  using sample_worlds_valid(1,2)
  by (simp add: action_start_def suspended_world_def created_world_eq empty_world_def dict_simps)

lemma sample_owned:
  "get_owned_task_or_raise_not_found demo_registry demo_ownership_policy ''t1'' demo_auth_context
     (w_registry created_world) = Inr (from_command sample_time ''t1'' sample_command)"
  by (simp add: created_world_eq get_owned_task_or_raise_not_found_def get_task_or_raise_not_found_def
      demo_registry_def demo_get_task_def dict_get_def sample_defs from_command_def)

lemma accepted_result:
  "submit_action sample_action_service sample_time sample_time sample_action suspended_world
    = (Inr (action_result sample_action SA_ACCEPTED), accepted_world)"
proof -
  have "fst (submit_action sample_action_service sample_time sample_time sample_action suspended_world)
    = Inr (action_result sample_action SA_ACCEPTED)"
    by code_simp
  then show ?thesis by (simp add: accepted_world_def prod_eq_iff)
qed

section \<open>A request in the interleaved system\<close>

text \<open>The steps of one request are steps of the system.\<close>

lemma submit_run_reachable:
  assumes "sy_requests s i = Some (command, pc)"
    and "submit_run svc clock command n (pc, sy_world s) = (pc', w')"
  shows "(action_step svc svalid susp)\<^sup>*\<^sup>* s
    \<lparr>sy_world = w', sy_requests = (sy_requests s)(i \<mapsto> (command, pc'))\<rparr>"
  using assms
proof (induction n arbitrary: s pc clock)
  case 0
  then have eq: "\<lparr>sy_world = w', sy_requests = (sy_requests s)(i \<mapsto> (command, pc'))\<rparr> = s"
    by (cases s) (simp add: fun_upd_idem)
  show ?case unfolding eq by (rule rtranclp.rtrancl_refl)
next
  case (Suc n)
  obtain pc1 w1 where s1: "submit_step svc (clock 0) command pc (sy_world s) = (pc1, w1)"
    by (cases "submit_step svc (clock 0) command pc (sy_world s)")
  let ?s1 = "\<lparr>sy_world = w1, sy_requests = (sy_requests s)(i \<mapsto> (command, pc1))\<rparr>"
  have "action_step svc svalid susp s ?s1"
    using Suc.prems(1) s1 by (rule action_step.step)
  moreover have "(action_step svc svalid susp)\<^sup>*\<^sup>* ?s1
      \<lparr>sy_world = w', sy_requests = (sy_requests ?s1)(i \<mapsto> (command, pc'))\<rparr>"
    by (rule Suc.IH [where clock = "\<lambda>k. clock (Suc k)" and pc = pc1])
      (use Suc.prems(2) s1 in \<open>simp_all\<close>)
  ultimately have "(action_step svc svalid susp)\<^sup>*\<^sup>* s
      \<lparr>sy_world = w', sy_requests = (sy_requests ?s1)(i \<mapsto> (command, pc'))\<rparr>"
    by (rule converse_rtranclp_into_rtranclp)
  then show ?case by (simp only: action_system.select_convs fun_upd_upd)
qed

definition accepted_system ::
  "(task_dict, event_list, suspension_dict, receipt_dict, fake_state) action_system" where
  "accepted_system = \<lparr>sy_world = accepted_world, sy_requests =
     [0 \<mapsto> (sample_action, SP_Done (Inr (action_result sample_action SA_ACCEPTED)))]\<rparr>"

lemma accepted_system_reachable:
  "(action_step sample_action_service suspensions_valid dict_get)\<^sup>*\<^sup>*
     \<lparr>sy_world = suspended_world, sy_requests = Map.empty\<rparr> accepted_system"
proof -
  let ?s0 = "\<lparr>sy_world = suspended_world, sy_requests = Map.empty\<rparr>"
  let ?s1 = "?s0\<lparr>sy_requests := (sy_requests ?s0)(0 \<mapsto> (sample_action, SP_Task))\<rparr>"
  have "action_step sample_action_service suspensions_valid dict_get ?s0 ?s1"
    by (rule action_step.request) simp
  moreover have "submit_run sample_action_service (\<lambda>_. sample_time) sample_action 8
      (SP_Task, suspended_world) = (SP_Done (Inr (action_result sample_action SA_ACCEPTED)), accepted_world)"
    using submit_run_eq [of 8 sample_action_service "\<lambda>_. sample_time" sample_action suspended_world]
    by (simp add: accepted_result)
  then have "(action_step sample_action_service suspensions_valid dict_get)\<^sup>*\<^sup>* ?s1
      \<lparr>sy_world = accepted_world, sy_requests = (sy_requests ?s1)(0 \<mapsto>
         (sample_action, SP_Done (Inr (action_result sample_action SA_ACCEPTED))))\<rparr>"
    by (intro submit_run_reachable) simp_all
  ultimately show ?thesis
    by (simp add: accepted_system_def converse_rtranclp_into_rtranclp)
qed

lemma accepted_request:
  "sy_requests accepted_system 0
     = Some (sample_action, SP_Done (Inr (action_result sample_action SA_ACCEPTED)))"
  "sr_status (action_result sample_action SA_ACCEPTED) = SA_ACCEPTED"
  by (simp_all add: accepted_system_def action_result_def)

section \<open>Witnesses\<close>

theorem action_single_winner_witness:
  "\<exists>q. dict_get (w_suspensions accepted_world) (''t1'', ''s1'') = Some q
     \<and> su_status q = SUS_RESOLVED \<and> su_successful_action_id q = Some ''a1''"
  using action_single_winner [OF sample_action_mem sample_action_resume suspended_start
      accepted_system_reachable accepted_request]
  by (simp add: accepted_system_def suspension_key_def sample_action_def)


theorem submit_action_meets_spec_witness:
  "(case submit_action sample_action_service sample_time sample_time sample_action suspended_world of
      (r, w') \<Rightarrow> (r, view_of dict_get dict_get w'))
    = submit_spec sample_action_service sample_time sample_time sample_action True
        (Some (from_command sample_time ''t1'' sample_command)) (view_of dict_get dict_get suspended_world)"
proof -
  have reg: "as_registry sample_action_service = demo_registry"
    "as_event_store sample_action_service = demo_event_store"
    by (simp_all add: sample_action_service_def)
  have v: "tasks_valid (w_registry suspended_world)"
    by (simp add: suspended_world_def created_world_eq empty_world_def tasks_valid_def dict_ok_def
        dict_get_def from_command_def)
  have own: "op_assert_task_access (as_ownership_policy sample_action_service) (sc_auth_context sample_action) t
      = Inl e \<Longrightarrow> is_permission_error e" for t e
    by (auto simp: sample_action_service_def demo_ownership_policy_def split: if_splits)
  have res: "fst (resume_task (as_resume_service sample_action_service) sample_action s w) = Inr ()" for s w
    by (simp add: sample_action_service_def)
  have "dict_get (w_registry suspended_world) ''t1'' = Some (from_command sample_time ''t1'' sample_command)"
    by (simp add: suspended_world_def created_world_eq empty_world_def dict_get_def)
  with submit_action_meets_spec [OF sample_action_mem reg(1) v sample_worlds_valid(1,2) own reg(2)
      sample_action_resume res, where now = sample_time and accept_now = sample_time]
  show ?thesis
    by (simp add: sample_action_def sample_action_service_def sample_defs from_command_def)
qed

theorem submit_action_retry_witness:
  "submit_action sample_action_service sample_time sample_time sample_action pending_world
    = (Inr (action_result sample_action SA_DEDUPLICATED), pending_world)"
  using submit_action_retry [OF sample_action_mem sample_worlds_valid(5,6), where command = sample_action
      and first = sample_action and t = "from_command sample_time ''t1'' sample_command"
      and s = "resolve_suspension sample_time ''a1'' sample_suspension" and ?now0.0 = sample_time
      and now = sample_time and accept_now = sample_time]
    sample_owned
  by (simp add: pending_world_def interrupted_world_def sample_action_def sample_action_service_def
      dict_get_def suspension_key_def receipt_key_def check_suspension_def resolve_suspension_def
      sample_suspension_def is_a2ui_def wf_dict_def)


theorem lost_receipt_is_stuck_witness:
  "submit_action sample_action_service sample_time sample_time sample_action interrupted_world
     = (Inl (receipt_not_available sample_action), interrupted_world)"
proof -
  have mem: "mem_reconciliation sample_reconciliation" "rc_resume_service sample_reconciliation = host_resume"
    by (simp_all add: mem_reconciliation_def sample_reconciliation_def)
  show ?thesis
    using lost_receipt_is_stuck [OF sample_action_mem mem(1) sample_worlds_valid(3,4), unfolded mem(2),
        where command = sample_action and s = "resolve_suspension sample_time ''a1'' sample_suspension"
          and t = "from_command sample_time ''t1'' sample_command" and now = sample_time
          and accept_now = sample_time, OF _ _ _ _ _ _ host_resume_facts] sample_owned
    by (simp add: interrupted_world_def sample_action_def sample_action_service_def created_world_eq
        empty_world_def dict_get_def suspension_key_def receipt_key_def check_suspension_def
        resolve_suspension_def sample_suspension_def is_a2ui_def)
qed

definition sample_retention :: "(suspension_dict, receipt_dict) retention_service" where
  "sample_retention = \<lparr>rt_receipt_store = mem_receipt_store, rt_suspension_store = mem_suspension_store\<rparr>"

theorem prune_effect_witness:
  "\<exists>p c. prune_expired_state sample_retention sample_time (Some sample_time) pending_world
      = (Inr (0, 0), pending_world\<lparr>w_receipts := c, w_suspensions := p\<rparr>)"
proof -
  have "{k. \<exists>r. dict_get (w_receipts pending_world) k = Some r \<and> receipt_expired sample_time r} = {}"
    "{k. \<exists>s. dict_get (w_suspensions pending_world) k = Some s \<and> is_overdue sample_time s} = {}"
    by (auto simp: pending_world_def interrupted_world_def dict_get_def receipt_expired_def
        accepted_receipt_def is_overdue_def resolve_suspension_def split: if_splits)
  with prune_effect [of sample_retention pending_world sample_time sample_time] sample_worlds_valid(5,6)
  show ?thesis by (auto simp: sample_retention_def)
qed

end
