(* ===== verification/JsonCodec.thy ===== *)
theory JsonCodec
  imports Json "HOL-Library.Multiset"
begin

text \<open>
  \<open>json.dumps(value, separators=(",", ":"), sort_keys=True)\<close> and \<open>json.loads\<close> as the event
  store uses them, on the values of theory Json: no floating-point numbers, strings of code
  points below 256. \<open>loads\<close> answers \<open>None\<close> where Python raises \<open>JSONDecodeError\<close>, and also
  where the text holds a float or a character outside that range.
\<close>

section \<open>Strings\<close>

definition hex_char :: "nat \<Rightarrow> char" where
  "hex_char d = (if d < 10 then char_of (48 + d) else char_of (87 + d))"

definition hex_value :: "char \<Rightarrow> nat option" where
  "hex_value c = (let n = of_char c :: nat in
     if 48 \<le> n \<and> n \<le> 57 then Some (n - 48)
     else if 97 \<le> n \<and> n \<le> 102 then Some (n - 87)
     else if 65 \<le> n \<and> n \<le> 70 then Some (n - 55)
     else None)"

definition quote :: char where "quote = CHR 0x22"
definition backslash :: char where "backslash = CHR 0x5C"

definition escape_char :: "char \<Rightarrow> string" where
  "escape_char c = (let n = of_char c :: nat in
     if c = quote then [backslash, quote]
     else if c = backslash then [backslash, backslash]
     else if n = 10 then [backslash, CHR ''n'']
     else if n = 13 then [backslash, CHR ''r'']
     else if n = 9 then [backslash, CHR ''t'']
     else if n = 12 then [backslash, CHR ''f'']
     else if n = 8 then [backslash, CHR ''b'']
     else if n < 32 \<or> 126 < n
     then [backslash, CHR ''u'', CHR ''0'', CHR ''0'', hex_char (n div 16), hex_char (n mod 16)]
     else [c])"

definition render_string :: "string \<Rightarrow> string" where
  "render_string s = quote # concat (map escape_char s) @ [quote]"

text \<open>The characters after a backslash that stand for one character.\<close>

definition unescape_char :: "char \<Rightarrow> char option" where
  "unescape_char c =
     (if c = quote \<or> c = backslash \<or> c = CHR ''/'' then Some c
      else if c = CHR ''n'' then Some (char_of (10 :: nat))
      else if c = CHR ''r'' then Some (char_of (13 :: nat))
      else if c = CHR ''t'' then Some (char_of (9 :: nat))
      else if c = CHR ''f'' then Some (char_of (12 :: nat))
      else if c = CHR ''b'' then Some (char_of (8 :: nat))
      else None)"

definition unicode_escape :: "char \<Rightarrow> char \<Rightarrow> char \<Rightarrow> char \<Rightarrow> char option" where
  "unicode_escape a b c d =
     (case (hex_value a, hex_value b, hex_value c, hex_value d) of
        (Some p, Some q, Some r, Some s) \<Rightarrow>
          (if p = 0 \<and> q = 0 then Some (char_of (16 * r + s)) else None)
      | _ \<Rightarrow> None)"

fun parse_string :: "string \<Rightarrow> (string \<times> string) option" where
  "parse_string [] = None"
| "parse_string (c # cs) =
     (if c = quote then Some ([], cs)
      else if c = backslash
      then (case cs of
              [] \<Rightarrow> None
            | e # cs1 \<Rightarrow>
                (if e = CHR ''u''
                 then (case cs1 of
                         x1 # x2 # x3 # x4 # rest \<Rightarrow>
                           (case unicode_escape x1 x2 x3 x4 of
                              None \<Rightarrow> None
                            | Some u \<Rightarrow> map_option (\<lambda>(s, r). (u # s, r)) (parse_string rest))
                       | _ \<Rightarrow> None)
                 else (case unescape_char e of
                         None \<Rightarrow> None
                       | Some u \<Rightarrow> map_option (\<lambda>(s, r). (u # s, r)) (parse_string cs1))))
      else if (of_char c :: nat) < 32 then None
      else map_option (\<lambda>(s, r). (c # s, r)) (parse_string cs))"

lemma hex_value_char: "d < 16 \<Longrightarrow> hex_value (hex_char d) = Some d"
  by (auto simp: hex_value_def hex_char_def Let_def)

lemma parse_escape_char:
  "parse_string (escape_char c @ t) = map_option (\<lambda>(s, r). (c # s, r)) (parse_string t)"
proof -
  let ?n = "of_char c :: nat"
  have n: "?n < 256" by (rule nat_of_char_less_256)
  have c: "char_of ?n = c" by simp
  have code: "?n = k \<Longrightarrow> char_of k = c" for k :: nat using c by simp
  have hex: "unicode_escape (CHR ''0'') (CHR ''0'') (hex_char (?n div 16)) (hex_char (?n mod 16)) = Some c"
  proof -
    have "hex_value (CHR ''0'') = Some 0" by (simp add: hex_value_def)
    moreover have "?n div 16 < 16" using n by (intro less_mult_imp_div_less) simp
    then have "hex_value (hex_char (?n div 16)) = Some (?n div 16)"
      "hex_value (hex_char (?n mod 16)) = Some (?n mod 16)"
      by (simp_all add: hex_value_char)
    moreover have "16 * (?n div 16) + ?n mod 16 = ?n" by simp
    ultimately show ?thesis using c by (simp add: unicode_escape_def)
  qed
  have simple: "unescape_char (CHR ''n'') = Some (char_of (10::nat))"
    "unescape_char (CHR ''r'') = Some (char_of (13::nat))"
    "unescape_char (CHR ''t'') = Some (char_of (9::nat))"
    "unescape_char (CHR ''f'') = Some (char_of (12::nat))"
    "unescape_char (CHR ''b'') = Some (char_of (8::nat))"
    "unescape_char quote = Some quote" "unescape_char backslash = Some backslash"
    "backslash \<noteq> quote" "quote \<noteq> CHR ''u''" "backslash \<noteq> CHR ''u''"
    by (simp_all add: unescape_char_def quote_def backslash_def)
  show ?thesis
    unfolding escape_char_def Let_def
    using simple hex by (auto simp: Let_def code)
qed

lemma parse_render_string:
  "parse_string (concat (map escape_char s) @ quote # rest) = Some (s, rest)"
proof (induction s)
  case Nil
  then show ?case by simp
next
  case (Cons c s)
  then show ?case by (simp add: parse_escape_char)
qed

section \<open>Printing\<close>

text \<open>\<open>sort_keys=True\<close>: every dictionary is printed in the order of its keys.\<close>

fun sort_json :: "json \<Rightarrow> json"
  and sort_json_list :: "json list \<Rightarrow> json list"
  and sort_json_items :: "(string \<times> json) list \<Rightarrow> (string \<times> json) list" where
  "sort_json (JList xs) = JList (sort_json_list xs)"
| "sort_json (JDict d) = JDict (sort_key fst (sort_json_items d))"
| "sort_json JNull = JNull"
| "sort_json (JBool b) = JBool b"
| "sort_json (JInt i) = JInt i"
| "sort_json (JStr s) = JStr s"
| "sort_json_list [] = []"
| "sort_json_list (x # xs) = sort_json x # sort_json_list xs"
| "sort_json_items [] = []"
| "sort_json_items ((k, v) # d) = (k, sort_json v) # sort_json_items d"

fun render :: "json \<Rightarrow> string"
  and render_list :: "json list \<Rightarrow> string"
  and render_items :: "(string \<times> json) list \<Rightarrow> string" where
  "render JNull = ''null''"
| "render (JBool b) = (if b then ''true'' else ''false'')"
| "render (JInt i) = show_int i"
| "render (JStr s) = render_string s"
| "render (JList xs) = ''['' @ render_list xs @ '']''"
| "render (JDict d) = ''{'' @ render_items d @ ''}''"
| "render_list [] = []"
| "render_list (x # xs) = render x @ (if xs = [] then [] else CHR '','' # render_list xs)"
| "render_items [] = []"
| "render_items ((k, v) # d) =
     render_string k @ CHR '':'' # render v @ (if d = [] then [] else CHR '','' # render_items d)"

definition json_dumps :: "json \<Rightarrow> string" where
  "json_dumps v = render (sort_json v)"

section \<open>Parsing\<close>

definition is_json_space :: "char \<Rightarrow> bool" where
  "is_json_space c \<longleftrightarrow> c \<in> {CHR '' '', CHR 0x09, CHR 0x0A, CHR 0x0D}"

definition skip_ws :: "string \<Rightarrow> string" where
  "skip_ws s = dropWhile is_json_space s"

text \<open>What makes a number a float: a fraction or an exponent.\<close>

definition float_follows :: "string \<Rightarrow> bool" where
  "float_follows s =
     (case s of
        c # d # rest \<Rightarrow>
          (c = CHR ''.'' \<and> is_digit d)
          \<or> ((c = CHR ''e'' \<or> c = CHR ''E'')
             \<and> (is_digit d \<or> (d = CHR ''+'' \<or> d = CHR ''-'') \<and> rest \<noteq> [] \<and> is_digit (hd rest)))
      | _ \<Rightarrow> False)"

definition parse_nat :: "string \<Rightarrow> (nat \<times> string) option" where
  "parse_nat s =
     (let digits = takeWhile is_digit s; rest = dropWhile is_digit s in
      if digits = [] then None
      else if hd digits = CHR ''0'' then (if float_follows (tl s) then None else Some (0, tl s))
      else if float_follows rest then None
      else map_option (\<lambda>n. (n, rest)) (read_digits 0 False digits))"

definition parse_number :: "string \<Rightarrow> (json \<times> string) option" where
  "parse_number s =
     (case s of
        [] \<Rightarrow> None
      | c # cs \<Rightarrow>
          (if c = CHR ''-'' then map_option (\<lambda>(n, r). (JInt (- int n), r)) (parse_nat cs)
           else map_option (\<lambda>(n, r). (JInt (int n), r)) (parse_nat s)))"

text \<open>
  The recursive descent; every nested value is at least one character further on, so the
  length of the text is fuel enough. A repeated key keeps its last value.
\<close>

fun parse_value :: "nat \<Rightarrow> string \<Rightarrow> (json \<times> string) option"
  and parse_elements :: "nat \<Rightarrow> string \<Rightarrow> (json list \<times> string) option"
  and parse_members :: "nat \<Rightarrow> jdict \<Rightarrow> string \<Rightarrow> (jdict \<times> string) option" where
  "parse_value 0 s = None"
| "parse_value (Suc n) s =
     (case s of
        [] \<Rightarrow> None
      | c # cs \<Rightarrow>
          (if c = quote then map_option (\<lambda>(t, r). (JStr t, r)) (parse_string cs)
           else if c = CHR ''{''
           then (let cs' = skip_ws cs in
                 if cs' \<noteq> [] \<and> hd cs' = CHR ''}'' then Some (JDict [], tl cs')
                 else map_option (\<lambda>(d, r). (JDict d, r)) (parse_members n [] cs'))
           else if c = CHR ''[''
           then (let cs' = skip_ws cs in
                 if cs' \<noteq> [] \<and> hd cs' = CHR '']'' then Some (JList [], tl cs')
                 else map_option (\<lambda>(xs, r). (JList xs, r)) (parse_elements n cs'))
           else if c = CHR ''n'' then (if startswith cs ''ull'' then Some (JNull, drop 3 cs) else None)
           else if c = CHR ''t'' then (if startswith cs ''rue'' then Some (JBool True, drop 3 cs) else None)
           else if c = CHR ''f'' then (if startswith cs ''alse'' then Some (JBool False, drop 4 cs) else None)
           else parse_number s))"
| "parse_elements 0 s = None"
| "parse_elements (Suc n) s =
     (case parse_value n s of
        None \<Rightarrow> None
      | Some (v, r) \<Rightarrow>
          (case skip_ws r of
             [] \<Rightarrow> None
           | c # cs \<Rightarrow>
               (if c = CHR '']'' then Some ([v], cs)
                else if c = CHR '','' then map_option (\<lambda>(vs, r). (v # vs, r)) (parse_elements n (skip_ws cs))
                else None)))"
| "parse_members 0 d s = None"
| "parse_members (Suc n) d s =
     (case s of
        [] \<Rightarrow> None
      | q # cs \<Rightarrow>
          (if q \<noteq> quote then None
           else (case parse_string cs of
                   None \<Rightarrow> None
                 | Some (k, r) \<Rightarrow>
                     (case skip_ws r of
                        [] \<Rightarrow> None
                      | c # r1 \<Rightarrow>
                          (if c \<noteq> CHR '':'' then None
                           else (case parse_value n (skip_ws r1) of
                                   None \<Rightarrow> None
                                 | Some (v, r2) \<Rightarrow>
                                     (case skip_ws r2 of
                                        [] \<Rightarrow> None
                                      | e # r3 \<Rightarrow>
                                          (if e = CHR ''}'' then Some (dict_set d k v, r3)
                                           else if e = CHR '',''
                                           then parse_members n (dict_set d k v) (skip_ws r3)
                                           else None))))))))"

definition json_loads :: "string \<Rightarrow> json option" where
  "json_loads s =
     (case parse_value (Suc (length s)) (skip_ws s) of
        None \<Rightarrow> None
      | Some (v, r) \<Rightarrow> (if skip_ws r = [] then Some v else None))"

section \<open>Parsing what was printed\<close>

text \<open>What may follow a value in a printed text: nothing, or a separator or a closing bracket.\<close>

definition ends_value :: "string \<Rightarrow> bool" where
  "ends_value s \<longleftrightarrow> s = [] \<or> hd s \<in> {CHR '','', CHR '']'', CHR ''}''}"

lemma ends_value_digit: "ends_value s \<Longrightarrow> takeWhile is_digit s = [] \<and> dropWhile is_digit s = s"
  by (cases s) (auto simp: ends_value_def is_digit_def Let_def)

lemma ends_value_float: "ends_value s \<Longrightarrow> \<not> float_follows s"
  by (cases s) (auto simp: ends_value_def float_follows_def split: list.splits)

lemma skip_ws_id: "s \<noteq> [] \<Longrightarrow> \<not> is_json_space (hd s) \<Longrightarrow> skip_ws s = s"
  by (cases s) (auto simp: skip_ws_def)

lemma skip_ws_ends: "ends_value s \<Longrightarrow> skip_ws s = s"
  by (cases s) (auto simp: ends_value_def skip_ws_def is_json_space_def)

lemma hd_show_nat: "n \<noteq> 0 \<Longrightarrow> hd (show_nat n) \<noteq> CHR ''0''"
proof (induction n rule: show_nat.induct)
  case (1 n)
  show ?case
  proof (cases "n < 10")
    case True
    have "digit_value (digit_char n) = n" using True by (rule digit_char_value)
    moreover have "digit_value (CHR ''0'') = 0" by (simp add: digit_value_def)
    ultimately have "digit_char n \<noteq> CHR ''0''" using 1 by auto
    with True show ?thesis by (subst show_nat.simps) simp
  next
    case False
    then have "hd (show_nat (n div 10)) \<noteq> CHR ''0''" using 1 by simp
    with False show ?thesis
      by (subst show_nat.simps) (simp add: show_nat_nonempty hd_append)
  qed
qed

lemma parse_nat_show:
  assumes "ends_value rest"
  shows "parse_nat (show_nat n @ rest) = Some (n, rest)"
proof -
  have all: "\<forall>c \<in> set (show_nat n). is_digit c" using show_nat_digits by blast
  then have tw: "takeWhile is_digit (show_nat n @ rest) = show_nat n"
    "dropWhile is_digit (show_nat n @ rest) = rest"
    using ends_value_digit [OF assms] by (simp_all add: takeWhile_append2 dropWhile_append2)
  show ?thesis
  proof (cases "n = 0")
    case True
    have z: "show_nat 0 = [CHR ''0'']" by code_simp
    show ?thesis using tw ends_value_float [OF assms] by (simp add: parse_nat_def True z Let_def)
  next
    case False
    then show ?thesis using tw hd_show_nat [OF False] ends_value_float [OF assms] show_nat_nonempty [of n]
      by (simp add: parse_nat_def Let_def read_show_nat)
  qed
qed

lemma first_digit: "\<exists>c cs. show_nat n = c # cs \<and> is_digit c"
  using show_nat_nonempty [of n] show_nat_digits [of "hd (show_nat n)" n] by (cases "show_nat n") auto

lemma first_int: "\<exists>c cs. show_int i = c # cs \<and> (c = CHR ''-'' \<or> is_digit c)"
  using first_digit [of "nat i"] by (cases "i < 0") (auto simp: show_int_def)

lemma parse_number_show:
  assumes "ends_value rest"
  shows "parse_number (show_int i @ rest) = Some (JInt i, rest)"
proof (cases "i < 0")
  case True
  then show ?thesis using parse_nat_show [OF assms] by (simp add: parse_number_def show_int_def)
next
  case False
  obtain c cs where c: "show_nat (nat i) = c # cs" "is_digit c" using first_digit by blast
  then have "c \<noteq> CHR ''-''" using digit_not_special(2) by blast
  with c False show ?thesis using parse_nat_show [OF assms, of "nat i"]
    by (simp add: parse_number_def show_int_def)
qed

lemma parse_value_number:
  assumes "ends_value rest"
  shows "parse_value (Suc n) (show_int i @ rest) = Some (JInt i, rest)"
proof -
  obtain c cs where c: "show_int i = c # cs" "c = CHR ''-'' \<or> is_digit c"
    using first_int by blast
  have "c \<noteq> quote" "c \<noteq> CHR ''{''" "c \<noteq> CHR ''[''" "c \<noteq> CHR ''n''" "c \<noteq> CHR ''t''" "c \<noteq> CHR ''f''"
    using c(2) by (auto simp: is_digit_def quote_def Let_def)
  then show ?thesis using c(1) parse_number_show [OF assms, of i] by simp
qed

text \<open>The fuel a printed value needs: no more than its length.\<close>

fun depth :: "json \<Rightarrow> nat"
  and depth_list :: "json list \<Rightarrow> nat"
  and depth_items :: "(string \<times> json) list \<Rightarrow> nat" where
  "depth (JList xs) = Suc (depth_list xs)"
| "depth (JDict d) = Suc (depth_items d)"
| "depth JNull = 1"
| "depth (JBool b) = 1"
| "depth (JInt i) = 1"
| "depth (JStr s) = 1"
| "depth_list [] = 0"
| "depth_list (x # xs) = Suc (max (depth x) (depth_list xs))"
| "depth_items [] = 0"
| "depth_items ((k, v) # d) = Suc (max (depth v) (depth_items d))"

lemma first_value:
  "\<exists>c cs. render v = c # cs \<and> \<not> is_json_space c \<and> c \<noteq> CHR '']'' \<and> c \<noteq> CHR ''}''"
proof (cases v)
  case (JInt i)
  obtain c cs where "show_int i = c # cs" "c = CHR ''-'' \<or> is_digit c"
    using first_int by blast
  then show ?thesis using JInt by (auto simp: is_digit_def is_json_space_def Let_def)
qed (auto simp: render_string_def quote_def is_json_space_def)

lemma skip_ws_render: "skip_ws (render v @ t) = render v @ t"
  using first_value [of v] by (auto intro: skip_ws_id)

lemma skip_ws_Cons: "\<not> is_json_space c \<Longrightarrow> skip_ws (c # s) = c # s"
  by (simp add: skip_ws_def)

lemma separators_not_space [simp]:
  "\<not> is_json_space (CHR '','')" "\<not> is_json_space (CHR '']'')" "\<not> is_json_space (CHR ''}'')"
  "\<not> is_json_space (CHR '':'')" "\<not> is_json_space quote"
  by (simp_all add: is_json_space_def quote_def)

lemma separators_end [simp]:
  "ends_value (CHR '','' # s)" "ends_value (CHR '']'' # s)" "ends_value (CHR ''}'' # s)"
  by (simp_all add: ends_value_def)

lemma skip_ws_render_list: "xs \<noteq> [] \<Longrightarrow> skip_ws (render_list xs @ t) = render_list xs @ t"
  by (cases xs) (simp_all add: skip_ws_render)

lemma skip_ws_render_items: "d \<noteq> [] \<Longrightarrow> skip_ws (render_items d @ t) = render_items d @ t"
  by (cases d) (auto simp: render_string_def skip_ws_Cons)

lemma render_list_first: "xs \<noteq> [] \<Longrightarrow> \<exists>c cs. render_list xs = c # cs \<and> c \<noteq> CHR '']''"
  using first_value [of "hd xs"] by (cases xs) auto

lemma render_items_first: "d \<noteq> [] \<Longrightarrow> \<exists>cs. render_items d = quote # cs"
  by (cases d) (auto simp: render_string_def)

lemma quote_distinct [simp]:
  "quote \<noteq> CHR ''{''" "quote \<noteq> CHR ''[''" "CHR ''{'' \<noteq> quote" "CHR ''['' \<noteq> quote"
  "CHR ''n'' \<noteq> quote" "CHR ''t'' \<noteq> quote" "CHR ''f'' \<noteq> quote" "quote \<noteq> CHR ''}''"
  by (simp_all add: quote_def)

lemma parse_render:
  "wf_json v \<Longrightarrow> depth v \<le> n \<Longrightarrow> ends_value rest \<Longrightarrow> parse_value n (render v @ rest) = Some (v, rest)"
  "wf_json_list xs \<Longrightarrow> xs \<noteq> [] \<Longrightarrow> depth_list xs \<le> n \<Longrightarrow>
    parse_elements n (render_list xs @ CHR '']'' # rest) = Some (xs, rest)"
  "wf_json_items d \<Longrightarrow> d \<noteq> [] \<Longrightarrow> depth_items d \<le> n \<Longrightarrow> distinct (map fst (acc @ d)) \<Longrightarrow>
    parse_members n acc (render_items d @ CHR ''}'' # rest) = Some (acc @ d, rest)"
proof (induction v and xs and d arbitrary: n rest and n rest and n rest acc
    rule: render_render_list_render_items.induct)
  case 1
  then show ?case by (cases n) (simp_all add: startswith_def)
next
  case (2 b)
  then show ?case by (cases n) (simp_all add: startswith_def)
next
  case (3 i)
  then show ?case using parse_value_number by (cases n) simp_all
next
  case (4 s)
  then show ?case by (cases n) (simp_all add: render_string_def parse_render_string)
next
  case (5 xs)
  then obtain m where n: "n = Suc m" "depth_list xs \<le> m" by (cases n) auto
  show ?case
  proof (cases "xs = []")
    case True
    then show ?thesis using n by (simp add: skip_ws_Cons)
  next
    case False
    obtain c cs where c: "render_list xs = c # cs" "c \<noteq> CHR '']''" using render_list_first [OF False] by blast
    have "parse_elements m (render_list xs @ CHR '']'' # rest) = Some (xs, rest)"
      using 5(1) [of m rest] 5(2) False n(2) by simp
    then show ?thesis using n(1) skip_ws_render_list [OF False, of "CHR '']'' # rest"] c by simp
  qed
next
  case (6 d)
  then obtain m where n: "n = Suc m" "depth_items d \<le> m" by (cases n) auto
  show ?case
  proof (cases "d = []")
    case True
    then show ?thesis using n by (simp add: skip_ws_Cons)
  next
    case False
    obtain cs where c: "render_items d = quote # cs" using render_items_first [OF False] by blast
    have "parse_members m [] (render_items d @ CHR ''}'' # rest) = Some ([] @ d, rest)"
      by (rule 6(1)) (use 6(2) False n(2) in simp_all)
    then show ?thesis using n(1) skip_ws_render_items [OF False, of "CHR ''}'' # rest"] c by simp
  qed
next
  case 7
  then show ?case by simp
next
  case (8 x xs)
  then obtain m where n: "n = Suc m" "depth x \<le> m" "depth_list xs \<le> m" by (cases n) auto
  show ?case
  proof (cases "xs = []")
    case True
    have "parse_value m (render x @ CHR '']'' # rest) = Some (x, CHR '']'' # rest)"
      using 8(1) [of m "CHR '']'' # rest"] 8(3) n(2) by simp
    then show ?thesis using True n(1) by (simp add: skip_ws_Cons)
  next
    case False
    let ?r = "CHR '','' # render_list xs @ CHR '']'' # rest"
    have "parse_value m (render x @ ?r) = Some (x, ?r)"
      using 8(1) [of m ?r] 8(3) n(2) by simp
    moreover have "parse_elements m (render_list xs @ CHR '']'' # rest) = Some (xs, rest)"
      using 8(2) [OF False, of m rest] 8(3) False n(3) by simp
    ultimately show ?thesis using False n(1) by (simp add: skip_ws_Cons skip_ws_render_list)
  qed
next
  case 9
  then show ?case by simp
next
  case (10 k v d)
  then obtain m where n: "n = Suc m" "depth v \<le> m" "depth_items d \<le> m" by (cases n) auto
  have k: "dict_set acc k v = acc @ [(k, v)]"
    using 10(6) by (intro dict_set_new) (auto simp: dict_get_def map_of_eq_None_iff)
  show ?case
  proof (cases "d = []")
    case True
    have "parse_value m (render v @ CHR ''}'' # rest) = Some (v, CHR ''}'' # rest)"
      using 10(1) [of m "CHR ''}'' # rest"] 10(3) n(2) by simp
    then show ?thesis using True n(1) k
      by (simp add: render_string_def parse_render_string skip_ws_Cons skip_ws_render)
  next
    case False
    let ?r = "CHR '','' # render_items d @ CHR ''}'' # rest"
    have "parse_value m (render v @ ?r) = Some (v, ?r)"
      using 10(1) [of m ?r] 10(3) n(2) by simp
    moreover have "parse_members m (acc @ [(k, v)]) (render_items d @ CHR ''}'' # rest)
        = Some ((acc @ [(k, v)]) @ d, rest)"
      by (rule 10(2)) (use 10(3,6) False n(3) in auto)
    ultimately show ?thesis using False n(1) k
      by (simp add: render_string_def parse_render_string skip_ws_Cons skip_ws_render skip_ws_render_items)
  qed
qed

lemma depth_length:
  "depth v \<le> length (render v)"
  "depth_list xs \<le> Suc (length (render_list xs))"
  "depth_items d \<le> length (render_items d)"
proof (induction v and xs and d rule: render_render_list_render_items.induct)
  case (3 i)
  then show ?case using first_int [of i] by auto
next
  case (8 x xs)
  have "1 \<le> length (render x)" using first_value [of x] by auto
  with 8 show ?case by (cases "xs = []") (auto simp: max_def)
next
  case (10 k v d)
  then show ?case by (cases "d = []") (auto simp: max_def render_string_def)
qed (simp_all add: render_string_def)

section \<open>Sorting the keys\<close>

lemma sort_items_map: "sort_json_items d = map (\<lambda>(k, v). (k, sort_json v)) d"
  by (induction d) auto

lemma sort_list_map: "sort_json_list xs = map sort_json xs"
  by (induction xs) auto

lemma sort_items_keys: "map fst (sort_json_items d) = map fst d"
  by (induction d) auto

lemma distinct_sort_key_fst: "distinct (map fst (sort_key fst d)) = distinct (map fst d)"
proof -
  have "mset (map fst (sort_key fst d)) = mset (map fst d)"
    by (simp only: mset_map mset_sort)
  then show ?thesis by (metis distinct_count_atmost_1 set_mset_mset)
qed

lemma wf_sort:
  "wf_json v \<Longrightarrow> wf_json (sort_json v)"
  "wf_json_list xs \<Longrightarrow> wf_json_list (sort_json_list xs)"
  "wf_json_items d \<Longrightarrow> wf_json_items (sort_json_items d)"
  by (induction v and xs and d rule: sort_json_sort_json_list_sort_json_items.induct)
    (simp_all add: distinct_sort_key_fst sort_items_keys wf_json_items_iff)

lemma py_eq_sort: "wf_json v \<Longrightarrow> py_eq v (sort_json v)"
proof (induction v)
  case (JList xs)
  then show ?case
    by (auto simp: py_eq_list_iff sort_list_map list_all2_conv_all_nth wf_json_list_iff)
next
  case (JDict d)
  have dist: "distinct (map fst (sort_key fst (sort_json_items d)))"
    using JDict.prems by (simp add: distinct_sort_key_fst sort_items_keys)
  have "\<exists>w. map_of (sort_key fst (sort_json_items d)) k = Some w \<and> py_eq v w"
    if kv: "(k, v) \<in> set d" for k v
  proof (intro exI conjI)
    have "(k, sort_json v) \<in> set (sort_key fst (sort_json_items d))"
      using kv by (force simp: sort_items_map)
    with dist show "map_of (sort_key fst (sort_json_items d)) k = Some (sort_json v)" by simp
    have "wf_json v" using JDict.prems kv by (auto simp: wf_json_items_iff)
    with JDict.IH kv show "py_eq v (sort_json v)" by fastforce
  qed
  moreover have "length (sort_json_items d) = length d" by (simp add: sort_items_map)
  ultimately show ?case by (auto simp: py_eq_items_iff)
qed simp_all

text \<open>The round trip: what comes back is the value with its keys in order, and compares equal.\<close>

lemma json_loads_dumps:
  assumes "wf_json v"
  shows "json_loads (json_dumps v) = Some (sort_json v)" "py_eq v (sort_json v)"
proof -
  let ?s = "render (sort_json v)"
  have "parse_value (Suc (length ?s)) (?s @ []) = Some (sort_json v, [])"
    using wf_sort(1) [OF assms] depth_length(1) [of "sort_json v"]
    by (intro parse_render(1)) (auto simp: ends_value_def)
  then show "json_loads (json_dumps v) = Some (sort_json v)"
    using skip_ws_render [of "sort_json v" "[]"]
    by (simp add: json_loads_def json_dumps_def skip_ws_def del: parse_value.simps)
  show "py_eq v (sort_json v)" by (rule py_eq_sort [OF assms])
qed

end
