(* ===== verification/IsoTime.thy ===== *)
theory IsoTime
  imports PyText
begin

text \<open>
  Reading back \<open>datetime.isoformat()\<close>. How a time stamp is parsed is Pydantic's business and a
  parameter of the event store; \<open>parse_iso\<close> is a function with the property the store relies
  on, for the time stamps a \<open>datetime\<close> can hold.
\<close>

definition valid_datetime :: "datetime \<Rightarrow> bool" where
  "valid_datetime d \<longleftrightarrow> dt_year d < 10000 \<and> dt_month d < 100 \<and> dt_day d < 100 \<and> dt_hour d < 100
     \<and> dt_minute d < 100 \<and> dt_second d < 100 \<and> dt_microsecond d < 1000000"

definition fixed_nat :: "nat \<Rightarrow> string \<Rightarrow> nat option" where
  "fixed_nat w s = (if length s < w then None else read_digits 0 False (take w s))"

definition parse_iso :: "string \<Rightarrow> datetime option" where
  "parse_iso s =
     (case (fixed_nat 4 s, fixed_nat 2 (drop 5 s), fixed_nat 2 (drop 8 s), fixed_nat 2 (drop 11 s),
            fixed_nat 2 (drop 14 s), fixed_nat 2 (drop 17 s)) of
        (Some y, Some mo, Some d, Some h, Some mi, Some sec) \<Rightarrow>
          (case drop 19 s of
             [] \<Rightarrow> None
           | c # rest \<Rightarrow>
               (if c = CHR ''.''
                then map_option (\<lambda>us. DateTime y mo d h mi sec us) (fixed_nat 6 rest)
                else Some (DateTime y mo d h mi sec 0)))
      | _ \<Rightarrow> None)"

lemma length_show_nat: "n < 10 ^ w \<Longrightarrow> 0 < w \<Longrightarrow> length (show_nat n) \<le> w"
proof (induction n arbitrary: w rule: show_nat.induct)
  case (1 n)
  show ?case
  proof (cases "n < 10")
    case True
    then show ?thesis using "1.prems" by (subst show_nat.simps) simp
  next
    case False
    obtain v where w: "w = Suc v" using "1.prems"(2) by (cases w) auto
    with False "1.prems"(1) have "0 < v" by (cases v) auto
    moreover have "n div 10 < 10 ^ v" using "1.prems"(1) w by (simp add: div_less_iff_less_mult mult.commute)
    ultimately have "length (show_nat (n div 10)) \<le> v" using "1.IH" [OF False] by blast
    with False w show ?thesis by (subst show_nat.simps) simp
  qed
qed

lemma read_digits_flag: "s \<noteq> [] \<Longrightarrow> is_digit (hd s) \<Longrightarrow> read_digits a True s = read_digits a False s"
  by (cases s) auto

lemma read_zeros: "read_digits 0 False (replicate k (CHR ''0'') @ show_nat n) = Some n"
proof -
  have z: "is_digit (CHR ''0'')" "digit_value (CHR ''0'') = 0"
    by (simp_all add: is_digit_def digit_value_def)
  have "read_digits 0 True (replicate k (CHR ''0'') @ show_nat n) = Some n" for k
  proof (induction k)
    case 0
    have "is_digit (hd (show_nat n))" using show_nat_digits show_nat_nonempty hd_in_set by blast
    then show ?case using read_digits_flag [of "show_nat n" 0] show_nat_nonempty read_show_nat by simp
  qed (simp add: z)
  then show ?thesis by (cases k) (simp_all add: z read_show_nat)
qed

lemma zero_pad_props:
  assumes "n < 10 ^ w" "0 < w"
  shows "length (zero_pad w (show_nat n)) = w" "read_digits 0 False (zero_pad w (show_nat n)) = Some n"
  using length_show_nat [OF assms] by (simp_all add: zero_pad_def read_zeros)

lemma fixed_nat_pad: "n < 10 ^ w \<Longrightarrow> 0 < w \<Longrightarrow> fixed_nat w (zero_pad w (show_nat n) @ t) = Some n"
  by (simp add: fixed_nat_def zero_pad_props)

lemma parse_isoformat:
  assumes "valid_datetime d"
  shows "parse_iso (isoformat d) = Some d"
proof -
  obtain y mo da h mi sec us where d: "d = DateTime y mo da h mi sec us" by (cases d)
  let ?Y = "zero_pad 4 (show_nat y)" and ?M = "zero_pad 2 (show_nat mo)" and ?D = "zero_pad 2 (show_nat da)"
    and ?H = "zero_pad 2 (show_nat h)" and ?I = "zero_pad 2 (show_nat mi)" and ?S = "zero_pad 2 (show_nat sec)"
  let ?F = "(if us = 0 then [] else ''.'' @ zero_pad 6 (show_nat us)) @ ''+00:00''"
  have b: "y < 10 ^ 4" "mo < 10 ^ 2" "da < 10 ^ 2" "h < 10 ^ 2" "mi < 10 ^ 2" "sec < 10 ^ 2" "us < 10 ^ 6"
    using assms d by (simp_all add: valid_datetime_def)
  have len: "length ?Y = 4" "length ?M = 2" "length ?D = 2" "length ?H = 2" "length ?I = 2" "length ?S = 2"
    by (rule zero_pad_props; use b in simp)+
  have s: "isoformat d = ?Y @ ''-'' @ ?M @ ''-'' @ ?D @ ''T'' @ ?H @ '':'' @ ?I @ '':'' @ ?S @ ?F"
    by (simp add: d)
  have drops: "drop 5 (isoformat d) = ?M @ ''-'' @ ?D @ ''T'' @ ?H @ '':'' @ ?I @ '':'' @ ?S @ ?F"
    "drop 8 (isoformat d) = ?D @ ''T'' @ ?H @ '':'' @ ?I @ '':'' @ ?S @ ?F"
    "drop 11 (isoformat d) = ?H @ '':'' @ ?I @ '':'' @ ?S @ ?F"
    "drop 14 (isoformat d) = ?I @ '':'' @ ?S @ ?F"
    "drop 17 (isoformat d) = ?S @ ?F" "drop 19 (isoformat d) = ?F"
    unfolding s by (simp_all add: len)
  have year: "fixed_nat 4 (isoformat d) = Some y"
    unfolding s by (rule fixed_nat_pad; use b in simp)
  have fields: "fixed_nat 2 (drop 5 (isoformat d)) = Some mo"
    "fixed_nat 2 (drop 8 (isoformat d)) = Some da" "fixed_nat 2 (drop 11 (isoformat d)) = Some h"
    "fixed_nat 2 (drop 14 (isoformat d)) = Some mi" "fixed_nat 2 (drop 17 (isoformat d)) = Some sec"
    unfolding drops by (rule fixed_nat_pad; use b in simp)+
  have us: "fixed_nat 6 (zero_pad 6 (show_nat us) @ ''+00:00'') = Some us"
    by (rule fixed_nat_pad; use b in simp)
  show ?thesis
    unfolding parse_iso_def year fields drops(6) using us by (simp add: d)
qed

end
