(* ===== verification/RedisStore.thy ===== *)
theory RedisStore
  imports EventStores JsonCodec IsoTime
begin

text \<open>
  \<open>RedisStreamEventStore\<close> of \<open>taskbridge/event_store.py\<close>. The Redis client is not part of the
  repository: it is a record of the three calls the code makes, over a state of its own, and
  the locale \<open>redis_streams\<close> states what Redis Streams document of them. How Pydantic reads a
  time stamp is the parameter \<open>parse\<close>. The deletion of a stream whose time to live has run out
  is outside the model.
\<close>

section \<open>The client\<close>

text \<open>A reply is text or bytes, depending on how the client was set up.\<close>

datatype redis_scalar = RText string | RBytes "nat list"

type_synonym redis_fields = "(redis_scalar \<times> redis_scalar) list"
type_synonym redis_reply = "(redis_scalar \<times> (redis_scalar \<times> redis_fields) list) list"

record 'k redis_client =
  rd_xadd :: "string \<Rightarrow> (string \<times> string) list \<Rightarrow> int option \<Rightarrow> bool \<Rightarrow> 'k \<Rightarrow> (exc + redis_scalar) \<times> 'k"
  rd_xread :: "string \<Rightarrow> string \<Rightarrow> int \<Rightarrow> int option \<Rightarrow> 'k \<Rightarrow> exc + redis_reply"
  rd_expire :: "(string \<Rightarrow> int \<Rightarrow> 'k \<Rightarrow> (exc + unit) \<times> 'k) option"

record redis_settings =
  se_stream_key_prefix :: string
  se_max_stream_length :: "int option"
  se_approximate_maxlen :: bool
  se_stream_ttl_seconds :: "int option"
  se_cleanup_interval_seconds :: int

definition default_redis_settings :: redis_settings where
  "default_redis_settings = \<lparr>se_stream_key_prefix = ''taskbridge:tasks'',
     se_max_stream_length = Some 1000, se_approximate_maxlen = True,
     se_stream_ttl_seconds = Some 86400, se_cleanup_interval_seconds = 3600\<rparr>"

section \<open>Helpers\<close>

definition stream_key :: "redis_settings \<Rightarrow> string \<Rightarrow> string" where
  "stream_key settings task_id = se_stream_key_prefix settings @ '':'' @ task_id @ '':events''"

definition redis_checkpoint :: "string option \<Rightarrow> string" where
  "redis_checkpoint after_event_id =
     (case after_event_id of None \<Rightarrow> ''0-0'' | Some c \<Rightarrow> (if c = [] then ''0-0'' else c))"

text \<open>\<open>bytes.decode("utf-8")\<close> for text of code points below 256.\<close>

fun utf8_decode :: "nat list \<Rightarrow> string option" where
  "utf8_decode [] = Some []"
| "utf8_decode [b] = (if b < 128 then Some [char_of b] else None)"
| "utf8_decode (b # c # bs) =
     (if b < 128 then map_option (\<lambda>s. char_of b # s) (utf8_decode (c # bs))
      else if (b = 194 \<or> b = 195) \<and> 128 \<le> c \<and> c < 192
      then map_option (\<lambda>s. char_of ((b - 192) * 64 + (c - 128)) # s) (utf8_decode bs)
      else None)"

fun decode_scalar :: "redis_scalar \<Rightarrow> exc + string" where
  "decode_scalar (RText s) = Inr s"
| "decode_scalar (RBytes bs) =
     (case utf8_decode bs of
        None \<Rightarrow> Inl (ValueError ''utf-8 codec can't decode bytes'')
      | Some s \<Rightarrow> Inr s)"

definition serialize_event_fields :: "task_event \<Rightarrow> (string \<times> string) list" where
  "serialize_event_fields event = [
     (''type'', event_type_value (ev_type event)),
     (''taskId'', ev_task_id event),
     (''createdAt'', isoformat (ev_created_at event)),
     (''payload'', json_dumps (JDict (ev_payload event)))]"

text \<open>The dictionary comprehension over \<open>fields.items()\<close>.\<close>

fun decode_fields :: "redis_fields \<Rightarrow> (string, string) dict \<Rightarrow> exc + (string, string) dict" where
  "decode_fields [] d = Inr d"
| "decode_fields ((k, v) # fs) d =
     (case decode_scalar k of
        Inl e \<Rightarrow> Inl e
      | Inr k' \<Rightarrow>
          (case decode_scalar v of
             Inl e \<Rightarrow> Inl e
           | Inr v' \<Rightarrow> decode_fields fs (dict_set d k' v')))"

definition field_of :: "(string, string) dict \<Rightarrow> string \<Rightarrow> exc + string" where
  "field_of d k = (case dict_get d k of None \<Rightarrow> Inl (KeyError k) | Some v \<Rightarrow> Inr v)"

text \<open>One entry: the fields, the JSON payload, and the validation of the model.\<close>

definition build_event ::
  "(string \<Rightarrow> datetime option) \<Rightarrow> string \<Rightarrow> string \<Rightarrow> string \<Rightarrow> string \<Rightarrow> json \<Rightarrow> exc + task_event" where
  "build_event parse event_type task_id event_id created_at payload =
     (case (event_type_of_value event_type, parse created_at, payload) of
        (Some ty, Some t, JDict d) \<Rightarrow>
          Inr \<lparr>ev_type = ty, ev_task_id = task_id, ev_event_id = event_id, ev_created_at = t, ev_payload = d\<rparr>
      | _ \<Rightarrow> Inl (ValueError ''validation error for TaskEvent''))"

definition deserialize_entry ::
  "(string \<Rightarrow> datetime option) \<Rightarrow> redis_scalar \<Rightarrow> redis_fields \<Rightarrow> exc + task_event" where
  "deserialize_entry parse stream_id fds =
     (case decode_fields fds [] of
        Inl e \<Rightarrow> Inl e
      | Inr d \<Rightarrow>
          (case field_of d ''type'' of Inl e \<Rightarrow> Inl e | Inr ty \<Rightarrow>
          (case field_of d ''taskId'' of Inl e \<Rightarrow> Inl e | Inr tid \<Rightarrow>
          (case decode_scalar stream_id of Inl e \<Rightarrow> Inl e | Inr sid \<Rightarrow>
          (case field_of d ''createdAt'' of Inl e \<Rightarrow> Inl e | Inr created \<Rightarrow>
          (case field_of d ''payload'' of Inl e \<Rightarrow> Inl e | Inr text \<Rightarrow>
          (case json_loads text of
             None \<Rightarrow> Inl (ValueError ''Expecting value'')
           | Some payload \<Rightarrow> build_event parse ty tid sid created payload)))))))"

fun deserialize_entries ::
  "(string \<Rightarrow> datetime option) \<Rightarrow> (redis_scalar \<times> redis_fields) list \<Rightarrow> exc + task_event list" where
  "deserialize_entries parse [] = Inr []"
| "deserialize_entries parse ((sid, fds) # es) =
     (case deserialize_entry parse sid fds of
        Inl e \<Rightarrow> Inl e
      | Inr event \<Rightarrow>
          (case deserialize_entries parse es of Inl e \<Rightarrow> Inl e | Inr events \<Rightarrow> Inr (event # events)))"

fun deserialize_results ::
  "(string \<Rightarrow> datetime option) \<Rightarrow> redis_reply \<Rightarrow> exc + task_event list" where
  "deserialize_results parse [] = Inr []"
| "deserialize_results parse ((name, entries) # rest) =
     (case deserialize_entries parse entries of
        Inl e \<Rightarrow> Inl e
      | Inr events \<Rightarrow>
          (case deserialize_results parse rest of Inl e \<Rightarrow> Inl e | Inr later \<Rightarrow> Inr (events @ later)))"

section \<open>Operations\<close>

definition redis_append_event ::
  "'k redis_client \<Rightarrow> redis_settings \<Rightarrow> task_event \<Rightarrow> 'k \<Rightarrow> (exc + task_event) \<times> 'k" where
  "redis_append_event client settings event k =
     and_then (rd_xadd client (stream_key settings (ev_task_id event)) (serialize_event_fields event)
                 (se_max_stream_length settings) (se_approximate_maxlen settings) k)
       (\<lambda>stream_id k1.
          and_then (case (se_stream_ttl_seconds settings, rd_expire client) of
                      (Some ttl, Some expire) \<Rightarrow> expire (stream_key settings (ev_task_id event)) ttl k1
                    | _ \<Rightarrow> (Inr (), k1))
            (\<lambda>_ k2. (case decode_scalar stream_id of
                       Inl e \<Rightarrow> Inl e
                     | Inr i \<Rightarrow> Inr (event\<lparr>ev_event_id := i\<rparr>), k2)))"

definition redis_read ::
  "'k redis_client \<Rightarrow> redis_settings \<Rightarrow> (string \<Rightarrow> datetime option) \<Rightarrow> int option
    \<Rightarrow> string \<Rightarrow> string option \<Rightarrow> int \<Rightarrow> 'k \<Rightarrow> exc + task_event list" where
  "redis_read client settings parse block task_id after_event_id limit k =
     (if limit \<le> 0 then Inr []
      else (case rd_xread client (stream_key settings task_id) (redis_checkpoint after_event_id) limit block k of
              Inl e \<Rightarrow> Inl e
            | Inr results \<Rightarrow> deserialize_results parse results))"

definition redis_read_events_after ::
  "'k redis_client \<Rightarrow> redis_settings \<Rightarrow> (string \<Rightarrow> datetime option)
    \<Rightarrow> string \<Rightarrow> string option \<Rightarrow> int \<Rightarrow> 'k \<Rightarrow> exc + task_event list" where
  "redis_read_events_after client settings parse = redis_read client settings parse None"

definition redis_wait_for_events ::
  "'k redis_client \<Rightarrow> redis_settings \<Rightarrow> (string \<Rightarrow> datetime option)
    \<Rightarrow> string \<Rightarrow> string option \<Rightarrow> int \<Rightarrow> int \<Rightarrow> 'k \<Rightarrow> exc + task_event list" where
  "redis_wait_for_events client settings parse task_id after_event_id limit timeout_ms =
     redis_read client settings parse (Some timeout_ms) task_id after_event_id limit"

definition redis_event_store ::
  "'k redis_client \<Rightarrow> redis_settings \<Rightarrow> (string \<Rightarrow> datetime option) \<Rightarrow> 'k event_store_ops" where
  "redis_event_store client settings parse = \<lparr>
     es_append_event = redis_append_event client settings,
     es_read_events_after = redis_read_events_after client settings parse,
     es_wait_for_events = redis_wait_for_events client settings parse\<rparr>"

section \<open>One event, written and read back\<close>

definition stored_event :: "task_event \<Rightarrow> task_event" where
  "stored_event e = (case sort_json (JDict (ev_payload e)) of
     JDict d \<Rightarrow> e\<lparr>ev_payload := d\<rparr> | _ \<Rightarrow> e)"

lemma sort_json_JDict: "\<exists>d'. sort_json (JDict d) = JDict d'"
  by simp

lemma stored_event_payload: "sort_json (JDict (ev_payload e)) = JDict (ev_payload (stored_event e))"
  by (simp add: stored_event_def)

lemma stored_same:
  "wf_dict (ev_payload e) \<Longrightarrow> same_event e (stored_event e)"
  using json_loads_dumps(2) [of "JDict (ev_payload e)"]
  by (auto simp: same_event_def stored_event_def wf_dict_def dict_eq_def)

text \<open>A scalar of a reply that stands for a text.\<close>

definition scalar_is :: "redis_scalar \<Rightarrow> string \<Rightarrow> bool" where
  "scalar_is sc s \<longleftrightarrow> decode_scalar sc = Inr s"

definition fields_are :: "redis_fields \<Rightarrow> (string \<times> string) list \<Rightarrow> bool" where
  "fields_are fs gs \<longleftrightarrow> list_all2 (\<lambda>(a, b) (k, v). scalar_is a k \<and> scalar_is b v) fs gs"

lemma decode_fields_are:
  "fields_are fs gs \<Longrightarrow> decode_fields fs d = Inr (foldl (\<lambda>d (k, v). dict_set d k v) d gs)"
proof (induction gs arbitrary: fs d)
  case Nil
  then show ?case by (simp add: fields_are_def)
next
  case (Cons g gs)
  then obtain a b fs' where "fs = (a, b) # fs'" "scalar_is a (fst g)" "scalar_is b (snd g)" "fields_are fs' gs"
    by (cases g) (auto simp: fields_are_def list_all2_Cons2)
  then show ?case using Cons.IH by (cases g) (simp add: scalar_is_def)
qed

lemma deserialize_serialize:
  assumes "fields_are fs (serialize_event_fields e)" "scalar_is sid i"
    and "wf_dict (ev_payload e)" "parse (isoformat (ev_created_at e)) = Some (ev_created_at e)"
  shows "deserialize_entry parse sid fs = Inr (stored_event (e\<lparr>ev_event_id := i\<rparr>))"
proof -
  have loads: "json_loads (json_dumps (JDict (ev_payload e))) = Some (JDict (ev_payload (stored_event e)))"
    using json_loads_dumps(1) [of "JDict (ev_payload e)"] assms(3) stored_event_payload [of e]
    by (simp add: wf_dict_def)
  have "decode_fields fs [] = Inr (serialize_event_fields e)"
    unfolding decode_fields_are [OF assms(1)]
    by (simp add: serialize_event_fields_def dict_set_def)
  then show ?thesis using assms(2,4) loads
    by (simp add: deserialize_entry_def field_of_def dict_get_def serialize_event_fields_def
        scalar_is_def build_event_def event_type_of_value_value stored_event_def)
qed

end
