(* ===== verification/RedisContract.thy ===== *)
theory RedisContract
  imports RedisStore TaskProperties
begin

text \<open>
  What Redis Streams promise (\<open>redis_streams\<close>), the proof that the event store built on them
  keeps the contract of \<open>EventStore\<close> (\<open>redis_store\<close> and its \<open>sublocale\<close>), and both on the
  \<open>FakeRedisStreamClient\<close> of \<open>tests/test_redis_event_store.py\<close>.
\<close>

section \<open>Redis Streams\<close>

definition redis_id :: "string \<Rightarrow> bool" where
  "redis_id s \<longleftrightarrow> (case event_key s of Some [a, b] \<Rightarrow> True | _ \<Rightarrow> False)"

definition entry_is :: "redis_scalar \<times> redis_fields \<Rightarrow> string \<times> (string \<times> string) list \<Rightarrow> bool" where
  "entry_is r e \<longleftrightarrow> scalar_is (fst r) (fst e) \<and> fields_are (snd r) (snd e)"

text \<open>
  \<open>entries k key\<close> is the stream kept under a key. XADD gives the new entry an id above all in
  the stream and may trim the oldest entries when a maximal length is given; EXPIRE does not
  touch the entries; XREAD returns the first \<open>cnt\<close> entries above an id, or no stream at all.
\<close>

text \<open>\<open>XADD\<close> evicts nothing from a stream that is shorter than the limit it is given.\<close>

definition below_limit :: "int option \<Rightarrow> nat \<Rightarrow> bool" where
  "below_limit maxlen n \<longleftrightarrow> (case maxlen of None \<Rightarrow> True | Some m \<Rightarrow> int n < m)"

locale redis_streams =
  fixes client :: "'k redis_client"
    and kvalid :: "'k \<Rightarrow> bool"
    and entries :: "'k \<Rightarrow> string \<Rightarrow> (string \<times> (string \<times> string) list) list"
  assumes entries_sorted: "kvalid k \<Longrightarrow>
      sorted_wrt (\<lambda>a b. key_newer (fst b) (fst a)) (entries k key)"
    and entries_ids: "kvalid k \<Longrightarrow> e \<in> set (entries k key) \<Longrightarrow>
      redis_id (fst e) \<and> key_newer (fst e) ''0-0''"
    and xadd_law: "kvalid k \<Longrightarrow> (\<And>m. maxlen = Some m \<Longrightarrow> 0 < m) \<Longrightarrow>
      \<exists>sid i k' n. rd_xadd client key fds maxlen approx k = (Inr sid, k') \<and> scalar_is sid i
        \<and> kvalid k' \<and> n \<le> length (entries k key) \<and> (below_limit maxlen (length (entries k key)) \<longrightarrow> n = 0)
        \<and> (\<forall>x \<in> set (entries k key). key_newer i (fst x))
        \<and> entries k' = (entries k)(key := drop n (entries k key) @ [(i, fds)])"
    and expire_law: "kvalid k \<Longrightarrow> rd_expire client = Some expire \<Longrightarrow>
      \<exists>k'. expire key ttl k = (Inr (), k') \<and> kvalid k' \<and> entries k' = entries k"
    and xread_law: "kvalid k \<Longrightarrow> 0 < cnt \<Longrightarrow> redis_id c \<Longrightarrow>
      \<exists>reply. rd_xread client key c cnt block k = Inr reply
        \<and> (let found = take (nat cnt) (filter (\<lambda>e. key_newer (fst e) c) (entries k key)) in
             (reply = [] \<and> found = []) \<or> (\<exists>name es. reply = [(name, es)] \<and> list_all2 entry_is es found))"

section \<open>The event store on top\<close>

lemma stream_key_inject: "stream_key settings t = stream_key settings t' \<Longrightarrow> t = t'"
  by (simp add: stream_key_def)

definition storable :: "(string \<Rightarrow> datetime option) \<Rightarrow> task_event \<Rightarrow> bool" where
  "storable parse e \<longleftrightarrow> wf_dict (ev_payload e) \<and> parse (isoformat (ev_created_at e)) = Some (ev_created_at e)"

text \<open>The event an entry stands for.\<close>

definition text_fields :: "(string \<times> string) list \<Rightarrow> redis_fields" where
  "text_fields fds = map (\<lambda>(k, v). (RText k, RText v)) fds"

definition entry_event ::
  "(string \<Rightarrow> datetime option) \<Rightarrow> string \<times> (string \<times> string) list \<Rightarrow> task_event list" where
  "entry_event parse e =
     (case deserialize_entry parse (RText (fst e)) (text_fields (snd e)) of Inl x \<Rightarrow> [] | Inr ev \<Rightarrow> [ev])"

definition good_entry ::
  "(string \<Rightarrow> datetime option) \<Rightarrow> string \<Rightarrow> string \<times> (string \<times> string) list \<Rightarrow> bool" where
  "good_entry parse tid entry \<longleftrightarrow>
     (\<exists>e. storable parse e \<and> ev_task_id e = tid \<and> snd entry = serialize_event_fields e)"

lemma good_entryE:
  assumes "good_entry parse tid entry"
  obtains e where "storable parse e" "ev_task_id e = tid" "ev_event_id e = fst entry"
    "snd entry = serialize_event_fields e"
proof -
  from assms obtain e where e: "storable parse e" "ev_task_id e = tid" "snd entry = serialize_event_fields e"
    by (auto simp: good_entry_def)
  show thesis
    by (rule that [of "e\<lparr>ev_event_id := fst entry\<rparr>"])
      (use e in \<open>simp_all add: storable_def serialize_event_fields_def\<close>)
qed

lemma deserialize_entry_is:
  assumes "entry_is r entry" "storable parse e" "ev_event_id e = fst entry"
    "snd entry = serialize_event_fields e"
  shows "deserialize_entry parse (fst r) (snd r) = Inr (stored_event e)"
proof -
  have "e\<lparr>ev_event_id := fst entry\<rparr> = e" using assms(3) by simp
  moreover have "fields_are (snd r) (serialize_event_fields e)" "scalar_is (fst r) (fst entry)"
    using assms(1,4) by (simp_all add: entry_is_def)
  ultimately show ?thesis
    using deserialize_serialize [of "snd r" e "fst r" "fst entry" parse] assms(2)
    by (simp add: storable_def)
qed

lemma text_entry_is: "entry_is (RText (fst e), text_fields (snd e)) e"
  by (auto simp: entry_is_def scalar_is_def fields_are_def text_fields_def list_all2_map1
      intro!: list.rel_refl_strong)

lemma entry_event_good:
  assumes "storable parse e" "ev_event_id e = fst entry" "snd entry = serialize_event_fields e"
  shows "entry_event parse entry = [stored_event e]"
  using deserialize_entry_is [OF text_entry_is assms] by (simp add: entry_event_def)

lemma stored_event_simps [simp]:
  "ev_event_id (stored_event e) = ev_event_id e" "ev_task_id (stored_event e) = ev_task_id e"
  by (simp_all add: stored_event_def)

lemma deserialize_entries_good:
  assumes "list_all2 entry_is es found" "\<And>x. x \<in> set found \<Longrightarrow> good_entry parse tid x"
  shows "deserialize_entries parse es = Inr (concat (map (entry_event parse) found))"
  using assms
proof (induction rule: list_all2_induct)
  case Nil
  then show ?case by simp
next
  case (Cons r es x found)
  from Cons.prems have "good_entry parse tid x" by simp
  then obtain e where e: "storable parse e" "ev_task_id e = tid" "ev_event_id e = fst x"
    "snd x = serialize_event_fields e" by (rule good_entryE)
  from deserialize_entry_is [OF Cons.hyps(1) e(1,3,4)] entry_event_good [OF e(1,3,4)] Cons
  show ?case by (cases r) simp
qed

lemma concat_events_filter:
  assumes "\<And>x. x \<in> set xs \<Longrightarrow> good_entry parse tid x"
  shows "concat (map (entry_event parse) (take n (filter (\<lambda>e. P (fst e)) xs)))
    = take n (filter (\<lambda>e. P (ev_event_id e)) (concat (map (entry_event parse) xs)))"
  using assms
proof (induction xs arbitrary: n)
  case Nil
  then show ?case by simp
next
  case (Cons x xs)
  then have "good_entry parse tid x" by simp
  then obtain e where e: "storable parse e" "ev_event_id e = fst x" "snd x = serialize_event_fields e"
    by (rule good_entryE)
  from entry_event_good [OF e] have "entry_event parse x = [stored_event e]" .
  then show ?case using Cons e(2) by (cases n) simp_all
qed

definition store_log ::
  "redis_settings \<Rightarrow> (string \<Rightarrow> datetime option)
    \<Rightarrow> ('k \<Rightarrow> string \<Rightarrow> (string \<times> (string \<times> string) list) list) \<Rightarrow> 'k \<Rightarrow> string \<Rightarrow> task_event list" where
  "store_log settings parse entries k tid =
     concat (map (entry_event parse) (entries k (stream_key settings tid)))"

definition store_valid ::
  "redis_settings \<Rightarrow> (string \<Rightarrow> datetime option) \<Rightarrow> ('k \<Rightarrow> bool)
    \<Rightarrow> ('k \<Rightarrow> string \<Rightarrow> (string \<times> (string \<times> string) list) list) \<Rightarrow> 'k \<Rightarrow> bool" where
  "store_valid settings parse kvalid entries k \<longleftrightarrow>
     kvalid k \<and> (\<forall>tid. \<forall>x \<in> set (entries k (stream_key settings tid)). good_entry parse tid x)"

locale redis_store = redis_streams +
  fixes settings :: redis_settings
    and parse :: "string \<Rightarrow> datetime option"
  assumes maxlen_pos: "se_max_stream_length settings = Some m \<Longrightarrow> 0 < m"
begin

lemma store_log_entry:
  assumes "store_valid settings parse kvalid entries k" "x \<in> set (entries k (stream_key settings tid))"
  obtains e where "storable parse e" "ev_task_id e = tid" "ev_event_id e = fst x"
    "entry_event parse x = [stored_event e]"
proof -
  have "good_entry parse tid x" using assms by (simp add: store_valid_def)
  then obtain e where e: "storable parse e" "ev_task_id e = tid" "ev_event_id e = fst x"
    "snd x = serialize_event_fields e" by (rule good_entryE)
  with entry_event_good [OF e(1,3,4)] show thesis by (intro that)
qed

lemma store_log_ids:
  assumes "store_valid settings parse kvalid entries k"
  shows "map ev_event_id (store_log settings parse entries k tid)
    = map fst (entries k (stream_key settings tid))"
proof -
  have "map ev_event_id (concat (map (entry_event parse) xs)) = map fst xs"
    if "\<And>x. x \<in> set xs \<Longrightarrow> good_entry parse tid x" for xs
    using that
  proof (induction xs)
    case (Cons x xs)
    then have "good_entry parse tid x" by simp
    then obtain e where "storable parse e" "ev_event_id e = fst x" "snd x = serialize_event_fields e"
      by (rule good_entryE)
    with entry_event_good [OF this] Cons show ?case by simp
  qed simp
  then show ?thesis using assms by (simp add: store_log_def store_valid_def)
qed

lemma store_read:
  assumes v: "store_valid settings parse kvalid entries k" and limit: "0 \<le> limit"
    and after: "\<And>c. after = Some c \<Longrightarrow> redis_id c"
  shows "redis_read client settings parse block tid after limit k =
    Inr (take (nat limit) (events_after key_newer after (store_log settings parse entries k tid)))"
proof (cases "limit = 0")
  case True
  then show ?thesis by (simp add: redis_read_def)
next
  case False
  then have pos: "0 < limit" using limit by simp
  let ?c = "redis_checkpoint after"
  let ?E = "entries k (stream_key settings tid)"
  have kv: "kvalid k" using v by (simp add: store_valid_def)
  have good: "x \<in> set ?E \<Longrightarrow> good_entry parse tid x" for x using v by (simp add: store_valid_def)
  have zero: "redis_id ''0-0''" "\<not> redis_id []" by code_simp+
  have c: "redis_id ?c" "after = Some c \<Longrightarrow> ?c = c" for c
    using after zero by (auto simp: redis_checkpoint_def split: option.splits)
  let ?found = "take (nat limit) (filter (\<lambda>e. key_newer (fst e) ?c) ?E)"
  from xread_law [OF kv pos c(1), of "stream_key settings tid" block] obtain reply where
    reply: "rd_xread client (stream_key settings tid) ?c limit block k = Inr reply"
    "(reply = [] \<and> ?found = []) \<or> (\<exists>name es. reply = [(name, es)] \<and> list_all2 entry_is es ?found)"
    by (auto simp: Let_def)
  have "deserialize_results parse reply = Inr (concat (map (entry_event parse) ?found))"
    using reply(2)
  proof
    assume "reply = [] \<and> ?found = []"
    then show ?thesis by auto
  next
    assume "\<exists>name es. reply = [(name, es)] \<and> list_all2 entry_is es ?found"
    then obtain name es where es: "reply = [(name, es)]" "list_all2 entry_is es ?found" by blast
    have "x \<in> set ?found \<Longrightarrow> good_entry parse tid x" for x
      by (rule good) (auto dest: in_set_takeD)
    from deserialize_entries_good [OF es(2) this] es(1) show ?thesis by simp
  qed
  also have "concat (map (entry_event parse) ?found)
      = take (nat limit) (filter (\<lambda>e. key_newer (ev_event_id e) ?c) (store_log settings parse entries k tid))"
    unfolding store_log_def by (rule concat_events_filter [OF good])
  also have "filter (\<lambda>e. key_newer (ev_event_id e) ?c) (store_log settings parse entries k tid)
      = events_after key_newer after (store_log settings parse entries k tid)"
  proof (cases after)
    case (Some a)
    with c(2) show ?thesis by (simp add: events_after_def)
  next
    case None
    have "key_newer (ev_event_id e) ''0-0''" if "e \<in> set (store_log settings parse entries k tid)" for e
    proof -
      have "ev_event_id e \<in> set (map fst ?E)"
        using that by (subst store_log_ids [OF v, symmetric]) simp
      then show ?thesis using entries_ids [OF kv] by auto
    qed
    with None show ?thesis by (simp add: events_after_def redis_checkpoint_def)
  qed
  finally show ?thesis using reply(1) pos by (simp add: redis_read_def)
qed

lemma store_append:
  assumes v: "store_valid settings parse kvalid entries k" and e: "storable parse e"
  shows "\<exists>i k' n. redis_append_event client settings e k = (Inr (e\<lparr>ev_event_id := i\<rparr>), k')
    \<and> store_valid settings parse kvalid entries k' \<and> n \<le> length (store_log settings parse entries k (ev_task_id e))
    \<and> (below_limit (se_max_stream_length settings) (length (store_log settings parse entries k (ev_task_id e))) \<longrightarrow> n = 0)
    \<and> (\<forall>x \<in> set (store_log settings parse entries k (ev_task_id e)). key_newer i (ev_event_id x))
    \<and> store_log settings parse entries k' = (store_log settings parse entries k)(ev_task_id e :=
        drop n (store_log settings parse entries k (ev_task_id e)) @ [stored_event (e\<lparr>ev_event_id := i\<rparr>)])"
proof -
  have kv: "kvalid k" using v by (simp add: store_valid_def)
  let ?key = "stream_key settings (ev_task_id e)"
  obtain sid i k1 n where x: "rd_xadd client ?key (serialize_event_fields e)
      (se_max_stream_length settings) (se_approximate_maxlen settings) k = (Inr sid, k1)"
    "scalar_is sid i" "kvalid k1" "n \<le> length (entries k ?key)"
    "\<forall>x \<in> set (entries k ?key). key_newer i (fst x)"
    "entries k1 = (entries k)(?key := drop n (entries k ?key) @ [(i, serialize_event_fields e)])"
    "below_limit (se_max_stream_length settings) (length (entries k ?key)) \<longrightarrow> n = 0"
    using xadd_law [OF kv maxlen_pos] by blast
  obtain k2 where k2: "(case (se_stream_ttl_seconds settings, rd_expire client) of
        (Some ttl, Some expire) \<Rightarrow> expire ?key ttl k1 | _ \<Rightarrow> (Inr (), k1)) = (Inr (), k2)"
    "kvalid k2" "entries k2 = entries k1"
  proof (cases "\<exists>ttl expire. se_stream_ttl_seconds settings = Some ttl \<and> rd_expire client = Some expire")
    case True
    then obtain ttl expire where t: "se_stream_ttl_seconds settings = Some ttl" "rd_expire client = Some expire"
      by blast
    from expire_law [OF x(3) t(2), of ?key ttl] obtain k' where
      "expire ?key ttl k1 = (Inr (), k')" "kvalid k'" "entries k' = entries k1" by blast
    with t show thesis by (intro that [of k']) simp_all
  next
    case False
    with x(3) show thesis by (intro that [of k1]) (auto split: option.splits)
  qed
  have run: "redis_append_event client settings e k = (Inr (e\<lparr>ev_event_id := i\<rparr>), k2)"
    using x(1,2) k2(1) by (simp add: redis_append_event_def scalar_is_def)
  let ?e = "e\<lparr>ev_event_id := i\<rparr>"
  have ser: "serialize_event_fields ?e = serialize_event_fields e" "storable parse ?e"
    using e by (simp_all add: serialize_event_fields_def storable_def)
  have ev: "entry_event parse (i, serialize_event_fields e) = [stored_event ?e]"
    by (rule entry_event_good) (use ser in simp_all)
  have len: "length (store_log settings parse entries k tid) = length (entries k (stream_key settings tid))" for tid
    using arg_cong [OF store_log_ids [OF v, of tid], of length] by simp
  have sing: "concat (map (entry_event parse) (drop n xs)) = drop n (concat (map (entry_event parse) xs))"
    if "\<And>x. x \<in> set xs \<Longrightarrow> good_entry parse (ev_task_id e) x" for xs
    using that
  proof (induction xs arbitrary: n)
    case (Cons y ys)
    then have "good_entry parse (ev_task_id e) y" by simp
    then obtain e' where "storable parse e'" "ev_event_id e' = fst y" "snd y = serialize_event_fields e'"
      by (rule good_entryE)
    with entry_event_good [OF this] Cons show ?case by (cases n) simp_all
  qed simp
  have log: "store_log settings parse entries k2 = (store_log settings parse entries k)(ev_task_id e :=
      drop n (store_log settings parse entries k (ev_task_id e)) @ [stored_event ?e])"
  proof
    fix tid
    show "store_log settings parse entries k2 tid = ((store_log settings parse entries k)(ev_task_id e :=
      drop n (store_log settings parse entries k (ev_task_id e)) @ [stored_event ?e])) tid"
    proof (cases "tid = ev_task_id e")
      case True
      have "x \<in> set (entries k ?key) \<Longrightarrow> good_entry parse (ev_task_id e) x" for x
        using v by (simp add: store_valid_def)
      from sing [OF this] show ?thesis using True x(6) k2(3) ev by (simp add: store_log_def)
    next
      case False
      then have "stream_key settings tid \<noteq> ?key" using stream_key_inject by blast
      with False x(6) k2(3) show ?thesis by (simp add: store_log_def)
    qed
  qed
  have "store_valid settings parse kvalid entries k2"
    unfolding store_valid_def
  proof (intro conjI allI ballI)
    show "kvalid k2" by fact
    fix tid y
    assume y: "y \<in> set (entries k2 (stream_key settings tid))"
    show "good_entry parse tid y"
    proof (cases "stream_key settings tid = ?key")
      case True
      then have tid: "tid = ev_task_id e" by (rule stream_key_inject)
      from y x(6) k2(3) True have "y \<in> set (entries k ?key) \<or> y = (i, serialize_event_fields e)"
        by (auto dest: in_set_dropD)
      then show ?thesis using v e tid by (auto simp: store_valid_def good_entry_def)
    next
      case False
      with y x(6) k2(3) v show ?thesis by (simp add: store_valid_def)
    qed
  qed
  moreover have "key_newer i (ev_event_id y)" if "y \<in> set (store_log settings parse entries k (ev_task_id e))" for y
  proof -
    have "ev_event_id y \<in> set (map fst (entries k ?key))"
      using that by (subst store_log_ids [OF v, symmetric]) simp
    with x(5) show ?thesis by auto
  qed
  ultimately show ?thesis using run log x(4,7)
    by (intro exI [of _ i] exI [of _ k2] exI [of _ n]) (simp add: len)
qed

lemma store_log_facts:
  assumes v: "store_valid settings parse kvalid entries k"
  shows "sorted_wrt (\<lambda>e f. key_newer (ev_event_id f) (ev_event_id e)) (store_log settings parse entries k tid)"
    and "e \<in> set (store_log settings parse entries k tid) \<Longrightarrow> redis_id (ev_event_id e)"
    and "e \<in> set (store_log settings parse entries k tid) \<Longrightarrow> ev_task_id e = tid"
proof -
  have kv: "kvalid k" using v by (simp add: store_valid_def)
  have "sorted_wrt (\<lambda>a b. key_newer b a) (map fst (entries k (stream_key settings tid)))"
    using entries_sorted [OF kv] by (simp add: sorted_wrt_map)
  then have "sorted_wrt (\<lambda>a b. key_newer b a) (map ev_event_id (store_log settings parse entries k tid))"
    by (simp add: store_log_ids [OF v])
  then show "sorted_wrt (\<lambda>e f. key_newer (ev_event_id f) (ev_event_id e)) (store_log settings parse entries k tid)"
    by (simp add: sorted_wrt_map)
next
  assume "e \<in> set (store_log settings parse entries k tid)"
  then obtain x where x: "x \<in> set (entries k (stream_key settings tid))" "e \<in> set (entry_event parse x)"
    by (auto simp: store_log_def)
  from store_log_entry [OF v x(1)] obtain e' where e': "ev_task_id e' = tid" "ev_event_id e' = fst x"
    "entry_event parse x = [stored_event e']" by blast
  have "kvalid k" using v by (simp add: store_valid_def)
  from entries_ids [OF this x(1)] e' x(2)
  show "redis_id (ev_event_id e)" "ev_task_id e = tid" by auto
qed

end

sublocale redis_store \<subseteq> store: event_store "redis_event_store client settings parse"
  "store_valid settings parse kvalid entries" "store_log settings parse entries" key_newer redis_id
  "\<lambda>e k. storable parse e"
proof unfold_locales
  fix e k
  assume v: "store_valid settings parse kvalid entries k" and e: "storable parse e"
  from store_append [OF v e] obtain i k' n where a:
    "redis_append_event client settings e k = (Inr (e\<lparr>ev_event_id := i\<rparr>), k')"
    "store_valid settings parse kvalid entries k'" "n \<le> length (store_log settings parse entries k (ev_task_id e))"
    "store_log settings parse entries k' = (store_log settings parse entries k)(ev_task_id e :=
        drop n (store_log settings parse entries k (ev_task_id e)) @ [stored_event (e\<lparr>ev_event_id := i\<rparr>)])"
    by blast
  have "same_event (e\<lparr>ev_event_id := i\<rparr>) (stored_event (e\<lparr>ev_event_id := i\<rparr>))"
    using e by (intro stored_same) (simp add: storable_def)
  with a show "\<exists>i k' n e'. es_append_event (redis_event_store client settings parse) e k
      = (Inr (e\<lparr>ev_event_id := i\<rparr>), k') \<and> store_valid settings parse kvalid entries k'
    \<and> n \<le> length (store_log settings parse entries k (ev_task_id e))
    \<and> same_event (e\<lparr>ev_event_id := i\<rparr>) e'
    \<and> store_log settings parse entries k' = (store_log settings parse entries k)(ev_task_id e :=
        drop n (store_log settings parse entries k (ev_task_id e)) @ [e'])"
    by (auto simp: redis_event_store_def)
qed (auto simp: redis_event_store_def redis_read_events_after_def redis_wait_for_events_def
    store_read store_log_facts dest: key_newer_asym intro: key_newer_trans)

section \<open>The fake client of the tests\<close>

record fake_redis =
  fr_streams :: "(string, (string \<times> (string \<times> string) list) list) dict"
  fr_sequence :: nat
  fr_expire_calls :: "(string \<times> int) list"

definition stream_entries :: "fake_redis \<Rightarrow> string \<Rightarrow> (string \<times> (string \<times> string) list) list" where
  "stream_entries k key = (case dict_get (fr_streams k) key of None \<Rightarrow> [] | Some es \<Rightarrow> es)"

text \<open>The slice \<open>xs[-m:]\<close>.\<close>

definition py_last :: "int \<Rightarrow> 'a list \<Rightarrow> 'a list" where
  "py_last m xs = (if 0 < m then drop (length xs - nat m) xs else drop (nat (- m)) xs)"

definition fake_xadd ::
  "string \<Rightarrow> (string \<times> string) list \<Rightarrow> int option \<Rightarrow> bool \<Rightarrow> fake_redis \<Rightarrow> (exc + redis_scalar) \<times> fake_redis" where
  "fake_xadd name fds maxlen approximate k =
     (let n = Suc (fr_sequence k);
          sid = show_nat n @ ''-0'';
          es = stream_entries k name @ [(sid, fds)];
          es' = (case maxlen of None \<Rightarrow> es | Some m \<Rightarrow> py_last m es)
      in (Inr (RText sid), k\<lparr>fr_sequence := n, fr_streams := dict_set (fr_streams k) name es'\<rparr>))"

definition fake_strictly_newer :: "string \<Rightarrow> string \<Rightarrow> exc + bool" where
  "fake_strictly_newer candidate checkpoint =
     (case (event_key candidate, event_key checkpoint) of
        (Some [a, b], Some [c, d]) \<Rightarrow> Inr ([a, b] > [c, d])
      | _ \<Rightarrow> Inl (ValueError ''invalid stream id''))"

fun fake_select ::
  "string \<Rightarrow> (string \<times> (string \<times> string) list) list \<Rightarrow> exc + (string \<times> (string \<times> string) list) list" where
  "fake_select last_seen [] = Inr []"
| "fake_select last_seen (e # es) =
     (case fake_strictly_newer (fst e) last_seen of
        Inl x \<Rightarrow> Inl x
      | Inr keep \<Rightarrow>
          (case fake_select last_seen es of
             Inl x \<Rightarrow> Inl x
           | Inr es' \<Rightarrow> Inr (if keep then e # es' else es')))"

definition fake_xread ::
  "string \<Rightarrow> string \<Rightarrow> int \<Rightarrow> int option \<Rightarrow> fake_redis \<Rightarrow> exc + redis_reply" where
  "fake_xread name last_seen cnt block k =
     (case fake_select last_seen (stream_entries k name) of
        Inl x \<Rightarrow> Inl x
      | Inr es \<Rightarrow>
          (let found = py_take cnt es in
           Inr (if found = [] then []
                else [(RText name, map (\<lambda>(sid, fds). (RText sid, text_fields fds)) found)])))"

definition fake_expire :: "string \<Rightarrow> int \<Rightarrow> fake_redis \<Rightarrow> (exc + unit) \<times> fake_redis" where
  "fake_expire name ttl k = (Inr (), k\<lparr>fr_expire_calls := fr_expire_calls k @ [(name, ttl)]\<rparr>)"

definition fake_redis_client :: "fake_redis redis_client" where
  "fake_redis_client = \<lparr>rd_xadd = fake_xadd, rd_xread = fake_xread, rd_expire = Some fake_expire\<rparr>"

text \<open>The ids in a stream are numbers below the sequence counter, in order.\<close>

definition fake_valid :: "fake_redis \<Rightarrow> bool" where
  "fake_valid k \<longleftrightarrow> (\<forall>key. \<exists>ns. map fst (stream_entries k key) = map seq_event_id ns
     \<and> sorted_wrt (<) ns \<and> (\<forall>n \<in> set ns. 0 < n \<and> n \<le> fr_sequence k))"

lemma redis_id_seq: "redis_id (seq_event_id n)"
  by (simp add: redis_id_def event_key_seq)

lemma seq_event_id_0: "seq_event_id 0 = ''0-0''"
  by code_simp

lemma fake_select_ok:
  assumes "\<And>e. e \<in> set es \<Longrightarrow> redis_id (fst e)" "redis_id c"
  shows "fake_select c es = Inr (filter (\<lambda>e. key_newer (fst e) c) es)"
  using assms
proof (induction es)
  case (Cons e es)
  have "redis_id (fst e)" using Cons.prems(1) by simp
  then have "fake_strictly_newer (fst e) c = Inr (key_newer (fst e) c)"
    using Cons.prems(2) by (auto simp: fake_strictly_newer_def key_newer_def redis_id_def
        split: option.splits list.splits)
  with Cons show ?case by simp
qed simp

lemma fake_valid_entries:
  assumes "fake_valid k" "e \<in> set (stream_entries k key)"
  shows "redis_id (fst e) \<and> key_newer (fst e) ''0-0''"
proof -
  from assms(1) obtain ns where ns: "map fst (stream_entries k key) = map seq_event_id ns"
    "\<forall>n \<in> set ns. 0 < n" unfolding fake_valid_def by blast
  have "fst e \<in> set (map fst (stream_entries k key))" using assms(2) by simp
  then obtain n where "n \<in> set ns" "fst e = seq_event_id n" unfolding ns(1) by auto
  with ns(2) show ?thesis
    by (simp add: redis_id_seq seq_event_id_0 [symmetric] seq_ids_numeric [symmetric])
qed

lemma fake_xadd_ok:
  assumes v: "fake_valid k" and m: "\<And>m. maxlen = Some m \<Longrightarrow> 0 < m"
  shows "\<exists>sid i k' n. fake_xadd key fds maxlen approx k = (Inr sid, k') \<and> scalar_is sid i
    \<and> fake_valid k' \<and> n \<le> length (stream_entries k key)
    \<and> (below_limit maxlen (length (stream_entries k key)) \<longrightarrow> n = 0)
    \<and> (\<forall>x \<in> set (stream_entries k key). key_newer i (fst x))
    \<and> stream_entries k' = (stream_entries k)(key := drop n (stream_entries k key) @ [(i, fds)])"
proof -
  let ?N = "Suc (fr_sequence k)"
  let ?es = "stream_entries k key"
  define n where "n = (case maxlen of None \<Rightarrow> 0 | Some m \<Rightarrow> Suc (length ?es) - nat m)"
  have n: "n \<le> length ?es" "below_limit maxlen (length ?es) \<longrightarrow> n = 0"
    using m by (auto simp: n_def below_limit_def split: option.splits)
  have trim: "(case maxlen of None \<Rightarrow> ?es @ [(seq_event_id ?N, fds)]
      | Some m \<Rightarrow> py_last m (?es @ [(seq_event_id ?N, fds)])) = drop n ?es @ [(seq_event_id ?N, fds)]"
    using m n(1) by (auto simp: n_def py_last_def split: option.splits)
  let ?k' = "k\<lparr>fr_sequence := ?N, fr_streams := dict_set (fr_streams k) key (drop n ?es @ [(seq_event_id ?N, fds)])\<rparr>"
  have run: "fake_xadd key fds maxlen approx k = (Inr (RText (seq_event_id ?N)), ?k')"
    by (simp only: fake_xadd_def Let_def seq_event_id_def [symmetric] trim)
  have entries: "stream_entries ?k' = (stream_entries k)(key := drop n ?es @ [(seq_event_id ?N, fds)])"
    by (auto simp: stream_entries_def dict_simps fun_eq_iff)
  have "fake_valid ?k'"
    unfolding fake_valid_def
  proof
    fix key'
    from v obtain ns where ns: "map fst (stream_entries k key') = map seq_event_id ns"
      "sorted_wrt (<) ns" "\<forall>n \<in> set ns. 0 < n \<and> n \<le> fr_sequence k" unfolding fake_valid_def by blast
    show "\<exists>ns. map fst (stream_entries ?k' key') = map seq_event_id ns \<and> sorted_wrt (<) ns
        \<and> (\<forall>n \<in> set ns. 0 < n \<and> n \<le> fr_sequence ?k')"
    proof (cases "key' = key")
      case True
      have "map fst (drop n ?es @ [(seq_event_id ?N, fds)]) = map seq_event_id (drop n ns @ [?N])"
        using ns(1) True by (simp add: drop_map [symmetric])
      moreover have "sorted_wrt (<) (drop n ns @ [?N])"
        using ns(2,3) by (auto simp: sorted_wrt_append sorted_wrt_drop dest!: in_set_dropD)
      moreover have "\<forall>x \<in> set (drop n ns @ [?N]). 0 < x \<and> x \<le> ?N"
        using ns(3) by (auto dest!: in_set_dropD)
      ultimately show ?thesis using True entries by (intro exI [of _ "drop n ns @ [?N]"]) simp
    next
      case False
      with ns entries show ?thesis by (intro exI [of _ ns]) auto
    qed
  qed
  moreover have "key_newer (seq_event_id ?N) (fst x)" if "x \<in> set ?es" for x
  proof -
    from v obtain ns where ns: "map fst ?es = map seq_event_id ns" "\<forall>n \<in> set ns. n \<le> fr_sequence k"
      unfolding fake_valid_def by blast
    have "fst x \<in> set (map fst ?es)" using that by simp
    then obtain m where "m \<in> set ns" "fst x = seq_event_id m" unfolding ns(1) by auto
    with ns(2) show ?thesis by (simp add: seq_ids_numeric [symmetric] less_Suc_eq_le)
  qed
  ultimately show ?thesis using run entries n
    by (intro exI [of _ "RText (seq_event_id ?N)"] exI [of _ "seq_event_id ?N"] exI [of _ ?k'] exI [of _ n])
      (simp add: scalar_is_def)
qed

interpretation fake_streams: redis_streams fake_redis_client fake_valid stream_entries
proof unfold_locales
  fix k key
  assume "fake_valid k"
  then obtain ns where ns: "map fst (stream_entries k key) = map seq_event_id ns" "sorted_wrt (<) ns"
    unfolding fake_valid_def by blast
  from ns(2) have "sorted_wrt (\<lambda>m n. key_newer (seq_event_id n) (seq_event_id m)) ns"
    by (simp add: seq_ids_numeric [symmetric])
  then have "sorted_wrt (\<lambda>a b. key_newer b a) (map fst (stream_entries k key))"
    unfolding ns(1) by (simp add: sorted_wrt_map)
  then show "sorted_wrt (\<lambda>a b. key_newer (fst b) (fst a)) (stream_entries k key)"
    by (simp add: sorted_wrt_map)
next
  fix k e key
  assume "fake_valid k" "e \<in> set (stream_entries k key)"
  then show "redis_id (fst e) \<and> key_newer (fst e) ''0-0''" by (rule fake_valid_entries)
next
  fix k key fds approx
  fix maxlen :: "int option"
  assume "fake_valid k" "\<And>m. maxlen = Some m \<Longrightarrow> 0 < m"
  then show "\<exists>sid i k' n. rd_xadd fake_redis_client key fds maxlen approx k = (Inr sid, k') \<and> scalar_is sid i
      \<and> fake_valid k' \<and> n \<le> length (stream_entries k key)
      \<and> (below_limit maxlen (length (stream_entries k key)) \<longrightarrow> n = 0) \<and> (\<forall>x \<in> set (stream_entries k key). key_newer i (fst x))
      \<and> stream_entries k' = (stream_entries k)(key := drop n (stream_entries k key) @ [(i, fds)])"
    unfolding fake_redis_client_def redis_client.select_convs by (rule fake_xadd_ok)
next
  fix k expire key ttl
  assume v: "fake_valid k" and x: "rd_expire fake_redis_client = Some expire"
  from x have "expire = fake_expire" by (simp add: fake_redis_client_def)
  moreover have "stream_entries (k\<lparr>fr_expire_calls := c\<rparr>) = stream_entries k" for c
    by (simp add: stream_entries_def fun_eq_iff)
  ultimately show "\<exists>k'. expire key ttl k = (Inr (), k') \<and> fake_valid k' \<and> stream_entries k' = stream_entries k"
    using v by (simp add: fake_expire_def fake_valid_def)
next
  fix k c key block
  fix cnt :: int
  assume a: "fake_valid k" "0 < cnt" "redis_id c"
  let ?found = "take (nat cnt) (filter (\<lambda>e. key_newer (fst e) c) (stream_entries k key))"
  have "fake_select c (stream_entries k key) = Inr (filter (\<lambda>e. key_newer (fst e) c) (stream_entries k key))"
    using fake_valid_entries [OF a(1)] a(3) by (intro fake_select_ok) blast+
  then have "rd_xread fake_redis_client key c cnt block k = Inr (if ?found = [] then []
      else [(RText key, map (\<lambda>(sid, fds). (RText sid, text_fields fds)) ?found)])"
    using a(2) by (simp add: fake_redis_client_def fake_xread_def Let_def)
  moreover have "list_all2 entry_is (map (\<lambda>(sid, fds). (RText sid, text_fields fds)) xs) xs" for xs
    using text_entry_is by (auto simp: list_all2_map1 intro!: list.rel_refl_strong)
  ultimately show "\<exists>reply. rd_xread fake_redis_client key c cnt block k = Inr reply
      \<and> (let found = ?found in (reply = [] \<and> found = [])
           \<or> (\<exists>name es. reply = [(name, es)] \<and> list_all2 entry_is es found))"
    by (auto simp: Let_def)
qed

interpretation fake_store: redis_store fake_redis_client fake_valid stream_entries default_redis_settings parse_iso
  by unfold_locales (simp add: default_redis_settings_def)

end
