(* ===== verification/RedisProperties.thy ===== *)
theory RedisProperties
  imports RedisContract Samples
begin

text \<open>
  What the Redis event store guarantees for every client that keeps the documented behaviour of
  Redis Streams, with the fake client of the tests as the instance the witnesses run on.
\<close>

context redis_store
begin

lemma append_then_read:
  assumes v: "store_valid settings parse kvalid entries k" and e: "storable parse e" and limit: "1 \<le> limit"
    and after: "after = (case store_log settings parse entries k (ev_task_id e) of
                   [] \<Rightarrow> None | evs \<Rightarrow> Some (ev_event_id (last evs)))"
  shows "\<exists>i k' e'. redis_append_event client settings e k = (Inr (e\<lparr>ev_event_id := i\<rparr>), k')
    \<and> store_valid settings parse kvalid entries k' \<and> same_event (e\<lparr>ev_event_id := i\<rparr>) e'
    \<and> redis_read_events_after client settings parse (ev_task_id e) after limit k' = Inr [e']"
proof -
  let ?log = "store_log settings parse entries k (ev_task_id e)"
  from store_append [OF v e] obtain i k' n where a:
    "redis_append_event client settings e k = (Inr (e\<lparr>ev_event_id := i\<rparr>), k')"
    "store_valid settings parse kvalid entries k'" "n \<le> length ?log"
    "\<forall>x \<in> set ?log. key_newer i (ev_event_id x)"
    "store_log settings parse entries k' = (store_log settings parse entries k)(ev_task_id e :=
       drop n ?log @ [stored_event (e\<lparr>ev_event_id := i\<rparr>)])"
    by blast
  let ?e = "stored_event (e\<lparr>ev_event_id := i\<rparr>)"
  have same: "same_event (e\<lparr>ev_event_id := i\<rparr>) ?e"
    using e by (intro stored_same) (simp add: storable_def)
  have ok: "\<And>c. after = Some c \<Longrightarrow> redis_id c"
  proof -
    fix c
    assume "after = Some c"
    then have "?log \<noteq> []" "c = ev_event_id (last ?log)"
      using after by (auto split: list.splits)
    then show "redis_id c" using store_log_facts(2) [OF v, of "last ?log" "ev_task_id e"] by simp
  qed
  have "events_after key_newer after (drop n ?log @ [?e]) = [?e]"
  proof (cases "?log = []")
    case True
    then show ?thesis using after by (simp add: events_after_def)
  next
    case False
    let ?l = "last ?log"
    have af: "after = Some (ev_event_id ?l)" using after False by (auto split: list.splits)
    have "\<not> key_newer (ev_event_id x) (ev_event_id ?l)" if x: "x \<in> set ?log" for x
    proof -
      from x obtain j where j: "j < length ?log" "x = ?log ! j" by (auto simp: in_set_conv_nth)
      have l: "?l = ?log ! (length ?log - 1)" using False by (rule last_conv_nth)
      show ?thesis
      proof (cases "j = length ?log - 1")
        case True
        then show ?thesis using j l key_newer_asym by metis
      next
        case False
        then have "key_newer (ev_event_id ?l) (ev_event_id x)"
          using store_log_facts(1) [OF v] j l by (auto simp: sorted_wrt_iff_nth_less)
        then show ?thesis by (rule key_newer_asym)
      qed
    qed
    then have none: "filter (\<lambda>x. key_newer (ev_event_id x) (ev_event_id ?l)) (drop n ?log) = []"
      by (auto simp: filter_empty_conv dest: in_set_dropD)
    moreover have "key_newer i (ev_event_id ?l)" using a(4) False by simp
    ultimately show ?thesis using af by (simp add: events_after_def)
  qed
  then have "redis_read_events_after client settings parse (ev_task_id e) after limit k' = Inr [?e]"
    using store_read [where k = k' and limit = limit and after = after and block = None and tid = "ev_task_id e", OF a(2) _ ok] limit a(5)
    by (simp add: redis_read_events_after_def)
  with a same show ?thesis by blast
qed

lemma redis_poll_pages:
  assumes "0 \<le> limit" "ps_event_store svc = redis_event_store client settings parse"
    and "\<And>w. w \<in> set (w0 # ws) \<Longrightarrow> store_valid settings parse kvalid entries (w_events w)"
    and "\<And>w. w \<in> set (w0 # ws) \<Longrightarrow> \<exists>t. get_owned_task_or_raise_not_found (ps_registry svc)
           (ps_ownership_policy svc) tid auth (w_registry w) = Inr t"
    and "sorted_wrt (\<lambda>w w'. prefix (store_log settings parse entries (w_events w) tid)
           (store_log settings parse entries (w_events w') tid)) (w0 # ws)"
    and "\<And>c. after = Some c \<Longrightarrow> redis_id c"
  shows "\<exists>evs nxt. poll_pages svc tid auth after limit (w0 # ws) = Inr (evs, nxt)
    \<and> prefix evs (events_after key_newer after (store_log settings parse entries (w_events (last (w0 # ws))) tid))
    \<and> nxt = (if evs = [] then after else Some (ev_event_id (last evs)))"
  using assms by (rule store.poll_pages_prefix)

end

section \<open>Properties\<close>

text \<open>
  C19. An event written as stream fields and read back under the id Redis gave it is the same
  event: type, task, time stamp and id are equal and the payload compares equal (its keys come
  back sorted). This holds for every reply encoding and every reader of time stamps that
  reads \<open>isoformat\<close> back.
\<close>

theorem redis_event_roundtrip:
  assumes "fields_are fds (serialize_event_fields e)" "scalar_is sid i"
    and "wf_dict (ev_payload e)" "parse (isoformat (ev_created_at e)) = Some (ev_created_at e)"
  shows "\<exists>e'. deserialize_entry parse sid fds = Inr e' \<and> same_event (e\<lparr>ev_event_id := i\<rparr>) e'"
  using deserialize_serialize [where e = e and i = i and parse = parse and sid = sid and fs = fds, OF assms] stored_same [of "e\<lparr>ev_event_id := i\<rparr>"] assms(3) by simp

text \<open>
  C26. An appended event gets the id Redis assigned, and a reader who resumes after the last
  event there was before gets exactly this event.
\<close>

theorem redis_append_then_read:
  assumes "redis_store client kvalid entries settings"
    and "store_valid settings parse kvalid entries k" "storable parse e" "1 \<le> limit"
    and "after = (case store_log settings parse entries k (ev_task_id e) of
           [] \<Rightarrow> None | evs \<Rightarrow> Some (ev_event_id (last evs)))"
  shows "\<exists>i k' e'. redis_append_event client settings e k = (Inr (e\<lparr>ev_event_id := i\<rparr>), k')
    \<and> store_valid settings parse kvalid entries k' \<and> same_event (e\<lparr>ev_event_id := i\<rparr>) e'
    \<and> redis_read_events_after client settings parse (ev_task_id e) after limit k' = Inr [e']"
  using assms by (rule redis_store.append_then_read)


section \<open>Witnesses\<close>

definition sample_redis_event :: task_event where
  "sample_redis_event = \<lparr>ev_type = TASK_PROGRESS, ev_task_id = ''task-1'', ev_event_id = ''0-0'',
     ev_created_at = sample_time, ev_payload = [(''progress'', JInt 50), (''message'', JStr ''half way'')]\<rparr>"

definition empty_redis :: fake_redis where
  "empty_redis = \<lparr>fr_streams = [], fr_sequence = 0, fr_expire_calls = []\<rparr>"

lemma empty_redis_valid: "store_valid default_redis_settings parse_iso fake_valid stream_entries empty_redis"
  by (simp add: store_valid_def fake_valid_def stream_entries_def empty_redis_def dict_simps)

lemma empty_redis_log: "store_log default_redis_settings parse_iso stream_entries empty_redis tid = []"
  by (simp add: store_log_def stream_entries_def empty_redis_def dict_simps)

lemma sample_redis_event_storable: "storable parse_iso sample_redis_event"
  by code_simp

theorem redis_event_roundtrip_witness:
  "\<exists>e'. deserialize_entry parse_iso (RBytes (map of_char ''7-0'')) (text_fields (serialize_event_fields sample_redis_event))
     = Inr e' \<and> same_event (sample_redis_event\<lparr>ev_event_id := ''7-0''\<rparr>) e'"
proof (rule redis_event_roundtrip)
  show "fields_are (text_fields (serialize_event_fields sample_redis_event)) (serialize_event_fields sample_redis_event)"
    by code_simp
  show "scalar_is (RBytes (map of_char ''7-0'')) ''7-0''" by code_simp
  show "wf_dict (ev_payload sample_redis_event)" by code_simp
  show "parse_iso (isoformat (ev_created_at sample_redis_event)) = Some (ev_created_at sample_redis_event)"
    by code_simp
qed

theorem redis_append_then_read_witness:
  "\<exists>i k' e'. redis_append_event fake_redis_client default_redis_settings sample_redis_event empty_redis
      = (Inr (sample_redis_event\<lparr>ev_event_id := i\<rparr>), k')
    \<and> store_valid default_redis_settings parse_iso fake_valid stream_entries k'
    \<and> same_event (sample_redis_event\<lparr>ev_event_id := i\<rparr>) e'
    \<and> redis_read_events_after fake_redis_client default_redis_settings parse_iso
        (ev_task_id sample_redis_event) None 10 k' = Inr [e']"
  by (rule redis_append_then_read [where client = fake_redis_client and after = None])
    (simp_all add: fake_store.redis_store_axioms empty_redis_valid empty_redis_log sample_redis_event_storable)

definition redis_sample_stream_service :: "(task_dict, fake_redis) task_stream_service" where
  "redis_sample_stream_service = \<lparr>ps_registry = demo_registry,
     ps_event_store = redis_event_store fake_redis_client default_redis_settings parse_iso,
     ps_ownership_policy = demo_ownership_policy\<rparr>"

definition redis_sample_world :: "fake_redis \<Rightarrow> (task_dict, fake_redis, suspension_dict, receipt_dict, unit) world" where
  "redis_sample_world k = \<lparr>w_registry = [(''task-1'', from_command sample_time ''task-1'' sample_command)],
     w_events = k, w_suspensions = [], w_receipts = [], w_host = (), w_metrics = []\<rparr>"

definition sample_redis_k :: fake_redis where
  "sample_redis_k = snd (redis_append_event fake_redis_client default_redis_settings sample_redis_event empty_redis)"

lemma sample_redis_k_valid: "store_valid default_redis_settings parse_iso fake_valid stream_entries sample_redis_k"
  using fake_store.append_then_read [OF empty_redis_valid sample_redis_event_storable, of 10 None]
  by (auto simp: empty_redis_log sample_redis_k_def)


end
