(* ===== verification/WsSession.thy ===== *)
theory WsSession
  imports TaskServices
begin

text \<open>
  The WebSocket endpoint: \<open>taskbridge/routes_ws.py\<close>, its twin
  \<open>handle_websocket_subscription\<close> of \<open>taskbridge/handlers.py\<close>, and the settings of
  \<open>taskbridge/stream_settings.py\<close>.

  A session is a function of what it meets: the frames of the client, the number of frames the
  connection still carries, and the world of each call to a service, in order. Once the worlds
  are used up the session is suspended in \<open>wait_for_live_events\<close>; that is the result
  \<open>Inr False\<close>, while \<open>Inr True\<close> means that the endpoint returned. What it sent, the calls on
  the metrics sinks and the calls on the diagnostics sink are recorded in order; the structured
  log is not. How Pydantic writes a time stamp is the parameter \<open>dump_time\<close>. \<open>accept\<close> and
  \<open>close\<close> do not fail.
\<close>

section \<open>Settings\<close>

record web_socket_stream_settings =
  wss_replay_batch_size :: int
  wss_live_batch_size :: int
  wss_wait_timeout_ms :: int
  wss_invalid_frame_close_code :: int
  wss_terminal_close_code :: int
  wss_emit_heartbeat_frame :: bool

definition default_web_socket_settings :: web_socket_stream_settings where
  "default_web_socket_settings = \<lparr>wss_replay_batch_size = 100, wss_live_batch_size = 100,
     wss_wait_timeout_ms = 25000, wss_invalid_frame_close_code = 1008,
     wss_terminal_close_code = 1000, wss_emit_heartbeat_frame = True\<rparr>"

section \<open>Frames\<close>

record ws_subscribe_request =
  sub_task_id :: string
  sub_last_event_id :: "string option"

text \<open>
  \<open>WebSocketSubscribeRequest.model_validate\<close>: the literal \<open>action\<close>, a field by its alias or,
  with \<open>populate_by_name\<close>, by its name, and no other key (\<open>extra="forbid"\<close>).
\<close>

definition validate_subscribe :: "json \<Rightarrow> exc + ws_subscribe_request" where
  "validate_subscribe payload =
     (case payload of
        JDict d \<Rightarrow>
          (case (dict_get d ''action'', by_alias ''taskId'' ''task_id'' (dict_del d ''action'')) of
             (Some (JStr act), Some (JStr tid, d1)) \<Rightarrow>
               (if act \<noteq> ''subscribe'' then Inl (ValueError ''validation error'')
                else (case by_alias ''lastEventId'' ''last_event_id'' d1 of
                        None \<Rightarrow> (if d1 = [] then Inr \<lparr>sub_task_id = tid, sub_last_event_id = None\<rparr>
                                 else Inl (ValueError ''validation error''))
                      | Some (v, d2) \<Rightarrow>
                          (case (v, d2) of
                             (JNull, []) \<Rightarrow> Inr \<lparr>sub_task_id = tid, sub_last_event_id = None\<rparr>
                           | (JStr c, []) \<Rightarrow> Inr \<lparr>sub_task_id = tid, sub_last_event_id = Some c\<rparr>
                           | _ \<Rightarrow> Inl (ValueError ''validation error''))))
           | _ \<Rightarrow> Inl (ValueError ''validation error''))
      | _ \<Rightarrow> Inl (ValueError ''validation error''))"

datatype ws_frame =
    SubscriptionConfirmed string "string option"
  | Heartbeat string
  | EventFrame task_event

text \<open>\<open>model_dump(mode="json", by_alias=True)\<close> of the three models.\<close>

definition opt_json :: "string option \<Rightarrow> json" where
  "opt_json x = (case x of None \<Rightarrow> JNull | Some s \<Rightarrow> JStr s)"

definition event_json :: "(datetime \<Rightarrow> string) \<Rightarrow> task_event \<Rightarrow> json" where
  "event_json dump_time e = JDict [
     (''type'', JStr (event_type_value (ev_type e))),
     (''taskId'', JStr (ev_task_id e)),
     (''eventId'', JStr (ev_event_id e)),
     (''createdAt'', JStr (dump_time (ev_created_at e))),
     (''payload'', JDict (ev_payload e))]"

fun frame_json :: "(datetime \<Rightarrow> string) \<Rightarrow> ws_frame \<Rightarrow> json" where
  "frame_json dump_time (SubscriptionConfirmed tid after) = JDict [
     (''type'', JStr ''SUBSCRIPTION_CONFIRMED''), (''taskId'', JStr tid),
     (''replayStartedAfterEventId'', opt_json after), (''live'', JBool True)]"
| "frame_json dump_time (Heartbeat tid) = JDict [
     (''type'', JStr ''HEARTBEAT''), (''taskId'', JStr tid), (''live'', JBool True)]"
| "frame_json dump_time (EventFrame e) = event_json dump_time e"

section \<open>The connection\<close>

text \<open>What \<open>receive_json\<close> meets: a frame of JSON text, a frame of other text, or the end.\<close>

datatype client_frame = ClientJson json | ClientText string | ClientGone int

datatype ws_out = WsAccepted | WsSent ws_frame | WsClosed int

datatype diagnostic =
    OnReplayStart string string "string option"
  | OnHeartbeat string string
  | OnDelivery string string string
  | OnDisconnect string string

record ws_io =
  io_inbox :: "client_frame list"
  io_sends :: "nat option"
  io_out :: "ws_out list"
  io_metrics :: "metric list"
  io_diag :: "diagnostic list"

definition fresh_io :: "client_frame list \<Rightarrow> nat option \<Rightarrow> ws_io" where
  "fresh_io inbox sends = \<lparr>io_inbox = inbox, io_sends = sends, io_out = [], io_metrics = [], io_diag = []\<rparr>"

definition ws_put :: "ws_out \<Rightarrow> ws_io \<Rightarrow> ws_io" where
  "ws_put x io = io\<lparr>io_out := io_out io @ [x]\<rparr>"

definition ws_metric :: "metric \<Rightarrow> ws_io \<Rightarrow> ws_io" where
  "ws_metric m io = io\<lparr>io_metrics := io_metrics io @ [m]\<rparr>"

definition ws_diag :: "diagnostic \<Rightarrow> ws_io \<Rightarrow> ws_io" where
  "ws_diag d io = io\<lparr>io_diag := io_diag io @ [d]\<rparr>"

definition ws_send :: "ws_frame \<Rightarrow> ws_io \<Rightarrow> (exc + unit) \<times> ws_io" where
  "ws_send f io =
     (case io_sends io of
        None \<Rightarrow> (Inr (), ws_put (WsSent f) io)
      | Some 0 \<Rightarrow> (Inl (WebSocketDisconnect 1006), io)
      | Some (Suc n) \<Rightarrow> (Inr (), ws_put (WsSent f) (io\<lparr>io_sends := Some n\<rparr>)))"

definition receive_json :: "ws_io \<Rightarrow> (exc + json) \<times> ws_io" where
  "receive_json io =
     (case io_inbox io of
        ClientJson j # rest \<Rightarrow> (Inr j, io\<lparr>io_inbox := rest\<rparr>)
      | ClientText _ # rest \<Rightarrow> (Inl (ValueError ''Expecting value''), io\<lparr>io_inbox := rest\<rparr>)
      | ClientGone code # rest \<Rightarrow> (Inl (WebSocketDisconnect code), io\<lparr>io_inbox := rest\<rparr>)
      | [] \<Rightarrow> (Inl (WebSocketDisconnect 1005), io))"

section \<open>Parts both endpoints have\<close>

definition is_terminal_event :: "task_event_type \<Rightarrow> bool" where
  "is_terminal_event t \<longleftrightarrow> t \<in> {TASK_COMPLETED, TASK_FAILED, TASK_CANCELLED}"

text \<open>\<open>_send_events_and_check_terminal\<close>; the flag is \<open>terminal_seen\<close>.\<close>

fun send_events :: "task_event list \<Rightarrow> bool \<Rightarrow> ws_io \<Rightarrow> (exc + bool) \<times> ws_io" where
  "send_events [] terminal_seen io = (Inr terminal_seen, io)"
| "send_events (e # es) terminal_seen io =
     and_then (ws_send (EventFrame e) io)
       (\<lambda>_ io'. send_events es (terminal_seen \<or> is_terminal_event (ev_type e)) io')"

text \<open>\<open>prepare_subscription\<close> in the world \<open>w\<close>; its counters go to the metrics of the session.\<close>

definition ws_prepare ::
  "('r, 'v) task_stream_service \<Rightarrow> string \<Rightarrow> auth_context \<Rightarrow> string option \<Rightarrow> int
    \<Rightarrow> ('r, 'v, 'p, 'c, 'h) world \<Rightarrow> ws_io \<Rightarrow> (exc + poll_events_result) \<times> ws_io" where
  "ws_prepare svc tid auth last_event_id limit w io =
     (case prepare_subscription svc tid auth last_event_id limit (w\<lparr>w_metrics := io_metrics io\<rparr>) of
        (r, w') \<Rightarrow> (r, io\<lparr>io_metrics := w_metrics w'\<rparr>))"

text \<open>The \<open>finally\<close> clause runs unless the session is still suspended.\<close>

fun ws_finally :: "(exc + bool) \<times> ws_io \<Rightarrow> (exc + bool) \<times> ws_io" where
  "ws_finally (r, io) =
     (if r = Inr False then (r, io)
      else (r, ws_metric (Gauge ''streams_active'' 0 [(''transport'', ''ws'')]) io))"

section \<open>The route\<close>

text \<open>\<open>_receive_subscribe_request\<close>: it closes an invalid frame and raises \<open>WebSocketDisconnect\<close>.\<close>

definition receive_subscribe_request :: "int \<Rightarrow> ws_io \<Rightarrow> (exc + ws_subscribe_request) \<times> ws_io" where
  "receive_subscribe_request code io =
     (case and_then (receive_json io) (\<lambda>payload io'. (validate_subscribe payload, io')) of
        (Inl e, io') \<Rightarrow>
          (if is_value_error e then (Inl (WebSocketDisconnect code), ws_put (WsClosed code) io')
           else (Inl e, io'))
      | (Inr req, io') \<Rightarrow> (Inr req, io'))"

text \<open>The live loop: one world per call of \<open>wait_for_live_events\<close>.\<close>

fun route_live ::
  "web_socket_stream_settings \<Rightarrow> ('r, 'v) task_stream_service \<Rightarrow> string \<Rightarrow> string option
    \<Rightarrow> ('r, 'v, 'p, 'c, 'h) world list \<Rightarrow> ws_io \<Rightarrow> (exc + bool) \<times> ws_io" where
  "route_live S svc tid after [] io = (Inr False, io)"
| "route_live S svc tid after (w # ws) io =
     (case wait_for_live_events svc tid after (wss_live_batch_size S) (wss_wait_timeout_ms S) w of
        Inl e \<Rightarrow> (Inl e, io)
      | Inr [] \<Rightarrow>
          and_then (let io1 = ws_metric (Counter ''fallbacks_total'' [(''transport'', ''ws'')]) io
                    in if wss_emit_heartbeat_frame S then ws_send (Heartbeat tid) io1 else (Inr (), io1))
            (\<lambda>_ io2. route_live S svc tid after ws io2)
      | Inr (e # es) \<Rightarrow>
          and_then (send_events (e # es) False io)
            (\<lambda>should_close io2.
               if should_close then (Inr True, ws_put (WsClosed (wss_terminal_close_code S)) io2)
               else route_live S svc tid (Some (ev_event_id (last (e # es)))) ws io2))"

definition route_body ::
  "web_socket_stream_settings \<Rightarrow> ('r, 'v) task_stream_service \<Rightarrow> auth_context
    \<Rightarrow> ('r, 'v, 'p, 'c, 'h) world \<Rightarrow> ('r, 'v, 'p, 'c, 'h) world list \<Rightarrow> ws_io
    \<Rightarrow> (exc + bool) \<times> ws_io" where
  "route_body S svc auth w0 ws io =
     and_then (receive_subscribe_request (wss_invalid_frame_close_code S) io)
       (\<lambda>req io1. and_then (ws_prepare svc (sub_task_id req) auth (sub_last_event_id req)
                              (wss_replay_batch_size S) w0 io1)
       (\<lambda>replay io2. and_then (ws_send (SubscriptionConfirmed (sub_task_id req) (sub_last_event_id req)) io2)
       (\<lambda>_ io3.
          let io4 = ws_metric (Gauge ''streams_active'' 1 [(''transport'', ''ws'')]) io3;
              io5 = (if sub_last_event_id req = None then io4
                     else ws_metric (Counter ''replays_total'' [(''transport'', ''ws'')]) io4)
          in and_then (send_events (pr_events replay) False io5)
               (\<lambda>should_close io6.
                  if should_close then (Inr True, ws_put (WsClosed (wss_terminal_close_code S)) io6)
                  else route_live S svc (sub_task_id req) (pr_next_after_event_id replay) ws io6))))"

text \<open>The \<open>except\<close> clauses.\<close>

fun route_except :: "int \<Rightarrow> (exc + bool) \<times> ws_io \<Rightarrow> (exc + bool) \<times> ws_io" where
  "route_except code (Inr b, io) = (Inr b, io)"
| "route_except code (Inl e, io) =
     (if is_ws_disconnect e then (Inr True, io)
      else if is_taskbridge_error e then (Inr True, ws_put (WsClosed code) io)
      else (Inl e, io))"

definition task_events_ws ::
  "web_socket_stream_settings \<Rightarrow> ('r, 'v) task_stream_service \<Rightarrow> auth_context
    \<Rightarrow> ('r, 'v, 'p, 'c, 'h) world \<Rightarrow> ('r, 'v, 'p, 'c, 'h) world list \<Rightarrow> ws_io
    \<Rightarrow> (exc + bool) \<times> ws_io" where
  "task_events_ws S svc auth w0 ws io =
     ws_finally (route_except (wss_invalid_frame_close_code S)
       (route_body S svc auth w0 ws (ws_put WsAccepted io)))"

text \<open>
  The dependency \<open>resolve_ws_auth_context\<close> of \<open>taskbridge/dependencies.py\<close> runs before the
  endpoint: a rejected client is accepted, closed with 1008, and the endpoint is not called.
\<close>

definition resolve_ws_auth_context :: "(exc + auth_context) \<Rightarrow> ws_io \<Rightarrow> (exc + auth_context) \<times> ws_io" where
  "resolve_ws_auth_context resolved io =
     (case resolved of
        Inl e \<Rightarrow>
          (if is_authentication_error e
           then (Inl (WebSocketDisconnect 1008), ws_put (WsClosed 1008) (ws_put WsAccepted io))
           else (Inl e, io))
      | Inr auth \<Rightarrow> (Inr auth, io))"

definition ws_endpoint ::
  "web_socket_stream_settings \<Rightarrow> ('r, 'v) task_stream_service \<Rightarrow> (exc + auth_context)
    \<Rightarrow> ('r, 'v, 'p, 'c, 'h) world \<Rightarrow> ('r, 'v, 'p, 'c, 'h) world list \<Rightarrow> ws_io
    \<Rightarrow> (exc + bool) \<times> ws_io" where
  "ws_endpoint S svc resolved w0 ws io =
     and_then (resolve_ws_auth_context resolved io) (\<lambda>auth io1. task_events_ws S svc auth w0 ws io1)"

section \<open>The unified handler\<close>

fun handler_live ::
  "web_socket_stream_settings \<Rightarrow> ('r, 'v) task_stream_service \<Rightarrow> string \<Rightarrow> string option
    \<Rightarrow> ('r, 'v, 'p, 'c, 'h) world list \<Rightarrow> ws_io \<Rightarrow> (exc + bool) \<times> ws_io" where
  "handler_live S svc tid after [] io = (Inr False, io)"
| "handler_live S svc tid after (w # ws) io =
     (case wait_for_live_events svc tid after (wss_live_batch_size S) (wss_wait_timeout_ms S) w of
        Inl e \<Rightarrow> (Inl e, io)
      | Inr [] \<Rightarrow>
          and_then (ws_send (Heartbeat tid) io)
            (\<lambda>_ io1. handler_live S svc tid after ws (ws_diag (OnHeartbeat ''ws'' tid) io1))
      | Inr (e # es) \<Rightarrow>
          and_then (send_events (e # es) False io)
            (\<lambda>should_close io1.
               let io2 = fold (\<lambda>ev. ws_diag (OnDelivery ''ws'' tid (ev_event_id ev))) (e # es) io1
               in if should_close then (Inr True, ws_put (WsClosed (wss_terminal_close_code S)) io2)
                  else handler_live S svc tid (Some (ev_event_id (last (e # es)))) ws io2))"

text \<open>The body up to the loop; a frame that is not a subscription closes and returns.\<close>

definition handler_body ::
  "web_socket_stream_settings \<Rightarrow> ('r, 'v) task_stream_service \<Rightarrow> auth_context
    \<Rightarrow> ('r, 'v, 'p, 'c, 'h) world \<Rightarrow> ('r, 'v, 'p, 'c, 'h) world list \<Rightarrow> ws_io
    \<Rightarrow> (exc + bool) \<times> ws_io" where
  "handler_body S svc auth w0 ws io =
     (case and_then (receive_json io) (\<lambda>payload io'. (validate_subscribe payload, io')) of
        (Inl e, io1) \<Rightarrow>
          (if is_value_error e then (Inr True, ws_put (WsClosed (wss_invalid_frame_close_code S)) io1)
           else (Inl e, io1))
      | (Inr req, io1) \<Rightarrow>
          and_then (ws_prepare svc (sub_task_id req) auth (sub_last_event_id req)
                      (wss_replay_batch_size S) w0 io1)
          (\<lambda>replay io2.
             let io3 = ws_diag (OnReplayStart ''ws'' (sub_task_id req) (sub_last_event_id req)) io2
             in and_then (ws_send (SubscriptionConfirmed (sub_task_id req) (sub_last_event_id req)) io3)
          (\<lambda>_ io4. and_then (send_events (pr_events replay) False
                       (ws_metric (Gauge ''streams_active'' 1 [(''transport'', ''ws'')]) io4))
          (\<lambda>should_close io6.
             if should_close then (Inr True, ws_put (WsClosed (wss_terminal_close_code S)) io6)
             else handler_live S svc (sub_task_id req) (pr_next_after_event_id replay) ws io6))))"

fun handler_except :: "int \<Rightarrow> (exc + bool) \<times> ws_io \<Rightarrow> (exc + bool) \<times> ws_io" where
  "handler_except code (Inr b, io) = (Inr b, io)"
| "handler_except code (Inl e, io) =
     (if is_ws_disconnect e then (Inr True, ws_diag (OnDisconnect ''ws'' ''<unknown>'') io)
      else if is_taskbridge_error e then (Inr True, ws_put (WsClosed code) io)
      else (Inl e, io))"

definition handle_websocket_subscription ::
  "web_socket_stream_settings \<Rightarrow> ('r, 'v) task_stream_service \<Rightarrow> auth_context
    \<Rightarrow> ('r, 'v, 'p, 'c, 'h) world \<Rightarrow> ('r, 'v, 'p, 'c, 'h) world list \<Rightarrow> ws_io
    \<Rightarrow> (exc + bool) \<times> ws_io" where
  "handle_websocket_subscription S svc auth w0 ws io =
     ws_finally (handler_except (wss_invalid_frame_close_code S)
       (handler_body S svc auth w0 ws (ws_put WsAccepted io)))"

end
