(* ===== verification/SseStream.thy ===== *)
theory SseStream
  imports WsSession JsonCodec
begin

text \<open>
  Server-sent events: \<open>sse_event_generator\<close> and \<open>build_sse_stream_response\<close> of
  \<open>taskbridge/stream_runtime.py\<close> with \<open>SseStreamSettings\<close>, and the route \<open>stream_events\<close>.

  The generator is a function of what it meets: \<open>gone n\<close> is the answer to its \<open>n\<close>-th call of
  \<open>request.is_disconnected()\<close>, and each tick is one call of \<open>wait_for_live_events\<close>: the world it
  reads in with the uuid and the clock of the heartbeat it may write, or its cancellation. When
  the ticks are used up the generator is suspended in that call (\<open>Inr False\<close>). The text of an
  event is the parameter \<open>dump\<close> (Pydantic's \<open>model_dump_json\<close>).
\<close>

section \<open>Settings and output\<close>

record sse_stream_settings =
  sss_replay_batch_size :: int
  sss_live_batch_size :: int
  sss_wait_timeout_ms :: int
  sss_emit_comment_ping :: bool
  sss_emit_json_heartbeat :: bool
  sss_comment_ping_payload :: string
  sss_anti_buffering_preamble_bytes :: int
  sss_cache_control :: string
  sss_connection_header :: string
  sss_x_accel_buffering :: string

definition default_sse_settings :: sse_stream_settings where
  "default_sse_settings = \<lparr>sss_replay_batch_size = 100, sss_live_batch_size = 100,
     sss_wait_timeout_ms = 5000, sss_emit_comment_ping = True, sss_emit_json_heartbeat = True,
     sss_comment_ping_payload = ''heartbeat'', sss_anti_buffering_preamble_bytes = 0,
     sss_cache_control = ''no-cache, no-transform'', sss_connection_header = ''keep-alive'',
     sss_x_accel_buffering = ''no''\<rparr>"

datatype 'w sse_tick = SseCancelled | SseTick 'w string datetime

record sse_io =
  si_polls :: nat
  si_out :: "string list"
  si_metrics :: "metric list"
  si_diag :: "diagnostic list"

definition fresh_sse :: sse_io where
  "fresh_sse = \<lparr>si_polls = 0, si_out = [], si_metrics = [], si_diag = []\<rparr>"

definition sse_yield :: "string \<Rightarrow> sse_io \<Rightarrow> sse_io" where
  "sse_yield chunk io = io\<lparr>si_out := si_out io @ [chunk]\<rparr>"

definition sse_diag :: "diagnostic \<Rightarrow> sse_io \<Rightarrow> sse_io" where
  "sse_diag d io = io\<lparr>si_diag := si_diag io @ [d]\<rparr>"

definition is_disconnected :: "(nat \<Rightarrow> bool) \<Rightarrow> sse_io \<Rightarrow> bool \<times> sse_io" where
  "is_disconnected gone io = (gone (si_polls io), io\<lparr>si_polls := Suc (si_polls io)\<rparr>)"

section \<open>The text of the stream\<close>

definition sse_comment :: "string \<Rightarrow> string" where
  "sse_comment text = '': '' @ text @ [line_feed, line_feed]"

definition sse_data :: "string \<Rightarrow> string" where
  "sse_data text = ''data: '' @ text @ [line_feed, line_feed]"

definition sse_event :: "(task_event \<Rightarrow> string) \<Rightarrow> task_event \<Rightarrow> string" where
  "sse_event dump e = ''id: '' @ ev_event_id e @ [line_feed] @ sse_data (dump e)"

definition sse_heartbeat :: "string \<Rightarrow> string \<Rightarrow> datetime \<Rightarrow> string" where
  "sse_heartbeat task_id hex now = sse_data (render (JDict [
     (''type'', JStr ''HEARTBEAT''),
     (''taskId'', JStr task_id),
     (''eventId'', JStr (''hb-'' @ hex)),
     (''createdAt'', JStr (isoformat now)),
     (''payload'', JDict [(''live'', JBool True)])]))"

section \<open>The generator\<close>

text \<open>The replay: every event, without a look at the connection.\<close>

fun sse_replay :: "(task_event \<Rightarrow> string) \<Rightarrow> task_event list \<Rightarrow> string option \<Rightarrow> sse_io \<Rightarrow> string option \<times> sse_io" where
  "sse_replay dump [] after io = (after, io)"
| "sse_replay dump (e # es) after io =
     sse_replay dump es (Some (ev_event_id e)) (sse_yield (sse_event dump e) io)"

text \<open>One live batch; a client that is gone ends the batch.\<close>

fun sse_batch ::
  "(task_event \<Rightarrow> string) \<Rightarrow> (nat \<Rightarrow> bool) \<Rightarrow> string \<Rightarrow> task_event list \<Rightarrow> string option \<Rightarrow> sse_io
    \<Rightarrow> string option \<times> sse_io" where
  "sse_batch dump gone tid [] after io = (after, io)"
| "sse_batch dump gone tid (e # es) after io =
     (case is_disconnected gone io of
        (True, io1) \<Rightarrow> (after, sse_diag (OnDisconnect ''sse'' tid) io1)
      | (False, io1) \<Rightarrow>
          sse_batch dump gone tid es (Some (ev_event_id e))
            (sse_diag (OnDelivery ''sse'' tid (ev_event_id e)) (sse_yield (sse_event dump e) io1)))"

definition sse_ping :: "sse_stream_settings \<Rightarrow> sse_io \<Rightarrow> sse_io" where
  "sse_ping S io =
     (if sss_emit_comment_ping S then sse_yield (sse_comment (sss_comment_ping_payload S)) io else io)"

fun sse_loop ::
  "sse_stream_settings \<Rightarrow> (task_event \<Rightarrow> string) \<Rightarrow> ('r, 'v) task_stream_service \<Rightarrow> (nat \<Rightarrow> bool)
    \<Rightarrow> string \<Rightarrow> string option \<Rightarrow> ('r, 'v, 'p, 'c, 'h) world sse_tick list \<Rightarrow> sse_io
    \<Rightarrow> (exc + bool) \<times> sse_io" where
  "sse_loop S dump svc gone tid after [] io =
     (case is_disconnected gone io of
        (True, io1) \<Rightarrow> (Inr True, io1)
      | (False, io1) \<Rightarrow> (Inr False, sse_ping S io1))"
| "sse_loop S dump svc gone tid after (SseCancelled # ts) io =
     (case is_disconnected gone io of
        (True, io1) \<Rightarrow> (Inr True, io1)
      | (False, io1) \<Rightarrow> (Inr True, sse_diag (OnDisconnect ''sse'' tid) (sse_ping S io1)))"
| "sse_loop S dump svc gone tid after (SseTick w hex now # ts) io =
     (case is_disconnected gone io of
        (True, io1) \<Rightarrow> (Inr True, io1)
      | (False, io1) \<Rightarrow>
          (case wait_for_live_events svc tid after (sss_live_batch_size S) (sss_wait_timeout_ms S) w of
             Inl e \<Rightarrow> (Inl e, sse_ping S io1)
           | Inr events \<Rightarrow>
               (case is_disconnected gone (sse_ping S io1) of
                  (True, io2) \<Rightarrow> (Inr True, sse_diag (OnDisconnect ''sse'' tid) io2)
                | (False, io2) \<Rightarrow>
                    (if events = []
                     then sse_loop S dump svc gone tid after ts
                            (if sss_emit_json_heartbeat S
                             then sse_yield (sse_heartbeat tid hex now) (sse_diag (OnHeartbeat ''sse'' tid) io2)
                             else io2)
                     else (case sse_batch dump gone tid events after io2 of
                             (after', io3) \<Rightarrow> sse_loop S dump svc gone tid after' ts io3)))))"

text \<open>\<open>prepare_subscription\<close> runs in the world \<open>w0\<close>, with the session's metrics.\<close>

definition sse_prepare ::
  "('r, 'v) task_stream_service \<Rightarrow> string \<Rightarrow> auth_context \<Rightarrow> string option \<Rightarrow> int
    \<Rightarrow> ('r, 'v, 'p, 'c, 'h) world \<Rightarrow> sse_io \<Rightarrow> (exc + poll_events_result) \<times> sse_io" where
  "sse_prepare svc tid auth last_event_id limit w io =
     (case prepare_subscription svc tid auth last_event_id limit (w\<lparr>w_metrics := si_metrics io\<rparr>) of
        (r, w') \<Rightarrow> (r, io\<lparr>si_metrics := w_metrics w'\<rparr>))"

definition sse_preamble :: "sse_stream_settings \<Rightarrow> sse_io \<Rightarrow> sse_io" where
  "sse_preamble S io =
     (if 0 < sss_anti_buffering_preamble_bytes S
      then sse_yield (sse_comment (''preamble ''
             @ replicate (nat (sss_anti_buffering_preamble_bytes S)) (CHR '' ''))) io
      else io)"

definition sse_event_generator ::
  "sse_stream_settings \<Rightarrow> (task_event \<Rightarrow> string) \<Rightarrow> ('r, 'v) task_stream_service \<Rightarrow> (nat \<Rightarrow> bool)
    \<Rightarrow> string \<Rightarrow> string option \<Rightarrow> auth_context \<Rightarrow> poll_events_result option
    \<Rightarrow> ('r, 'v, 'p, 'c, 'h) world \<Rightarrow> ('r, 'v, 'p, 'c, 'h) world sse_tick list \<Rightarrow> sse_io
    \<Rightarrow> (exc + bool) \<times> sse_io" where
  "sse_event_generator S dump svc gone task_id last_event_id auth prepared_replay w0 ts io =
     and_then (case prepared_replay of
                 Some replay \<Rightarrow> (Inr replay, io)
               | None \<Rightarrow> sse_prepare svc task_id auth last_event_id (sss_replay_batch_size S) w0 io)
       (\<lambda>replay io1.
          case sse_replay dump (pr_events replay) last_event_id
                 (sse_preamble S (sse_diag (OnReplayStart ''sse'' task_id last_event_id) io1)) of
            (after, io2) \<Rightarrow> sse_loop S dump svc gone task_id after ts io2)"

section \<open>The response and the route\<close>

text \<open>
  A streaming response: its status line and headers are sent before the first chunk of the
  body is asked for.
\<close>

record 'b streaming_response =
  st_status_code :: int
  st_media_type :: string
  st_headers :: "(string \<times> string) list"
  st_body :: 'b

definition build_sse_stream_response :: "'b \<Rightarrow> sse_stream_settings \<Rightarrow> 'b streaming_response" where
  "build_sse_stream_response event_iterator S = \<lparr>st_status_code = 200,
     st_media_type = ''text/event-stream'',
     st_headers = [(''Cache-Control'', sss_cache_control S), (''Connection'', sss_connection_header S),
       (''X-Accel-Buffering'', sss_x_accel_buffering S)],
     st_body = event_iterator\<rparr>"

definition stream_events ::
  "sse_stream_settings \<Rightarrow> (task_event \<Rightarrow> string) \<Rightarrow> ('r, 'v) task_stream_service \<Rightarrow> (nat \<Rightarrow> bool)
    \<Rightarrow> string \<Rightarrow> string option \<Rightarrow> auth_context
    \<Rightarrow> ('r, 'v, 'p, 'c, 'h) world \<Rightarrow> ('r, 'v, 'p, 'c, 'h) world sse_tick list
    \<Rightarrow> ((exc + bool) \<times> sse_io) streaming_response" where
  "stream_events S dump svc gone task_id last_event_id auth w0 ts =
     build_sse_stream_response
       (sse_event_generator S dump svc gone task_id last_event_id auth None w0 ts fresh_sse) S"

section \<open>The client\<close>

text \<open>
  How a client reads an event stream (the algorithm of the HTML standard, for lines that end in
  a line feed): a line is blank, a comment, or a field with its value; a blank line dispatches
  the data of the event with the last id seen, and an unfinished event is dropped.
\<close>

record sse_client =
  cl_last_id :: string
  cl_data :: string
  cl_events :: "(string \<times> string) list"

definition field_value :: "string \<Rightarrow> string \<times> string" where
  "field_value l =
     (case dropWhile (\<lambda>c. c \<noteq> CHR '':'') l of
        [] \<Rightarrow> (l, [])
      | _ # v \<Rightarrow> (takeWhile (\<lambda>c. c \<noteq> CHR '':'') l,
                 (case v of c # v' \<Rightarrow> (if c = CHR '' '' then v' else v) | [] \<Rightarrow> [])))"

definition sse_read_line :: "string \<Rightarrow> sse_client \<Rightarrow> sse_client" where
  "sse_read_line l c =
     (if l = []
      then (if cl_data c = [] then c
            else c\<lparr>cl_data := [], cl_events := cl_events c @ [(cl_last_id c, butlast (cl_data c))]\<rparr>)
      else if hd l = CHR '':'' then c
      else (case field_value l of (f, v) \<Rightarrow>
              if f = ''data'' then c\<lparr>cl_data := cl_data c @ v @ [line_feed]\<rparr>
              else if f = ''id'' then (if CHR 0x00 \<in> set v then c else c\<lparr>cl_last_id := v\<rparr>)
              else c))"

definition sse_read :: "string \<Rightarrow> sse_client \<Rightarrow> sse_client" where
  "sse_read text c = fold sse_read_line (butlast (split_on line_feed text)) c"

end
