(* ===== verification/HttpApi.thy ===== *)
theory HttpApi
  imports SseStream ActionService
begin

text \<open>
  The HTTP endpoints of \<open>taskbridge/routes_http.py\<close>, \<open>handle_http_polling\<close> of
  \<open>taskbridge/handlers.py\<close>, and the exception handlers. A request is what the endpoint reads of
  it; the parsed JSON body and form are given as outcomes, since \<open>request.json()\<close> and
  \<open>request.form()\<close> belong to the framework, and so does \<open>loads\<close>, the JSON reader for form
  fields. An endpoint is a function on the world to a response or a raised error; \<open>respond\<close> is
  what the installed exception handlers and the framework make of it.
\<close>

section \<open>Settings, requests and responses\<close>

record http_route_settings =
  hs_max_upload_bytes :: int
  hs_allowed_upload_content_types :: "string list"

definition default_http_settings :: http_route_settings where
  "default_http_settings = \<lparr>hs_max_upload_bytes = 10 * 1024 * 1024, hs_allowed_upload_content_types = []\<rparr>"

record upload_file =
  uf_filename :: "string option"
  uf_content_type :: "string option"
  uf_content :: string

datatype form_value = FormText string | FormFile upload_file

record form_data =
  form_get :: "string \<Rightarrow> form_value option"
  form_getlist :: "string \<Rightarrow> form_value list"

record http_request =
  rq_content_type :: "string option"
  rq_json :: "exc + json"
  rq_form :: "exc + form_data"

datatype http_body =
    CreatedBody task_created_result
  | PollBody poll_events_result
  | CancelBody cancel_task_result
  | ActionBody submit_action_result
  | HealthBody string
  | ReadyBody string jdict
  | ErrorBody string string
  | ServerErrorBody

record http_response =
  hr_status_code :: int
  hr_body :: http_body

section \<open>Errors\<close>

fun status_code_for_exception :: "exc \<Rightarrow> int" where
  "status_code_for_exception (AuthenticationError _) = 401"
| "status_code_for_exception (InvalidRequestError _) = 400"
| "status_code_for_exception (UploadValidationError _) = 400"
| "status_code_for_exception (TaskOwnershipError _) = 403"
| "status_code_for_exception (TaskNotFoundError _) = 404"
| "status_code_for_exception (TaskConflictError _) = 409"
| "status_code_for_exception (IdempotencyConflictError _) = 409"
| "status_code_for_exception (TaskSubmissionError _) = 503"
| "status_code_for_exception _ = 500"

definition handle_taskbridge_error :: "exc \<Rightarrow> http_response" where
  "handle_taskbridge_error e = \<lparr>hr_status_code = status_code_for_exception e,
     hr_body = (case error_code e of
                  Some code \<Rightarrow> ErrorBody code (error_message e)
                | None \<Rightarrow> ServerErrorBody)\<rparr>"

definition handle_request_validation :: http_response where
  "handle_request_validation = \<lparr>hr_status_code = 422,
     hr_body = ErrorBody ''REQUEST_VALIDATION_ERROR'' ''Request validation failed''\<rparr>"

text \<open>
  The response to a request: what the endpoint returned, or the error as the handlers of
  \<open>install_http_exception_handlers\<close> render it; any other exception is the framework's 500.
\<close>

fun respond :: "exc + http_response \<Rightarrow> http_response" where
  "respond (Inr r) = r"
| "respond (Inl e) =
     (if is_taskbridge_error e then handle_taskbridge_error e
      else \<lparr>hr_status_code = 500, hr_body = ServerErrorBody\<rparr>)"

section \<open>Parsing a create request\<close>

text \<open>\<open>HttpTaskCreateRequest.model_validate\<close>.\<close>

record http_task_create_request =
  hc_client_request_id :: string
  hc_task_type :: string
  hc_input_payload :: jdict
  hc_metadata :: jdict

definition validate_create :: "json \<Rightarrow> exc + http_task_create_request" where
  "validate_create body =
     (let failed = Inl (ValueError ''validation error for HttpTaskCreateRequest'') in
      case body of
        JDict d \<Rightarrow>
          (case by_alias ''clientRequestId'' ''client_request_id'' d of
             Some (JStr crid, d1) \<Rightarrow>
               (case by_alias ''taskType'' ''task_type'' d1 of
                  Some (JStr ty, d2) \<Rightarrow>
                    (case by_alias ''input'' ''input_payload'' d2 of
                       Some (JDict input, d3) \<Rightarrow>
                         (case dict_get d3 ''metadata'' of
                            None \<Rightarrow> (if d3 = [] then Inr \<lparr>hc_client_request_id = crid, hc_task_type = ty,
                                      hc_input_payload = input, hc_metadata = []\<rparr> else failed)
                          | Some (JDict meta) \<Rightarrow> (if dict_del d3 ''metadata'' = []
                                      then Inr \<lparr>hc_client_request_id = crid, hc_task_type = ty,
                                        hc_input_payload = input, hc_metadata = meta\<rparr> else failed)
                          | Some _ \<Rightarrow> failed)
                     | _ \<Rightarrow> failed)
                | _ \<Rightarrow> failed)
           | _ \<Rightarrow> failed)
      | _ \<Rightarrow> failed)"

definition form_required_text :: "form_data \<Rightarrow> string \<Rightarrow> exc + string" where
  "form_required_text form field_name =
     (case form_get form field_name of
        Some (FormText v) \<Rightarrow>
          (if strip v = [] then Inl (InvalidRequestError (''Missing required field: '' @ field_name))
           else Inr v)
      | _ \<Rightarrow> Inl (InvalidRequestError (''Missing required field: '' @ field_name)))"

definition parse_json_text ::
  "(string \<Rightarrow> json option) \<Rightarrow> form_value option \<Rightarrow> string \<Rightarrow> jdict \<Rightarrow> exc + jdict" where
  "parse_json_text loads raw_value field_name dflt =
     (case raw_value of
        None \<Rightarrow> Inr dflt
      | Some (FormFile _) \<Rightarrow> Inl (InvalidRequestError (''Expected string field: '' @ field_name))
      | Some (FormText text) \<Rightarrow>
          (if text = [] then Inr dflt
           else (case loads text of
                   None \<Rightarrow> Inl (InvalidRequestError (''Invalid JSON in field: '' @ field_name))
                 | Some (JDict d) \<Rightarrow> Inr d
                 | Some _ \<Rightarrow> Inl (InvalidRequestError (''Expected JSON object in field: '' @ field_name)))))"

definition normalize_filename :: "string option \<Rightarrow> string" where
  "normalize_filename filename =
     (let given = (case filename of None \<Rightarrow> ''upload.bin'' | Some s \<Rightarrow> (if s = [] then ''upload.bin'' else s));
          candidate = last (split_on (CHR ''/'') (replace_char (CHR 0x5C) (CHR ''/'') given))
      in if candidate = [] then ''upload.bin'' else candidate)"

definition upload_content_type :: "upload_file \<Rightarrow> string" where
  "upload_content_type item =
     (case uf_content_type item of
        None \<Rightarrow> ''application/octet-stream''
      | Some t \<Rightarrow> (if t = [] then ''application/octet-stream'' else t))"

fun parse_attachments :: "http_route_settings \<Rightarrow> form_value list \<Rightarrow> exc + task_attachment list" where
  "parse_attachments S [] = Inr []"
| "parse_attachments S (FormText _ # items) = parse_attachments S items"
| "parse_attachments S (FormFile item # items) =
     (let content_type = upload_content_type item; content = uf_content item in
      if hs_allowed_upload_content_types S \<noteq> []
         \<and> content_type \<notin> set (hs_allowed_upload_content_types S)
      then Inl (UploadValidationError (''Unsupported upload content type: '' @ content_type))
      else if hs_max_upload_bytes S < int (length content)
      then Inl (UploadValidationError (''Upload exceeds maximum size of ''
             @ show_int (hs_max_upload_bytes S) @ '' bytes''))
      else (case parse_attachments S items of
              Inl e \<Rightarrow> Inl e
            | Inr attachments \<Rightarrow>
                Inr (\<lparr>at_filename = normalize_filename (uf_filename item), at_content_type = content_type,
                      at_content = content, at_size_bytes = int (length content)\<rparr> # attachments)))"

definition parse_form ::
  "http_route_settings \<Rightarrow> (string \<Rightarrow> json option) \<Rightarrow> form_data \<Rightarrow> auth_context \<Rightarrow> exc + task_create_command" where
  "parse_form S loads form auth =
     (case form_required_text form ''clientRequestId'' of Inl e \<Rightarrow> Inl e | Inr crid \<Rightarrow>
     (case form_required_text form ''taskType'' of Inl e \<Rightarrow> Inl e | Inr ty \<Rightarrow>
     (case parse_json_text loads (form_get form ''input'') ''input'' [] of Inl e \<Rightarrow> Inl e | Inr input \<Rightarrow>
     (case parse_json_text loads (form_get form ''metadata'') ''metadata'' [] of Inl e \<Rightarrow> Inl e | Inr meta \<Rightarrow>
     (case parse_attachments S (form_getlist form ''attachment'' @ form_getlist form ''attachments'') of
        Inl e \<Rightarrow> Inl e
      | Inr attachments \<Rightarrow>
          Inr \<lparr>cc_client_request_id = crid, cc_task_type = ty, cc_input_payload = input,
               cc_metadata = meta, cc_attachments = attachments, cc_auth_context = auth\<rparr>)))))"

definition parse_json_body :: "json \<Rightarrow> auth_context \<Rightarrow> exc + task_create_command" where
  "parse_json_body body auth =
     (case validate_create body of
        Inl e \<Rightarrow> Inl e
      | Inr p \<Rightarrow> Inr \<lparr>cc_client_request_id = hc_client_request_id p, cc_task_type = hc_task_type p,
                  cc_input_payload = hc_input_payload p, cc_metadata = hc_metadata p,
                  cc_attachments = [], cc_auth_context = auth\<rparr>)"

definition parse_create_task_command ::
  "http_route_settings \<Rightarrow> (string \<Rightarrow> json option) \<Rightarrow> upload_policy \<Rightarrow> auth_context \<Rightarrow> http_request
    \<Rightarrow> exc + task_create_command" where
  "parse_create_task_command S loads upload auth request =
     (let content_type = (case rq_content_type request of None \<Rightarrow> [] | Some t \<Rightarrow> t);
          parsed =
            (if startswith content_type ''application/json''
             then (case rq_json request of Inl e \<Rightarrow> Inl e | Inr body \<Rightarrow> parse_json_body body auth)
             else if startswith content_type ''multipart/form-data''
             then (case rq_form request of Inl e \<Rightarrow> Inl e | Inr form \<Rightarrow> parse_form S loads form auth)
             else Inl (InvalidRequestError ''Unsupported content type''))
      in case parsed of
           Inl e \<Rightarrow> Inl e
         | Inr command \<Rightarrow>
             (case upload auth (cc_attachments command) of Inl e \<Rightarrow> Inl e | Inr _ \<Rightarrow> Inr command))"

section \<open>Endpoints\<close>

text \<open>
  The dependency \<open>resolve_http_auth_context\<close> is the outcome \<open>auth\<close>: it runs before the endpoint
  and before its query parameters are judged.
\<close>

definition http_counter ::
  "string \<Rightarrow> (string \<times> string) list \<Rightarrow> ('r, 'v, 'p, 'c, 'h) world \<Rightarrow> ('r, 'v, 'p, 'c, 'h) world" where
  "http_counter name tags w = w\<lparr>w_metrics := w_metrics w @ [Counter name tags]\<rparr>"

definition http_create_task ::
  "http_route_settings \<Rightarrow> (string \<Rightarrow> json option) \<Rightarrow> upload_policy
    \<Rightarrow> ('r, 'v, 'p, 'c, 'h) task_command_service \<Rightarrow> datetime \<Rightarrow> datetime \<Rightarrow> string
    \<Rightarrow> exc + auth_context \<Rightarrow> http_request \<Rightarrow> ('r, 'v, 'p, 'c, 'h) world
    \<Rightarrow> (exc + http_response) \<times> ('r, 'v, 'p, 'c, 'h) world" where
  "http_create_task S loads upload svc now now_failed uuid auth request w =
     (case auth of
        Inl e \<Rightarrow> (Inl e, w)
      | Inr a \<Rightarrow>
          (case parse_create_task_command S loads upload a request of
             Inl e \<Rightarrow> (Inl e, w)
           | Inr command \<Rightarrow>
               and_then (create_task svc now now_failed uuid command w)
                 (\<lambda>result w1. (Inr \<lparr>hr_status_code = (if cr_deduplicated result then 200 else 201),
                                   hr_body = CreatedBody result\<rparr>, w1))))"

definition handle_http_polling ::
  "('r, 'v) task_stream_service \<Rightarrow> string \<Rightarrow> auth_context \<Rightarrow> string option \<Rightarrow> int \<Rightarrow> int
    \<Rightarrow> ('r, 'v, 'p, 'c, 'h) world \<Rightarrow> (exc + poll_events_result) \<times> ('r, 'v, 'p, 'c, 'h) world" where
  "handle_http_polling svc task_id auth after limit wait_timeout_ms w =
     and_then (poll_events svc task_id auth after limit (Some wait_timeout_ms) w)
       (\<lambda>result w1. (Inr result, increment_counter ''fallbacks_total'' w1))"

text \<open>The query parameters are checked by the framework: 0 to 60000, and 1 to 500.\<close>

definition http_poll_events ::
  "('r, 'v) task_stream_service \<Rightarrow> exc + auth_context \<Rightarrow> string \<Rightarrow> string option \<Rightarrow> int \<Rightarrow> int
    \<Rightarrow> ('r, 'v, 'p, 'c, 'h) world \<Rightarrow> (exc + http_response) \<times> ('r, 'v, 'p, 'c, 'h) world" where
  "http_poll_events svc auth task_id afterEventId waitTimeoutMs maxEvents w =
     (case auth of
        Inl e \<Rightarrow> (Inl e, w)
      | Inr a \<Rightarrow>
          (if waitTimeoutMs < 0 \<or> 60000 < waitTimeoutMs \<or> maxEvents < 1 \<or> 500 < maxEvents
           then (Inr handle_request_validation, w)
           else and_then (handle_http_polling svc task_id a afterEventId maxEvents waitTimeoutMs w)
                  (\<lambda>result w1. (Inr \<lparr>hr_status_code = 200, hr_body = PollBody result\<rparr>, w1))))"

text \<open>
  The optional body is validated by the framework: \<open>None\<close> is a body that does not fit
  \<open>HttpCancelTaskRequest\<close>, \<open>Some reason\<close> one that does, or no body.
\<close>

definition http_cancel_task ::
  "('r, 'v, 'p, 'c, 'h) task_command_service \<Rightarrow> exc + auth_context \<Rightarrow> string \<Rightarrow> string option option
    \<Rightarrow> ('r, 'v, 'p, 'c, 'h) world \<Rightarrow> (exc + http_response) \<times> ('r, 'v, 'p, 'c, 'h) world" where
  "http_cancel_task svc auth task_id request_body w =
     (case auth of
        Inl e \<Rightarrow> (Inl e, w)
      | Inr a \<Rightarrow>
          (case request_body of
             None \<Rightarrow> (Inr handle_request_validation, w)
           | Some reason \<Rightarrow>
               and_then (cancel_task svc \<lparr>ca_task_id = task_id, ca_auth_context = a, ca_reason = reason\<rparr> w)
                 (\<lambda>result w1. (Inr \<lparr>hr_status_code = 202, hr_body = CancelBody result\<rparr>,
                               increment_counter ''cancels_total'' w1))))"

fun action_status_value :: "submit_action_result_status \<Rightarrow> string" where
  "action_status_value SA_ACCEPTED = ''ACCEPTED''"
| "action_status_value SA_DEDUPLICATED = ''DEDUPLICATED''"
| "action_status_value SA_REJECTED_ALREADY_RESOLVED = ''REJECTED_ALREADY_RESOLVED''"
| "action_status_value SA_REJECTED_EXPIRED = ''REJECTED_EXPIRED''"

record http_submit_action_request =
  ha_client_action_id :: string
  ha_suspend_id :: string
  ha_action_type :: string
  ha_payload :: jdict
  ha_metadata :: jdict

definition action_command :: "string \<Rightarrow> http_submit_action_request \<Rightarrow> auth_context \<Rightarrow> submit_action_command" where
  "action_command task_id body auth = \<lparr>sc_task_id = task_id, sc_client_action_id = ha_client_action_id body,
     sc_suspend_id = ha_suspend_id body, sc_action_type = ha_action_type body, sc_payload = ha_payload body,
     sc_metadata = ha_metadata body, sc_auth_context = auth\<rparr>"

text \<open>The body is validated by the framework: \<open>None\<close> is a body that does not fit the model.\<close>

definition http_submit_action ::
  "('r, 'v, 'p, 'c, 'h) action_service \<Rightarrow> datetime \<Rightarrow> datetime \<Rightarrow> exc + auth_context \<Rightarrow> string
    \<Rightarrow> http_submit_action_request option
    \<Rightarrow> ('r, 'v, 'p, 'c, 'h) world \<Rightarrow> (exc + http_response) \<times> ('r, 'v, 'p, 'c, 'h) world" where
  "http_submit_action svc accept_now now auth task_id request_body w =
     (case auth of
        Inl e \<Rightarrow> (Inl e, w)
      | Inr a \<Rightarrow>
          (case request_body of
             None \<Rightarrow> (Inr handle_request_validation, w)
           | Some body \<Rightarrow>
               and_then (submit_action svc accept_now now (action_command task_id body a) w)
                 (\<lambda>result w1. (Inr \<lparr>hr_status_code = (if sr_status result = SA_DEDUPLICATED then 200 else 202),
                                   hr_body = ActionBody result\<rparr>,
                    http_counter ''actions_total'' [(''status'', action_status_value (sr_status result))] w1))))"

definition http_health :: http_response where
  "http_health = \<lparr>hr_status_code = 200, hr_body = HealthBody ''ok''\<rparr>"

definition http_ready :: "exc + bool \<times> jdict \<Rightarrow> exc + http_response" where
  "http_ready readiness =
     (case readiness of
        Inl e \<Rightarrow> Inl e
      | Inr (is_ready, details) \<Rightarrow>
          Inr \<lparr>hr_status_code = (if is_ready then 200 else 503),
               hr_body = ReadyBody (if is_ready then ''ready'' else ''not_ready'') details\<rparr>)"

end
