(* ===== verification/Readiness.thy ===== *)
theory Readiness
  imports HttpApi
begin

text \<open>
  The readiness probes of \<open>taskbridge/readiness.py\<close>. A probe is what \<open>check_readiness\<close> gives
  when it is awaited: a pair of a flag and details, or a raised error. The Redis client and
  the executor adapter are not part of the package; what their methods return or raise is the
  argument of their probes, and \<open>falsy\<close> values are told from truthy ones by \<open>truthy\<close>.
\<close>

section \<open>Probes\<close>

type_synonym readiness = "exc + bool \<times> jdict"

definition always_ready :: readiness where
  "always_ready = Inr (True, [])"

text \<open>The dict display \<open>{"status": ..., **probe_details}\<close>: later keys overwrite earlier ones.\<close>

definition probe_entry :: "bool \<Rightarrow> jdict \<Rightarrow> jdict" where
  "probe_entry probe_ready probe_details =
     foldl (\<lambda>d (k, v). dict_set d k v)
       [(''status'', JStr (if probe_ready then ''ready'' else ''not_ready''))] probe_details"

fun composite_loop :: "(string \<times> readiness) list \<Rightarrow> bool \<Rightarrow> jdict \<Rightarrow> readiness" where
  "composite_loop [] is_ready details = Inr (is_ready, details)"
| "composite_loop ((name, probe) # probes) is_ready details =
     (case probe of
        Inl e \<Rightarrow> Inl e
      | Inr (probe_ready, probe_details) \<Rightarrow>
          composite_loop probes (is_ready \<and> probe_ready)
            (dict_set details name (JDict (probe_entry probe_ready probe_details))))"

definition composite_check :: "(string \<times> readiness) list \<Rightarrow> readiness" where
  "composite_check probes = composite_loop probes True []"

definition redis_check :: "exc + bool \<Rightarrow> readiness" where
  "redis_check ping =
     (case ping of
        Inl e \<Rightarrow>
          (if is_exception e
           then Inr (False, [(''message'', JStr ''Redis ping failed''), (''error'', JStr (error_message e))])
           else Inl e)
      | Inr ping_result \<Rightarrow>
          (if ping_result then Inr (True, [(''message'', JStr ''Redis ping ok'')])
           else Inr (False, [(''message'', JStr ''Redis ping returned falsy result'')])))"

text \<open>What a health check returns: a pair, its second component the details, or another value.\<close>

datatype health = HealthPair bool jdict | HealthValue bool

definition executor_check :: "string \<Rightarrow> (exc + health) option \<Rightarrow> readiness" where
  "executor_check method_name check_method =
     (case check_method of
        None \<Rightarrow> Inr (False, [(''message'', JStr (''Executor adapter missing `'' @ method_name @ ''`''))])
      | Some (Inl e) \<Rightarrow>
          (if is_exception e
           then Inr (False, [(''message'', JStr ''Executor readiness failed''), (''error'', JStr (error_message e))])
           else Inl e)
      | Some (Inr (HealthPair ok details)) \<Rightarrow> Inr (ok, details)
      | Some (Inr (HealthValue ok)) \<Rightarrow>
          Inr (ok, [(''message'', JStr ''Executor health check completed'')]))"

section \<open>The composite probe is the conjunction of its parts\<close>

definition probe_ready :: "readiness \<Rightarrow> bool" where
  "probe_ready p \<longleftrightarrow> \<not> isl p \<and> fst (projr p)"

lemma composite_loop_ready:
  assumes "\<forall>(n, p) \<in> set probes. \<not> isl p"
  shows "\<exists>d. composite_loop probes b details = Inr (b \<and> (\<forall>(n, p) \<in> set probes. probe_ready p), d)"
  using assms
proof (induction probes arbitrary: b details)
  case Nil
  then show ?case by simp
next
  case (Cons x probes)
  obtain n p where x: "x = (n, p)" by (cases x)
  from Cons.prems x obtain r d where p: "p = Inr (r, d)" by (cases p) auto
  from Cons.IH [of "b \<and> r" "dict_set details n (JDict (probe_entry r d))"] Cons.prems
  obtain d' where "composite_loop probes (b \<and> r) (dict_set details n (JDict (probe_entry r d)))
      = Inr ((b \<and> r) \<and> (\<forall>(n, p) \<in> set probes. probe_ready p), d')" by auto
  then show ?case by (simp add: x p probe_ready_def)
qed

text \<open>What the details say of a component whose own details do not use the key.\<close>

lemma probe_entry_status:
  assumes "''status'' \<notin> fst ` set d"
  shows "dict_get (probe_entry r d) ''status'' = Some (JStr (if r then ''ready'' else ''not_ready''))"
proof -
  have "dict_get (foldl (\<lambda>d (k, v). dict_set d k v) e d) ''status'' = dict_get e ''status''" for e
    using assms by (induction d arbitrary: e) (auto simp: dict_simps)
  then show ?thesis by (simp add: probe_entry_def dict_get_def)
qed

text \<open>Details that use the key hide what the composite probe found.\<close>

lemma probe_entry_overridden:
  "dict_get (probe_entry False [(''status'', JStr ''ready'')]) ''status'' = Some (JStr ''ready'')"
  by code_simp

lemma composite_loop_details:
  assumes "composite_loop probes b details = Inr (r, d)" "distinct (map fst probes)"
  shows "dict_get d n = (case map_of probes n of
      Some (Inr (pr, pd)) \<Rightarrow> Some (JDict (probe_entry pr pd)) | _ \<Rightarrow> dict_get details n)"
  using assms
proof (induction probes b details rule: composite_loop.induct)
  case (1 b details)
  then show ?case by simp
next
  case (2 name probe probes b details)
  from 2(2) obtain pr pd where p: "probe = Inr (pr, pd)" by (cases probe) auto
  have notin: "map_of probes name = None"
    using 2(3) by (simp add: map_of_eq_None_iff)
  from 2(1) [OF p refl] 2(2,3) have "dict_get d n = (case map_of probes n of
      Some (Inr (pr, pd)) \<Rightarrow> Some (JDict (probe_entry pr pd))
    | _ \<Rightarrow> dict_get (dict_set details name (JDict (probe_entry pr pd))) n)" by (simp add: p)
  then show ?case
    using notin by (cases "n = name") (simp_all add: p dict_simps split: option.splits sum.splits)
qed

section \<open>Property\<close>

text \<open>
  C32. \<open>GET /ready\<close> on a composite probe: when no part raises the answer is 200 "ready" exactly
  if every part is ready, otherwise 503 "not_ready". The details hold an entry for every part,
  with its own details, whose status is that of the part unless these details have a "status"
  of their own.
\<close>

theorem ready_iff_all_ready:
  assumes "\<forall>(n, p) \<in> set probes. \<not> isl p" "distinct (map fst probes)"
  shows "\<exists>details. http_ready (composite_check probes) =
      Inr (if \<forall>(n, p) \<in> set probes. probe_ready p
           then \<lparr>hr_status_code = 200, hr_body = ReadyBody ''ready'' details\<rparr>
           else \<lparr>hr_status_code = 503, hr_body = ReadyBody ''not_ready'' details\<rparr>)
    \<and> (\<forall>(n, p) \<in> set probes. case p of Inl _ \<Rightarrow> False
        | Inr (r, d) \<Rightarrow> dict_get details n = Some (JDict (probe_entry r d))
            \<and> (''status'' \<notin> fst ` set d \<longrightarrow>
                 dict_get (probe_entry r d) ''status'' = Some (JStr (if r then ''ready'' else ''not_ready''))))"
proof -
  from composite_loop_ready [OF assms(1), where b = True and details = "[]"] obtain details where
    d: "composite_loop probes True [] = Inr (True \<and> (\<forall>(n, p) \<in> set probes. probe_ready p), details)"
    by blast
  have "dict_get details n = Some (JDict (probe_entry r pd))" if "(n, Inr (r, pd)) \<in> set probes" for n r pd
    using composite_loop_details [OF d assms(2), where n = n] that assms(2) by simp
  then have "\<forall>(n, p) \<in> set probes. case p of Inl _ \<Rightarrow> False
        | Inr (r, d) \<Rightarrow> dict_get details n = Some (JDict (probe_entry r d))
            \<and> (''status'' \<notin> fst ` set d \<longrightarrow>
                 dict_get (probe_entry r d) ''status'' = Some (JStr (if r then ''ready'' else ''not_ready'')))"
    using assms(1) probe_entry_status by (fastforce split: sum.splits)
  with d show ?thesis
    by (intro exI [of _ details] conjI) (simp_all only: composite_check_def http_ready_def
        sum.case prod.case if_True if_False split: if_splits, simp_all)
qed

theorem ready_iff_all_ready_witness:
  "\<exists>details. http_ready (composite_check [(''redis'', redis_check (Inr True)),
      (''executor'', executor_check ''check_health'' (Some (Inl (RuntimeError ''down''))))]) =
    Inr \<lparr>hr_status_code = 503, hr_body = ReadyBody ''not_ready'' details\<rparr>"
  using ready_iff_all_ready [where probes = "[(''redis'', redis_check (Inr True)),
      (''executor'', executor_check ''check_health'' (Some (Inl (RuntimeError ''down''))))]"]
  by (fastforce simp: redis_check_def executor_check_def is_exception_def probe_ready_def)

end
