(* ===== verification/HttpProperties.thy ===== *)
theory HttpProperties
  imports Readiness TaskProperties
begin

text \<open>
  Properties of the HTTP endpoints: what each status code of a create request says about the
  state it leaves, the bounds on uploads and on pages, and the inputs that end in an internal
  server error. The task registry enters through its contract.
\<close>

section \<open>Uploads\<close>

lemma split_on_subset: "p \<in> set (split_on c s) \<Longrightarrow> set p \<subseteq> set s - {c}"
  using split_on_no_sep [of p c s] split_on_set [of p c s] by blast

lemma normalize_filename_plain:
  "normalize_filename f \<noteq> [] \<and> CHR ''/'' \<notin> set (normalize_filename f)
     \<and> CHR 0x5C \<notin> set (normalize_filename f)"
proof -
  have r: "CHR 0x5C \<notin> set (replace_char (CHR 0x5C) (CHR ''/'') s)" for s
    by (auto simp: replace_char_def)
  have l: "last (split_on (CHR ''/'') s) \<in> set (split_on (CHR ''/'') s)" for s
    by (rule last_in_set) (rule split_on_nonempty)
  show ?thesis
    using split_on_subset [OF l] r by (auto simp: normalize_filename_def Let_def)
qed

definition attachment_ok :: "http_route_settings \<Rightarrow> task_attachment \<Rightarrow> bool" where
  "attachment_ok S a \<longleftrightarrow> at_size_bytes a = int (length (at_content a))
     \<and> at_size_bytes a \<le> hs_max_upload_bytes S
     \<and> (hs_allowed_upload_content_types S = [] \<or> at_content_type a \<in> set (hs_allowed_upload_content_types S))
     \<and> at_content_type a \<noteq> [] \<and> at_filename a \<noteq> []
     \<and> CHR ''/'' \<notin> set (at_filename a) \<and> CHR 0x5C \<notin> set (at_filename a)"

lemma parse_attachments_ok:
  "parse_attachments S items = Inr attachments \<Longrightarrow>
     list_all (attachment_ok S) attachments
     \<and> map at_content attachments = concat (map (\<lambda>v. case v of FormText _ \<Rightarrow> [] | FormFile f \<Rightarrow> [uf_content f]) items)"
  by (induction S items arbitrary: attachments rule: parse_attachments.induct)
    (auto simp: Let_def attachment_ok_def normalize_filename_plain upload_content_type_def
      split: if_splits sum.splits option.splits)

section \<open>Creation over the registry contract\<close>

context task_registry
begin

text \<open>The outcomes of \<open>create_task\<close>, with the state each of them leaves.\<close>

lemma create_task_outcome:
  assumes v: "valid (w_registry w)" and u: "unique_requests (tasks (w_registry w))"
    and reg: "cs_registry svc = ops"
    and keeps: "executor_keeps_tasks valid tasks (cs_executor svc)"
    and run: "create_task svc now now_failed uuid command w = (res, w')"
  obtains (rejected) e where "res = Inl e" "w' = w"
  | (duplicate) r t where "res = Inr r" "cr_deduplicated r" "w' = increment_counter ''duplicates_total'' w"
      "tasks (w_registry w) (cr_task_id r) = Some t" "tr_owner_id t = ac_subject (cc_auth_context command)"
      "tr_client_request_id t = cc_client_request_id command"
  | (created) r t where "res = Inr r" "\<not> cr_deduplicated r" "cr_task_id r = uuid"
      "tasks (w_registry w') uuid = Some t" "same_task (from_command now uuid command) t"
  | (submission) t where "res = Inl (TaskSubmissionError (''Failed to submit task '' @ uuid))"
      "tasks (w_registry w') uuid = Some t" "same_task (from_command now uuid command) t"
      "tr_status t = FAILED"
  | (interrupted) "res = Inl CancelledError"
proof (cases rule: create_task_cases [where svc = svc and command = command and w = w])
  case (denied e)
  have "res = Inl (if is_permission_error e then TaskOwnershipError (error_message e) else e) \<and> w' = w"
    using run denied by (auto simp: create_task_denied_eq)
  then show ?thesis using rejected by blast
next
  case (known k t)
  from create_known [OF v u reg known] run have
    "(\<exists>e. res = Inl e \<and> w' = w)
     \<or> (\<exists>r. res = Inr r \<and> cr_deduplicated r \<and> w' = increment_counter ''duplicates_total'' w \<and> cr_task_id r = k)"
    by (auto split: if_splits)
  then show ?thesis using rejected duplicate [OF _ _ _ _ known(3,4)] known(2) by blast
next
  case unknown
  let ?n = "from_command now uuid command"
  let ?m = "(tasks (w_registry w))(uuid \<mapsto> ?n)"
  have sub: "create_task_submit svc now now_failed uuid command w = (res, w')"
    using create_unknown [OF v reg unknown] run by simp
  from create_submit_eq [OF v reg, of uuid now command] obtain s where s: "valid s" "tasks s = ?m"
    "on_registry (reg_create_task ops ?n) w = (Inr ?n, w\<lparr>w_registry := s\<rparr>)" by blast
  obtain r2 w2 where ex: "ex_submit_task (cs_executor svc) ?n (w\<lparr>w_registry := s\<rparr>) = (r2, w2)"
    by (cases "ex_submit_task (cs_executor svc) ?n (w\<lparr>w_registry := s\<rparr>)")
  from keeps ex s have w2: "valid (w_registry w2)" "tasks_progress ?m (tasks (w_registry w2))"
    unfolding executor_keeps_tasks_def by (auto dest!: spec [of _ ?n] spec [of _ "w\<lparr>w_registry := s\<rparr>"])
  from w2(2) obtain t2 where t2: "tasks (w_registry w2) uuid = Some t2" "same_task ?n t2"
    by (rule tasks_progress_Some [where k = uuid]) simp_all
  have id: "tr_task_id ?n = uuid" by (simp add: from_command_def)
  show ?thesis
  proof (cases r2)
    case (Inr x)
    have "\<exists>r. res = Inr r \<and> \<not> cr_deduplicated r \<and> cr_task_id r = uuid
        \<and> w' = increment_counter ''task_starts_total'' w2"
      using Inr sub s(3) ex id by (auto simp: create_task_submit_def reg)
    then show ?thesis using created t2 by auto
  next
    case (Inl e)
    show ?thesis
    proof (cases "is_exception e")
      case False
      then have "res = Inl CancelledError"
        using Inl sub s(3) ex by (auto simp: create_task_submit_def reg is_exception_def)
      then show ?thesis by (rule interrupted)
    next
      case True
      from update_law [OF w2(1) t2(1), of now_failed FAILED] obtain t3 s3 where u3:
        "reg_update_task_status ops now_failed uuid FAILED (w_registry w2) = (Inr t3, s3)" "valid s3"
        "tasks s3 = (tasks (w_registry w2))(uuid \<mapsto> t3)" "same_task t2 t3" "tr_status t3 = FAILED" by blast
      have "tr_task_id t3 = uuid" using t2(2) u3(4) id by (simp add: same_task_def)
      then have "res = Inl (TaskSubmissionError (''Failed to submit task '' @ uuid))" "w_registry w' = s3"
        using True Inl sub s(3) ex u3(1) id by (auto simp: create_task_submit_def reg on_registry_def)
      then show ?thesis using submission [of t3] u3(3,5) same_task_trans [OF t2(2) u3(4)] by simp
    qed
  qed
qed

lemma http_create_effect:
  assumes v: "valid (w_registry w)" and u: "unique_requests (tasks (w_registry w))"
    and reg: "cs_registry svc = ops"
    and keeps: "executor_keeps_tasks valid tasks (cs_executor svc)"
    and run: "http_create_task S loads upload svc now now_failed uuid auth request w = (res, w')"
  shows "hr_status_code (respond res) \<in> {200, 201, 400, 401, 403, 404, 409, 500, 503}
    \<and> (hr_status_code (respond res) \<in> {400, 401, 403, 404, 409} \<longrightarrow> w' = w)
    \<and> (hr_status_code (respond res) = 200 \<longrightarrow>
         w' = increment_counter ''duplicates_total'' w
         \<and> (\<exists>command r t. res = Inr \<lparr>hr_status_code = 200, hr_body = CreatedBody r\<rparr>
              \<and> (\<exists>a. auth = Inr a \<and> parse_create_task_command S loads upload a request = Inr command)
              \<and> tasks (w_registry w) (cr_task_id r) = Some t
              \<and> tr_owner_id t = ac_subject (cc_auth_context command)
              \<and> tr_client_request_id t = cc_client_request_id command))
    \<and> (hr_status_code (respond res) = 201 \<longrightarrow>
         (\<exists>command r t. res = Inr \<lparr>hr_status_code = 201, hr_body = CreatedBody r\<rparr>
            \<and> (\<exists>a. auth = Inr a \<and> parse_create_task_command S loads upload a request = Inr command)
            \<and> cr_task_id r = uuid \<and> tasks (w_registry w') uuid = Some t
            \<and> same_task (from_command now uuid command) t))
    \<and> (hr_status_code (respond res) = 503 \<longrightarrow>
         w' = w \<or> (\<exists>t. tasks (w_registry w') uuid = Some t \<and> tr_status t = FAILED))"
proof -
  have codes: "hr_status_code (respond (Inl e)) \<in> {400, 401, 403, 404, 409, 500, 503}" for e
    by (cases e) (simp_all add: handle_taskbridge_error_def)
  have no_effect: ?thesis if "res = Inl e" "w' = w" for e
    using codes [of e] that by auto
  show ?thesis
  proof (cases auth)
    case (Inl e)
    then have "res = Inl e" "w' = w" using run by (auto simp: http_create_task_def)
    then show ?thesis by (rule no_effect)
  next
    case a: (Inr a)
    show ?thesis
    proof (cases "parse_create_task_command S loads upload a request")
      case (Inl e)
      then have "res = Inl e" "w' = w" using a run by (auto simp: http_create_task_def)
      then show ?thesis by (rule no_effect)
    next
      case c: (Inr command)
      obtain res1 w1 where run1: "create_task svc now now_failed uuid command w = (res1, w1)"
        by (cases "create_task svc now now_failed uuid command w")
      have run': "(case res1 of Inl e \<Rightarrow> (Inl e, w1)
          | Inr r \<Rightarrow> (Inr \<lparr>hr_status_code = (if cr_deduplicated r then 200 else 201),
                          hr_body = CreatedBody r\<rparr>, w1)) = (res, w')"
        using run by (cases res1) (simp_all add: http_create_task_def a c run1)
      from v u reg keeps run1 show ?thesis
      proof (cases rule: create_task_outcome)
        case (rejected e)
        with run' have "res = Inl e" "w' = w" by simp_all
        then show ?thesis by (rule no_effect)
      next
        case (duplicate r t)
        with run' a c show ?thesis by auto
      next
        case (created r t)
        with run' a c show ?thesis by auto
      next
        case (submission t)
        with run' show ?thesis by (auto simp: handle_taskbridge_error_def)
      next
        case interrupted
        with run' show ?thesis by auto
      qed
    qed
  qed
qed

end

section \<open>Properties\<close>

text \<open>
  C15. What the status code of a create request tells the client: on 4xx nothing happened; on
  200 nothing happened either and the task answered is the caller's earlier task for the
  client request id; on 201 the new task is in the registry, as the parsed command describes
  it; on 503 nothing happened or the task is left FAILED. No other codes but 500 occur.
\<close>

theorem http_create_status_tells_effect:
  assumes "tasks_valid (w_registry w)" "unique_requests (dict_get (w_registry w))"
    and "cs_registry svc = demo_registry"
    and "executor_keeps_tasks tasks_valid dict_get (cs_executor svc)"
    and "http_create_task S loads upload svc now now_failed uuid auth request w = (res, w')"
  shows "hr_status_code (respond res) \<in> {200, 201, 400, 401, 403, 404, 409, 500, 503}
    \<and> (hr_status_code (respond res) \<in> {400, 401, 403, 404, 409} \<longrightarrow> w' = w)
    \<and> (hr_status_code (respond res) = 200 \<longrightarrow>
         w' = increment_counter ''duplicates_total'' w
         \<and> (\<exists>command r t. res = Inr \<lparr>hr_status_code = 200, hr_body = CreatedBody r\<rparr>
              \<and> (\<exists>a. auth = Inr a \<and> parse_create_task_command S loads upload a request = Inr command)
              \<and> dict_get (w_registry w) (cr_task_id r) = Some t
              \<and> tr_owner_id t = ac_subject (cc_auth_context command)
              \<and> tr_client_request_id t = cc_client_request_id command))
    \<and> (hr_status_code (respond res) = 201 \<longrightarrow>
         (\<exists>command r t. res = Inr \<lparr>hr_status_code = 201, hr_body = CreatedBody r\<rparr>
            \<and> (\<exists>a. auth = Inr a \<and> parse_create_task_command S loads upload a request = Inr command)
            \<and> cr_task_id r = uuid \<and> dict_get (w_registry w') uuid = Some t
            \<and> same_task (from_command now uuid command) t))
    \<and> (hr_status_code (respond res) = 503 \<longrightarrow>
         w' = w \<or> (\<exists>t. dict_get (w_registry w') uuid = Some t \<and> tr_status t = FAILED))"
  using assms by (rule demo_reg.http_create_effect)

text \<open>
  C24. A create request that parses keeps the upload limits: every attachment has the size it
  states, at most the configured maximum, an allowed content type, and a file name that is not
  empty and has no directory part; the attachments are the contents of the uploaded files, in
  order, the command is the caller's, and the upload policy has agreed to it.
\<close>

theorem uploads_bounded:
  assumes "parse_create_task_command S loads upload auth request = Inr command"
  shows "list_all (attachment_ok S) (cc_attachments command)
    \<and> cc_auth_context command = auth \<and> upload auth (cc_attachments command) = Inr ()
    \<and> (cc_attachments command = [] \<or> (\<exists>form. rq_form request = Inr form
         \<and> map at_content (cc_attachments command)
           = concat (map (\<lambda>v. case v of FormText _ \<Rightarrow> [] | FormFile f \<Rightarrow> [uf_content f])
               (form_getlist form ''attachment'' @ form_getlist form ''attachments''))))"
  using assms
  by (auto simp: parse_create_task_command_def parse_json_body_def parse_form_def Let_def
      split: if_splits sum.splits option.splits dest!: parse_attachments_ok)


text \<open>
  A marker that is not an event id is not among the errors the endpoint answers: on the
  demo store the caller of an owned task gets an internal server error as soon as the task has
  an event, and before that an empty page that hands the marker back to be used again.
\<close>

theorem http_poll_malformed_marker:
  assumes "ps_registry svc = demo_registry" "ps_event_store svc = demo_event_store"
    and "tasks_valid (w_registry w)" "ordered_by key_newer key_ok (w_events w)"
    and "dict_get (w_registry w) tid = Some t"
    and "op_assert_task_access (ps_ownership_policy svc) auth t = Inr ()"
    and "0 \<le> waitTimeoutMs" "waitTimeoutMs \<le> 60000" "1 \<le> maxEvents" "maxEvents \<le> 500"
    and "\<not> key_ok c"
  shows "respond (fst (http_poll_events svc (Inr auth) tid (Some c) waitTimeoutMs maxEvents w)) =
    (if task_events (w_events w) tid = []
     then \<lparr>hr_status_code = 200, hr_body = PollBody \<lparr>pr_task_id = tid, pr_events = [],
            pr_next_after_event_id = Some c, pr_has_more = False\<rparr>\<rparr>
     else \<lparr>hr_status_code = 500, hr_body = ServerErrorBody\<rparr>)"
proof -
  have sel: "demo_select tid (Some c) evs =
      (if task_events evs tid = [] then Inr [] else Inl (ValueError ''invalid literal for int() with base 10''))"
    if "\<forall>e \<in> set evs. key_ok (ev_event_id e)" for evs
    using that assms(11)
    by (induction evs) (auto simp: task_events_def is_newer_event_def key_ok_def split: option.splits)
  have "demo_select tid (Some c) (w_events w) =
      (if task_events (w_events w) tid = [] then Inr []
       else Inl (ValueError ''invalid literal for int() with base 10''))"
    by (rule sel) (use assms(4) in \<open>simp add: ordered_by_def\<close>)
  moreover have "get_owned_task_or_raise_not_found demo_registry (ps_ownership_policy svc) tid auth (w_registry w)
      = Inr t"
    using demo_reg.get_owned_task_eq [OF assms(3)] assms(5,6) by simp
  ultimately have "fst (poll_events svc tid auth (Some c) maxEvents (Some waitTimeoutMs) w) =
      (if task_events (w_events w) tid = [] then Inr (poll_result tid (Some c) maxEvents [])
       else Inl (ValueError ''invalid literal for int() with base 10''))"
    using assms(9) by (simp add: poll_events_def assms(1,2) demo_event_store_def demo_read_events_after_def
        demo_wait_for_events_def)
  then show ?thesis
    using assms(7-10)
    by (cases "poll_events svc tid auth (Some c) maxEvents (Some waitTimeoutMs) w")
      (auto simp: http_poll_events_def handle_http_polling_def poll_result_def split: if_splits)
qed

text \<open>
  A JSON create request whose body is not JSON, or does not fit the request model, is
  answered with an internal server error, because neither error is one the handlers know; the
  same request without its client request id, sent as a form, is answered 400.
\<close>

theorem http_create_bad_json_is_500:
  assumes "rq_content_type request = Some ct" "startswith ct ''application/json''"
    and "\<And>body. rq_json request = Inr body \<Longrightarrow> \<exists>e. validate_create body = Inl e"
    and "\<And>e. rq_json request = Inl e \<Longrightarrow> is_value_error e"
    and "rq_content_type form_request = Some ''multipart/form-data''"
    and "rq_form form_request = Inr form" "form_get form ''clientRequestId'' = None"
  shows "respond (fst (http_create_task S loads upload svc now now_failed uuid (Inr auth) request w))
      = \<lparr>hr_status_code = 500, hr_body = ServerErrorBody\<rparr>
    \<and> snd (http_create_task S loads upload svc now now_failed uuid (Inr auth) request w) = w
    \<and> respond (fst (http_create_task S loads upload svc now now_failed uuid (Inr auth) form_request w))
      = \<lparr>hr_status_code = 400,
         hr_body = ErrorBody ''INVALID_REQUEST'' ''Missing required field: clientRequestId''\<rparr>"
proof -
  have val: "is_value_error e" if "validate_create body = Inl e" for body e
    using that by (auto simp: validate_create_def Let_def split: json.splits option.splits prod.splits if_splits)
  have "\<exists>e. parse_create_task_command S loads upload auth request = Inl e \<and> is_value_error e"
    using assms(1-4) val
    by (cases "rq_json request") (fastforce simp: parse_create_task_command_def parse_json_body_def)+
  then obtain e where e: "parse_create_task_command S loads upload auth request = Inl e" "is_value_error e"
    by blast
  have "\<not> is_taskbridge_error e" using e(2) by (cases e) simp_all
  moreover have "\<not> startswith ''multipart/form-data'' ''application/json''"
    "startswith ''multipart/form-data'' ''multipart/form-data''"
    by (simp_all add: startswith_def)
  then have "parse_create_task_command S loads upload auth form_request
      = Inl (InvalidRequestError ''Missing required field: clientRequestId'')"
    using assms(5-7) by (simp add: parse_create_task_command_def parse_form_def form_required_text_def)
  ultimately show ?thesis
    by (simp add: http_create_task_def e(1) handle_taskbridge_error_def)
qed

end
