(* ===== verification/WsProperties.thy ===== *)
theory WsProperties
  imports WsSession TaskProperties
begin

text \<open>
  What a WebSocket session guarantees: which events it sends, when it closes, what it does with
  a client that may not subscribe, and that the two implementations of the endpoint behave
  alike. The delivery lemmas are proved in \<open>event_reader\<close> for every store that keeps the
  contract and applied to the demo store.
\<close>

section \<open>What was sent\<close>

fun sent_events :: "ws_out list \<Rightarrow> task_event list" where
  "sent_events [] = []"
| "sent_events (WsSent (EventFrame e) # xs) = e # sent_events xs"
| "sent_events (x # xs) = sent_events xs"

lemma sent_events_append [simp]: "sent_events (xs @ ys) = sent_events xs @ sent_events ys"
  by (induction xs rule: sent_events.induct) auto

lemma sent_events_map [simp]: "sent_events (map (\<lambda>e. WsSent (EventFrame e)) es) = es"
  by (induction es) auto

lemma io_simps [simp]:
  "io_out (ws_put x io) = io_out io @ [x]" "io_out (ws_metric m io) = io_out io"
  "io_out (ws_diag d io) = io_out io" "io_sends (ws_put x io) = io_sends io"
  "io_sends (ws_metric m io) = io_sends io" "io_sends (ws_diag d io) = io_sends io"
  "io_inbox (ws_put x io) = io_inbox io" "io_inbox (ws_metric m io) = io_inbox io"
  "io_inbox (ws_diag d io) = io_inbox io" "io_metrics (ws_put x io) = io_metrics io"
  "io_metrics (ws_metric m io) = io_metrics io @ [m]" "io_metrics (ws_diag d io) = io_metrics io"
  by (simp_all add: ws_put_def ws_metric_def ws_diag_def)

lemma ws_send_cases:
  obtains (sent) io' where "ws_send f io = (Inr (), io')" "io_out io' = io_out io @ [WsSent f]"
      "io_sends io' = None \<longleftrightarrow> io_sends io = None"
  | (broken) "ws_send f io = (Inl (WebSocketDisconnect 1006), io)" "io_sends io = Some 0"
  by (cases "io_sends io"; cases "the (io_sends io)") (auto simp: ws_send_def)

lemma ws_send_up: "io_sends io = None \<Longrightarrow> ws_send f io = (Inr (), ws_put (WsSent f) io)"
  by (simp add: ws_send_def)

text \<open>What \<open>send_events\<close> does: all of the batch, or a part of it and \<open>WebSocketDisconnect\<close>.\<close>

lemma send_events_spec:
  "\<exists>k io'. k \<le> length es
    \<and> io_out io' = io_out io @ map (\<lambda>e. WsSent (EventFrame e)) (take k es)
    \<and> (io_sends io' = None \<longleftrightarrow> io_sends io = None)
    \<and> (send_events es seen io = (Inl (WebSocketDisconnect 1006), io') \<and> io_sends io \<noteq> None
       \<or> send_events es seen io
           = (Inr (seen \<or> (\<exists>e \<in> set es. is_terminal_event (ev_type e))), io') \<and> k = length es)"
proof (induction es arbitrary: seen io)
  case Nil
  show ?case by (rule exI [of _ 0], rule exI [of _ io]) simp
next
  case (Cons e es)
  show ?case
  proof (cases rule: ws_send_cases [of "EventFrame e" io])
    case (sent io1)
    let ?seen = "seen \<or> is_terminal_event (ev_type e)"
    have eq: "send_events (e # es) seen io = send_events es ?seen io1" using sent(1) by simp
    from Cons.IH [of io1 ?seen] obtain k io' where ih: "k \<le> length es
      \<and> io_out io' = io_out io1 @ map (\<lambda>e. WsSent (EventFrame e)) (take k es)
      \<and> (io_sends io' = None \<longleftrightarrow> io_sends io1 = None)
      \<and> (send_events es ?seen io1 = (Inl (WebSocketDisconnect 1006), io') \<and> io_sends io1 \<noteq> None
       \<or> send_events es ?seen io1
           = (Inr (?seen \<or> (\<exists>e \<in> set es. is_terminal_event (ev_type e))), io') \<and> k = length es)"
      by (elim exE)
    note k = ih [THEN conjunct1] ih [THEN conjunct2, THEN conjunct1]
      ih [THEN conjunct2, THEN conjunct2, THEN conjunct1]
      and r = ih [THEN conjunct2, THEN conjunct2, THEN conjunct2]
    have out: "io_out io' = io_out io @ map (\<lambda>e. WsSent (EventFrame e)) (take (Suc k) (e # es))"
      using k(2) sent(2) by simp
    from r show ?thesis
    proof
      assume "send_events es ?seen io1 = (Inl (WebSocketDisconnect 1006), io') \<and> io_sends io1 \<noteq> None"
      then show ?thesis
        by (intro exI [of _ "Suc k"] exI [of _ io'] conjI disjI1) (use eq k out sent(3) in simp_all)
    next
      assume "send_events es ?seen io1 = (Inr (?seen \<or> (\<exists>e \<in> set es. is_terminal_event (ev_type e))), io') \<and> k = length es"
      then show ?thesis
        by (intro exI [of _ "Suc k"] exI [of _ io'] conjI disjI2) (use eq k out sent(3) in simp_all)
    qed
  next
    case broken
    then show ?thesis by (intro exI [of _ 0] exI [of _ io]) simp
  qed
qed

lemma send_events_cases:
  obtains (down) k io' where "send_events es False io = (Inl (WebSocketDisconnect 1006), io')"
      "io_sends io \<noteq> None" "io_out io' = io_out io @ map (\<lambda>e. WsSent (EventFrame e)) (take k es)"
  | (closing) io' where "send_events es False io = (Inr True, io')"
      "\<exists>e \<in> set es. is_terminal_event (ev_type e)"
      "io_out io' = io_out io @ map (\<lambda>e. WsSent (EventFrame e)) es"
  | (continuing) io' where "send_events es False io = (Inr False, io')"
      "\<forall>e \<in> set es. \<not> is_terminal_event (ev_type e)"
      "io_out io' = io_out io @ map (\<lambda>e. WsSent (EventFrame e)) es"
      "io_sends io' = None \<longleftrightarrow> io_sends io = None"
proof -
  from send_events_spec [of es io False] obtain k io' where
    k: "io_out io' = io_out io @ map (\<lambda>e. WsSent (EventFrame e)) (take k es)"
      "io_sends io' = None \<longleftrightarrow> io_sends io = None"
    and r: "send_events es False io = (Inl (WebSocketDisconnect 1006), io') \<and> io_sends io \<noteq> None
      \<or> send_events es False io
          = (Inr (False \<or> (\<exists>e \<in> set es. is_terminal_event (ev_type e))), io') \<and> k = length es"
    by (elim exE conjE) (rule that)
  from r show thesis
  proof
    assume "send_events es False io = (Inl (WebSocketDisconnect 1006), io') \<and> io_sends io \<noteq> None"
    with k show thesis by (intro down) auto
  next
    assume s: "send_events es False io
        = (Inr (False \<or> (\<exists>e \<in> set es. is_terminal_event (ev_type e))), io') \<and> k = length es"
    show thesis
    proof (cases "\<exists>e \<in> set es. is_terminal_event (ev_type e)")
      case True
      then show thesis using s k(1) by (intro closing [of io']) auto
    next
      case False
      then show thesis using s k by (intro continuing [of io']) auto
    qed
  qed
qed

section \<open>Delivery\<close>

text \<open>
  How many events a reader has that has \<open>k\<close> of them and then reads at most \<open>n\<close> at a time, when
  the log has \<open>Ls ! 0\<close>, \<open>Ls ! 1\<close>, ... events at the reads.
\<close>

fun delivered :: "nat \<Rightarrow> nat \<Rightarrow> nat list \<Rightarrow> nat" where
  "delivered n k [] = k"
| "delivered n k (L # Ls) = delivered n (min L (k + n)) Ls"

lemma delivered_append [simp]: "delivered n k (xs @ ys) = delivered n (delivered n k xs) ys"
  by (induction xs arbitrary: k) auto

lemma delivered_le: "k \<le> L \<Longrightarrow> \<forall>x \<in> set Ls. x \<le> L \<Longrightarrow> delivered n k Ls \<le> L"
  by (induction Ls arbitrary: k) auto

lemma delivered_replicate: "k \<le> L \<Longrightarrow> delivered n k (replicate m L) = min L (k + m * n)"
  by (induction m arbitrary: k) (auto simp: min_def)

lemma delivered_shift:
  "\<forall>L \<in> set Ls. b \<le> L \<Longrightarrow> b + delivered n k (map (\<lambda>L. L - b) Ls) = delivered n (b + k) Ls"
proof (induction Ls arbitrary: k)
  case (Cons L Ls)
  have "b + min (L - b) (k + n) = min L (b + k + n)" using Cons.prems by auto
  with Cons.IH [of "min (L - b) (k + n)"] Cons.prems show ?case by simp
qed simp

text \<open>
  How a session ends, given the events it sent and the number of events it has sent if it is
  still open.
\<close>

definition session_result :: "int \<Rightarrow> bool \<Rightarrow> nat \<Rightarrow> task_event list \<Rightarrow> exc + bool \<Rightarrow> ws_io \<Rightarrow> bool" where
  "session_result code may_break due evs r io \<longleftrightarrow>
     r = Inl (WebSocketDisconnect 1006) \<and> may_break
     \<or> r = Inr True \<and> (\<exists>e \<in> set evs. is_terminal_event (ev_type e)) \<and> last (io_out io) = WsClosed code
     \<or> r = Inr False \<and> (\<forall>e \<in> set evs. \<not> is_terminal_event (ev_type e)) \<and> length evs = due"

lemma session_result_extend:
  assumes "session_result code brk m evs r io" "\<forall>e \<in> set B. \<not> is_terminal_event (ev_type e)"
    and "m' = length B + m"
  shows "session_result code brk m' (B @ evs) r io"
  using assms unfolding session_result_def by auto

context event_reader
begin

lemma wait_for_live_events_eq:
  assumes "valid (w_events w)" "0 \<le> limit" "\<And>c. after = Some c \<Longrightarrow> checkpoint c" "ps_event_store svc = ops"
  shows "wait_for_live_events svc tid after limit timeout w
    = Inr (take (nat limit) (events_after newer after (log (w_events w) tid)))"
  using assms by (simp add: wait_for_live_events_def wait_law)

text \<open>The marker after a batch is one a reader may resume from.\<close>

lemma batch_checkpoint:
  assumes "valid s" "B \<noteq> []" "set B \<subseteq> set (events_after newer after (log s tid))"
  shows "checkpoint (ev_event_id (last B))"
proof -
  have "last B \<in> set (log s tid)"
    using assms(3) last_in_set [OF assms(2)] by (fastforce simp: events_after_def split: option.splits)
  then show ?thesis by (rule log_checkpoint [OF assms(1)])
qed

text \<open>
  One batch: taken from a log that later logs extend, it is what the later log has first, and
  what the later log has after the marker of the batch is the rest.
\<close>

lemma batch_step:
  assumes v: "valid s" and v': "valid s'" and p: "prefix (log s tid) (log s' tid)"
    and B: "B = take n (events_after newer after (log s tid))" "B \<noteq> []"
  shows "prefix B (events_after newer after (log s' tid))"
    and "events_after newer (Some (ev_event_id (last B))) (log s' tid)
           = drop (length B) (events_after newer after (log s' tid))"
    and "events_after newer (Some (ev_event_id (last B))) (log s tid)
           = drop (length B) (events_after newer after (log s tid))"
proof -
  have B0: "prefix B (events_after newer after (log s tid))" by (simp add: B(1) take_is_prefix)
  show B1: "prefix B (events_after newer after (log s' tid))"
    using B0 events_after_prefix [OF p] by (rule prefix_order.trans)
  show "events_after newer (Some (ev_event_id (last B))) (log s' tid)
      = drop (length B) (events_after newer after (log s' tid))"
    by (rule events_after_resume [OF v' B1 B(2)])
  show "events_after newer (Some (ev_event_id (last B))) (log s tid)
      = drop (length B) (events_after newer after (log s tid))"
    by (rule events_after_resume [OF v B0 B(2)])
qed

text \<open>The later reads, counted from the marker of the batch and from the marker before it.\<close>

lemma batch_rest:
  assumes "valid s" "B = take n (events_after newer after (log s tid))"
    and "\<And>s'. s' \<in> set ss \<Longrightarrow> valid s' \<and> prefix (log s tid) (log s' tid)"
  shows "length B + delivered m 0 (map (\<lambda>s'. length (events_after newer
           (if B = [] then after else Some (ev_event_id (last B))) (log s' tid))) ss)
    = delivered m (length B) (map (\<lambda>s'. length (events_after newer after (log s' tid))) ss)"
proof (cases "B = []")
  case False
  have "length (events_after newer (Some (ev_event_id (last B))) (log s' tid))
        = length (events_after newer after (log s' tid)) - length B
      \<and> length B \<le> length (events_after newer after (log s' tid))" if "s' \<in> set ss" for s'
    using batch_step(1,2) [OF assms(1) _ _ assms(2) False, of s'] assms(3) [OF that]
    by (simp add: prefix_length_le)
  note each = this
  let ?Ls = "map (\<lambda>s'. length (events_after newer after (log s' tid))) ss"
  have rest: "map (\<lambda>s'. length (events_after newer (Some (ev_event_id (last B))) (log s' tid))) ss
      = map (\<lambda>L. L - length B) ?Ls"
    using each by simp
  have "\<forall>L \<in> set ?Ls. length B \<le> L" using each by auto
  from delivered_shift [OF this, of m 0] show ?thesis
    by (simp only: if_not_P [OF False] rest add_0_right)
qed simp

lemma prefix_chain:
  "prefix B E \<Longrightarrow> prefix evs (drop (length B) E) \<Longrightarrow> prefix (B @ evs) E"
  by (auto simp: prefix_def)

text \<open>
  The live loop: in order, without gap or duplicate; closed exactly by a terminal event; and
  while it is still open, up to \<open>limit\<close> more events with each call, as many as there are.
\<close>

lemma route_live_delivers:
  assumes "0 \<le> wss_live_batch_size S" "ps_event_store svc = ops"
    and "\<And>w. w \<in> set (w0 # ws) \<Longrightarrow> valid (w_events w)"
    and "sorted_wrt (\<lambda>w w'. prefix (log (w_events w) tid) (log (w_events w') tid)) (w0 # ws)"
    and "\<And>c. after = Some c \<Longrightarrow> checkpoint c"
  shows "\<exists>r io' evs. route_live S svc tid after ws io = (r, io')
    \<and> sent_events (io_out io') = sent_events (io_out io) @ evs
    \<and> prefix evs (events_after newer after (log (w_events (last (w0 # ws))) tid))
    \<and> session_result (wss_terminal_close_code S) (io_sends io \<noteq> None)
        (delivered (nat (wss_live_batch_size S)) 0
           (map (\<lambda>w. length (events_after newer after (log (w_events w) tid))) ws)) evs r io'"
  using assms(3-5)
proof (induction ws arbitrary: w0 after io)
  case Nil
  show ?case
    by (intro exI [of _ "Inr False"] exI [of _ io] exI [of _ "[]"]) (simp add: session_result_def)
next
  case (Cons w ws)
  let ?n = "nat (wss_live_batch_size S)" and ?code = "wss_terminal_close_code S"
    and ?final = "log (w_events (last (w # ws))) tid"
  let ?due = "\<lambda>after ws. delivered ?n 0 (map (\<lambda>w. length (events_after newer after (log (w_events w) tid))) ws)"
  let ?E = "events_after newer after (log (w_events w) tid)"
  let ?B = "take ?n ?E"
  have v: "valid (w_events w)" "valid (w_events (last (w # ws)))" using Cons.prems(1) by auto
  have grows: "prefix (log (w_events w0) tid) (log (w_events w) tid)"
    "prefix (log (w_events w) tid) ?final"
    using Cons.prems(2) by auto
  have wait: "wait_for_live_events svc tid after (wss_live_batch_size S) (wss_wait_timeout_ms S) w = Inr ?B"
    by (rule wait_for_live_events_eq [OF v(1) assms(1) Cons.prems(3) assms(2)])
  have last: "last (w0 # w # ws) = last (w # ws)" by simp
  have chain: "\<And>x. x \<in> set (w # ws) \<Longrightarrow> valid (w_events x)"
    "sorted_wrt (\<lambda>w w'. prefix (log (w_events w) tid) (log (w_events w') tid)) (w # ws)"
    using Cons.prems(1,2) by auto
  show ?case
    unfolding last
  proof (cases "?B = []")
    case True
    let ?io1 = "ws_metric (Counter ''fallbacks_total'' [(''transport'', ''ws'')]) io"
    obtain x io2 where beat: "(if wss_emit_heartbeat_frame S then ws_send (Heartbeat tid) ?io1
        else (Inr (), ?io1)) = (x, io2)" by fastforce
    have step: "route_live S svc tid after (w # ws) io
        = and_then (x, io2) (\<lambda>_ io2. route_live S svc tid after ws io2)"
      using wait True beat by simp
    consider (up) "x = Inr ()" "sent_events (io_out io2) = sent_events (io_out io)"
          "(io_sends io2 = None) = (io_sends io = None)"
        | (down) "x = Inl (WebSocketDisconnect 1006)" "io2 = ?io1" "io_sends io \<noteq> None"
      using beat by (cases rule: ws_send_cases [of "Heartbeat tid" ?io1]) (auto split: if_splits)
    then show "\<exists>r io' evs. route_live S svc tid after (w # ws) io = (r, io')
      \<and> sent_events (io_out io') = sent_events (io_out io) @ evs
      \<and> prefix evs (events_after newer after ?final)
      \<and> session_result ?code (io_sends io \<noteq> None) (?due after (w # ws)) evs r io'"
    proof cases
      case up
      from Cons.IH [OF chain, where after = after and io = io2] Cons.prems(3) obtain r io' evs where
        ih: "route_live S svc tid after ws io2 = (r, io')"
        "sent_events (io_out io') = sent_events (io_out io2) @ evs"
        "prefix evs (events_after newer after ?final)"
        "session_result ?code (io_sends io2 \<noteq> None) (?due after ws) evs r io'" by blast
      have "min (length ?E) (0 + ?n) = 0" using True by auto
      with ih(4) up(3) have "session_result ?code (io_sends io \<noteq> None) (?due after (w # ws)) evs r io'"
        by simp
      with ih(1-3) up(1,2) step show ?thesis
        by (intro exI [of _ r] exI [of _ io'] exI [of _ evs]) (simp del: route_live.simps)
    next
      case down
      with step show ?thesis
        by (intro exI [of _ "Inl (WebSocketDisconnect 1006)"] exI [of _ io2] exI [of _ "[]"])
          (simp add: session_result_def)
    qed
  next
    case False
    then obtain e es where Bes: "?B = e # es" by (cases ?B) auto
    note bs = batch_step [OF v grows(2) refl False]
    let ?next = "Some (ev_event_id (last ?B))"
    have next_ok: "\<And>c. ?next = Some c \<Longrightarrow> checkpoint c"
      using batch_checkpoint [OF v(1) False] by (auto dest: in_set_takeD)
    have step: "route_live S svc tid after (w # ws) io = and_then (send_events ?B False io)
        (\<lambda>c io2. if c then (Inr True, ws_put (WsClosed ?code) io2)
           else route_live S svc tid ?next ws io2)"
      by (simp only: route_live.simps wait) (simp only: Bes sum.case list.case)
    show "\<exists>r io' evs. route_live S svc tid after (w # ws) io = (r, io')
      \<and> sent_events (io_out io') = sent_events (io_out io) @ evs
      \<and> prefix evs (events_after newer after ?final)
      \<and> session_result ?code (io_sends io \<noteq> None) (?due after (w # ws)) evs r io'"
    proof (cases rule: send_events_cases [of ?B io])
      case (down k io1)
      have "prefix (take k ?B) (events_after newer after ?final)"
        using take_is_prefix bs(1) by (rule prefix_order.trans)
      with down step show ?thesis
        by (intro exI [of _ "Inl (WebSocketDisconnect 1006)"] exI [of _ io1] exI [of _ "take k ?B"])
          (simp add: session_result_def del: route_live.simps)
    next
      case (closing io1)
      with step bs(1) show ?thesis
        by (intro exI [of _ "Inr True"] exI [of _ "ws_put (WsClosed ?code) io1"] exI [of _ ?B])
          (simp add: session_result_def del: route_live.simps)
    next
      case (continuing io1)
      from Cons.IH [OF chain next_ok, where io = io1] obtain r io' evs where
        ih: "route_live S svc tid ?next ws io1 = (r, io')"
        "sent_events (io_out io') = sent_events (io_out io1) @ evs"
        "prefix evs (events_after newer ?next ?final)"
        "session_result ?code (io_sends io1 \<noteq> None) (?due ?next ws) evs r io'"
        by blast
      have pre: "prefix (?B @ evs) (events_after newer after ?final)"
        using ih(3) unfolding bs(2) by (rule prefix_chain [OF bs(1)])
      have "valid s' \<and> prefix (log (w_events w) tid) (log s' tid)" if "s' \<in> set (map w_events ws)" for s'
        using that Cons.prems(1,2) by auto
      from batch_rest [OF v(1) refl this, where n = ?n and m = ?n and after = after and ss = "map w_events ws"] False
      have "?due after (w # ws) = length ?B + ?due ?next ws" by (simp add: comp_def)
      from session_result_extend [OF ih(4) continuing(2) this] continuing(4)
      have "session_result ?code (io_sends io \<noteq> None) (?due after (w # ws)) (?B @ evs) r io'"
        by simp
      moreover have "sent_events (io_out io') = sent_events (io_out io) @ (?B @ evs)"
        using ih(2) continuing(3) by simp
      moreover have "route_live S svc tid after (w # ws) io = (r, io')"
        using step continuing(1) ih(1) by simp
      ultimately show ?thesis using pre by blast
    qed
  qed
qed

lemma ws_prepare_eq:
  assumes "valid (w_events w)" "0 \<le> limit" "\<And>c. after = Some c \<Longrightarrow> checkpoint c"
    and "ps_event_store svc = ops"
    and "get_owned_task_or_raise_not_found (ps_registry svc) (ps_ownership_policy svc) tid auth
           (w_registry w) = Inr t"
  shows "\<exists>io'. ws_prepare svc tid auth after limit w io
      = (Inr (poll_result tid after limit
               (take (nat limit) (events_after newer after (log (w_events w) tid)))), io')
    \<and> io_out io' = io_out io \<and> io_sends io' = io_sends io"
  using assms by (simp add: ws_prepare_def prepare_subscription_def read_law)

text \<open>The whole session of a client that may subscribe.\<close>

lemma task_events_ws_delivers:
  assumes sizes: "0 \<le> wss_replay_batch_size S" "0 \<le> wss_live_batch_size S"
    and store: "ps_event_store svc = ops"
    and v: "\<And>w. w \<in> set (w0 # ws) \<Longrightarrow> valid (w_events w)"
    and grow: "sorted_wrt (\<lambda>w w'. prefix (log (w_events w) (sub_task_id req)) (log (w_events w') (sub_task_id req))) (w0 # ws)"
    and owned: "get_owned_task_or_raise_not_found (ps_registry svc) (ps_ownership_policy svc)
           (sub_task_id req) auth (w_registry w0) = Inr t"
    and req: "validate_subscribe j = Inr req"
    and after: "\<And>c. sub_last_event_id req = Some c \<Longrightarrow> checkpoint c"
  shows "\<exists>r io'. task_events_ws S svc auth w0 ws (fresh_io (ClientJson j # inbox) sends) = (r, io')
    \<and> prefix (sent_events (io_out io'))
        (events_after newer (sub_last_event_id req) (log (w_events (last (w0 # ws))) (sub_task_id req)))
    \<and> (r = Inr True \<and> (sends \<noteq> None \<or> (\<exists>e \<in> set (sent_events (io_out io')). is_terminal_event (ev_type e))
             \<and> last (io_out io') = WsClosed (wss_terminal_close_code S))
       \<or> r = Inr False \<and> (\<forall>e \<in> set (sent_events (io_out io')). \<not> is_terminal_event (ev_type e))
         \<and> length (sent_events (io_out io')) = delivered (nat (wss_live_batch_size S))
             (min (length (events_after newer (sub_last_event_id req) (log (w_events w0) (sub_task_id req))))
                  (nat (wss_replay_batch_size S)))
             (map (\<lambda>w. length (events_after newer (sub_last_event_id req)
                          (log (w_events w) (sub_task_id req)))) ws))"
proof -
  let ?tid = "sub_task_id req" and ?after = "sub_last_event_id req"
  let ?Start = "events_after newer ?after (log (w_events w0) ?tid)"
  let ?B = "take (nat (wss_replay_batch_size S)) ?Start"
  let ?final = "log (w_events (last (w0 # ws))) ?tid"
  let ?code = "wss_terminal_close_code S" and ?n = "nat (wss_live_batch_size S)"
  let ?due = "\<lambda>k after. delivered ?n k (map (\<lambda>w. length (events_after newer after (log (w_events w) ?tid))) ws)"
  let ?run = "task_events_ws S svc auth w0 ws (fresh_io (ClientJson j # inbox) sends)"
  let ?opened = "ws_put WsAccepted (fresh_io (ClientJson j # inbox) sends)"
  have v0: "valid (w_events w0)" "valid (w_events (last (w0 # ws)))" using v by auto
  have grow0: "prefix (log (w_events w0) ?tid) ?final" using grow by auto
  have recv: "receive_subscribe_request (wss_invalid_frame_close_code S) ?opened
      = (Inr req, ?opened\<lparr>io_inbox := inbox\<rparr>)"
    using req by (simp add: receive_subscribe_request_def receive_json_def fresh_io_def ws_put_def)
  from ws_prepare_eq [OF v0(1) sizes(1) after store owned, where io = "?opened\<lparr>io_inbox := inbox\<rparr>"] obtain io2 where
    prep: "ws_prepare svc ?tid auth ?after (wss_replay_batch_size S) w0 (?opened\<lparr>io_inbox := inbox\<rparr>)
        = (Inr (poll_result ?tid ?after (wss_replay_batch_size S) ?B), io2)"
      "io_out io2 = [WsAccepted]" "io_sends io2 = sends"
    by (auto simp: fresh_io_def ws_put_def)
  have events: "pr_events (poll_result ?tid ?after (wss_replay_batch_size S) ?B) = ?B"
    "pr_next_after_event_id (poll_result ?tid ?after (wss_replay_batch_size S) ?B)
       = (if ?B = [] then ?after else Some (ev_event_id (last ?B)))"
    by (simp_all add: poll_result_def)
  have ends: "\<exists>r' io''. ws_finally (route_except c (r, io')) = (r', io'') \<and> io_out io'' = io_out io'
      \<and> r' = (if r = Inl (WebSocketDisconnect 1006) then Inr True else r)"
    if "r = Inl (WebSocketDisconnect 1006) \<or> r = Inr True \<or> r = Inr False" for r io' c
    using that by auto
  show ?thesis
  proof (cases rule: ws_send_cases [of "SubscriptionConfirmed ?tid ?after" io2])
    case broken
    then have "?run = (Inr True, ws_metric (Gauge ''streams_active'' 0 [(''transport'', ''ws'')]) io2)"
      using recv prep(1) by (simp add: task_events_ws_def route_body_def)
    then show ?thesis using broken prep(2,3) by simp
  next
    case (sent io3)
    let ?active = "ws_metric (Gauge ''streams_active'' 1 [(''transport'', ''ws'')]) io3"
    let ?ready = "if ?after = None then ?active
      else ws_metric (Counter ''replays_total'' [(''transport'', ''ws'')]) ?active"
    have io5: "sent_events (io_out ?ready) = []" "(io_sends ?ready = None) = (sends = None)"
      using sent prep(2,3) by auto
    have body: "?run = ws_finally (route_except (wss_invalid_frame_close_code S)
        (and_then (send_events ?B False ?ready) (\<lambda>c io6. if c then (Inr True, ws_put (WsClosed ?code) io6)
           else route_live S svc ?tid (if ?B = [] then ?after else Some (ev_event_id (last ?B))) ws io6)))"
      unfolding task_events_ws_def route_body_def recv and_then.simps prep(1) sent(1) Let_def events ..
    have B: "prefix ?B (events_after newer ?after ?final)"
      using take_is_prefix events_after_prefix [OF grow0] by (rule prefix_order.trans)
    show ?thesis
    proof (cases rule: send_events_cases [of ?B ?ready])
      case (down k io6)
      have run: "?run = (Inr True, ws_metric (Gauge ''streams_active'' 0 [(''transport'', ''ws'')]) io6)"
        unfolding body down(1) by simp
      have "prefix (take k ?B) (events_after newer ?after ?final)"
        using take_is_prefix B by (rule prefix_order.trans)
      then show ?thesis unfolding run using down(2,3) io5 by simp
    next
      case (closing io6)
      have run: "?run = (Inr True, ws_metric (Gauge ''streams_active'' 0 [(''transport'', ''ws'')])
          (ws_put (WsClosed ?code) io6))"
        unfolding body closing(1) by simp
      show ?thesis unfolding run using closing(2,3) io5 B by simp
    next
      case (continuing io6)
      let ?next = "if ?B = [] then ?after else Some (ev_event_id (last ?B))"
      have next_ok: "\<And>c. ?next = Some c \<Longrightarrow> checkpoint c"
        using after batch_checkpoint [OF v0(1), of ?B ?after ?tid] by (auto dest: in_set_takeD split: if_splits)
      from route_live_delivers [OF sizes(2) store v grow next_ok, where io = io6] obtain r io' evs where
        live: "route_live S svc ?tid ?next ws io6 = (r, io')"
        "sent_events (io_out io') = sent_events (io_out io6) @ evs"
        "prefix evs (events_after newer ?next ?final)"
        "session_result ?code (io_sends io6 \<noteq> None) (?due 0 ?next) evs r io'" by blast
      have rest: "events_after newer ?next ?final = drop (length ?B) (events_after newer ?after ?final)"
        using batch_step [OF v0 grow0 refl, where n = "nat (wss_replay_batch_size S)" and after = ?after] by auto
      have all: "sent_events (io_out io') = ?B @ evs"
        using live(2) continuing(3) io5(1) by simp
      have pre: "prefix (?B @ evs) (events_after newer ?after ?final)"
        using live(3) unfolding rest by (rule prefix_chain [OF B])
      from live(4) have "r = Inl (WebSocketDisconnect 1006) \<or> r = Inr True \<or> r = Inr False"
        by (auto simp: session_result_def)
      from ends [OF this, of "wss_invalid_frame_close_code S" io'] obtain r' io'' where
        fin: "ws_finally (route_except (wss_invalid_frame_close_code S) (r, io')) = (r', io'')"
        "io_out io'' = io_out io'" "r' = (if r = Inl (WebSocketDisconnect 1006) then Inr True else r)" by blast
      have run: "?run = (r', io'')"
        unfolding body continuing(1) using live(1) fin(1) by simp
      have "valid s' \<and> prefix (log (w_events w0) ?tid) (log s' ?tid)" if "s' \<in> set (map w_events ws)" for s'
        using that v grow by auto
      from batch_rest [OF v0(1) refl this, where n = "nat (wss_replay_batch_size S)" and m = ?n and after = ?after and ss = "map w_events ws"]
      have due: "length ?B + ?due 0 ?next = ?due (length ?B) ?after" by (simp add: comp_def)
      have sends: "io_sends io6 \<noteq> None \<longleftrightarrow> sends \<noteq> None" using continuing(4) io5(2) by simp
      have pre': "prefix (sent_events (io_out io'')) (events_after newer ?after ?final)"
        using pre by (simp only: fin(2) all)
      from live(4) consider (gone) "r = Inl (WebSocketDisconnect 1006)" "sends \<noteq> None"
        | (ended) "r = Inr True" "\<exists>e \<in> set evs. is_terminal_event (ev_type e)" "last (io_out io') = WsClosed ?code"
        | (still) "r = Inr False" "\<forall>e \<in> set evs. \<not> is_terminal_event (ev_type e)"
            "length evs = ?due 0 ?next"
        unfolding session_result_def sends by blast
      then show ?thesis
      proof cases
        case gone
        with fin(3) have "r' = Inr True" by simp
        with run pre' gone(2) show ?thesis by blast
      next
        case ended
        with fin(3) have "r' = Inr True" by simp
        moreover have "\<exists>e \<in> set (sent_events (io_out io'')). is_terminal_event (ev_type e)"
          using ended(2) by (auto simp: fin(2) all)
        moreover have "last (io_out io'') = WsClosed ?code" using ended(3) by (simp only: fin(2))
        ultimately show ?thesis using run pre' by blast
      next
        case still
        with fin(3) have "r' = Inr False" by simp
        moreover have "\<forall>e \<in> set (sent_events (io_out io'')). \<not> is_terminal_event (ev_type e)"
          using still(2) continuing(2) by (auto simp: fin(2) all simp del: set_take_subset dest: in_set_takeD)
        moreover have "length (sent_events (io_out io'')) = ?due (min (length ?Start) (nat (wss_replay_batch_size S))) ?after"
          using due still(3) by (simp add: fin(2) all)
        ultimately show ?thesis using run pre' by blast
      qed
    qed
  qed
qed

end

section \<open>The two implementations\<close>

text \<open>What the client and the host see of a session: its frames and the gauge of open streams.\<close>

definition is_gauge :: "metric \<Rightarrow> bool" where
  "is_gauge m = (case m of Gauge n v tags \<Rightarrow> True | Counter n tags \<Rightarrow> False)"

definition same_view :: "ws_io \<Rightarrow> ws_io \<Rightarrow> bool" where
  "same_view a b \<longleftrightarrow> io_inbox a = io_inbox b \<and> io_sends a = io_sends b \<and> io_out a = io_out b
     \<and> filter is_gauge (io_metrics a) = filter is_gauge (io_metrics b)"

definition same_run :: "'a \<times> ws_io \<Rightarrow> 'a \<times> ws_io \<Rightarrow> bool" where
  "same_run m m' \<longleftrightarrow> fst m = fst m' \<and> same_view (snd m) (snd m')"

lemma same_view_refl [simp]: "same_view io io"
  by (simp add: same_view_def)

lemma same_view_put [intro]: "same_view a b \<Longrightarrow> same_view (ws_put x a) (ws_put x b)"
  by (simp add: same_view_def)

lemma same_view_gauge [intro]: "same_view a b \<Longrightarrow> same_view (ws_metric m a) (ws_metric m b)"
  by (simp add: same_view_def)

lemma same_view_silent [intro]:
  "same_view a b \<Longrightarrow> same_view (ws_metric (Counter n t) a) b"
  "same_view a b \<Longrightarrow> same_view a (ws_diag d b)"
  by (simp_all add: same_view_def is_gauge_def)

lemma same_run_pair [simp]: "same_run (r, a) (r', b) \<longleftrightarrow> r = r' \<and> same_view a b"
  by (simp add: same_run_def)

lemma same_run_and_then [intro]:
  assumes "same_run m m'" "\<And>a s s'. same_view s s' \<Longrightarrow> same_run (k a s) (k' a s')"
  shows "same_run (and_then m k) (and_then m' k')"
  using assms by (cases m; cases m'; cases "fst m") auto

lemma same_run_send [intro]: "same_view a b \<Longrightarrow> same_run (ws_send f a) (ws_send f b)"
  by (auto simp: ws_send_def same_view_def ws_put_def split: option.splits nat.splits)

lemma same_run_send_events [intro]:
  "same_view a b \<Longrightarrow> same_run (send_events es seen a) (send_events es seen b)"
proof (induction es arbitrary: seen a b)
  case (Cons e es)
  show ?case
    unfolding send_events.simps using Cons.IH Cons.prems by (intro same_run_and_then same_run_send)
qed simp

lemma same_run_receive [intro]: "same_view a b \<Longrightarrow> same_run (receive_json a) (receive_json b)"
  by (auto simp: receive_json_def same_view_def split: list.splits client_frame.splits)

lemma same_view_fold_diag [intro]: "same_view a b \<Longrightarrow> same_view a (fold (\<lambda>x. ws_diag (f x)) xs b)"
  by (induction xs arbitrary: b) (auto simp: same_view_def)

lemma same_run_prepare [intro]:
  assumes "same_view a b"
  shows "same_run (ws_prepare svc tid auth after limit w a) (ws_prepare svc tid auth after limit w b)"
  using assms by (auto simp: ws_prepare_def prepare_subscription_def same_view_def is_gauge_def
      split: sum.splits)

lemma same_run_live:
  assumes "wss_emit_heartbeat_frame S" "same_view a b"
  shows "same_run (route_live S svc tid after ws a) (handler_live S svc tid after ws b)"
  using assms(2)
proof (induction ws arbitrary: after a b)
  case (Cons w ws)
  consider e where "wait_for_live_events svc tid after (wss_live_batch_size S) (wss_wait_timeout_ms S) w = Inl e"
    | (none) "wait_for_live_events svc tid after (wss_live_batch_size S) (wss_wait_timeout_ms S) w = Inr []"
    | (some) e es where
        "wait_for_live_events svc tid after (wss_live_batch_size S) (wss_wait_timeout_ms S) w = Inr (e # es)"
    by (metis list.exhaust sum.exhaust)
  then show ?case
  proof cases
    case none
    have "same_run
        (and_then (ws_send (Heartbeat tid) (ws_metric (Counter ''fallbacks_total'' [(''transport'', ''ws'')]) a))
          (\<lambda>_ io2. route_live S svc tid after ws io2))
        (and_then (ws_send (Heartbeat tid) b)
          (\<lambda>_ io1. handler_live S svc tid after ws (ws_diag (OnHeartbeat ''ws'' tid) io1)))"
      by (intro same_run_and_then same_run_send same_view_silent Cons.prems Cons.IH)
    with none assms(1) show ?thesis by (simp add: Let_def)
  next
    case some
    have "same_run
        (and_then (send_events (e # es) False a)
          (\<lambda>c io2. if c then (Inr True, ws_put (WsClosed (wss_terminal_close_code S)) io2)
             else route_live S svc tid (Some (ev_event_id (last (e # es)))) ws io2))
        (and_then (send_events (e # es) False b)
          (\<lambda>c io1. let io2 = fold (\<lambda>ev. ws_diag (OnDelivery ''ws'' tid (ev_event_id ev))) (e # es) io1
             in if c then (Inr True, ws_put (WsClosed (wss_terminal_close_code S)) io2)
                else handler_live S svc tid (Some (ev_event_id (last (e # es)))) ws io2))"
    proof (intro same_run_and_then same_run_send_events Cons.prems)
      fix c s s'
      assume "same_view s s'"
      then have "same_view s (fold (\<lambda>ev. ws_diag (OnDelivery ''ws'' tid (ev_event_id ev))) (e # es) s')"
        by (rule same_view_fold_diag)
      then show "same_run
          (if c then (Inr True, ws_put (WsClosed (wss_terminal_close_code S)) s)
           else route_live S svc tid (Some (ev_event_id (last (e # es)))) ws s)
          (let io2 = fold (\<lambda>ev. ws_diag (OnDelivery ''ws'' tid (ev_event_id ev))) (e # es) s'
           in if c then (Inr True, ws_put (WsClosed (wss_terminal_close_code S)) io2)
              else handler_live S svc tid (Some (ev_event_id (last (e # es)))) ws io2)"
        using Cons.IH by (simp add: Let_def same_view_put del: fold_simps)
    qed
    with some show ?thesis
      by (simp only: route_live.simps handler_live.simps sum.case list.case)
  qed (use Cons.prems in simp)
qed simp

lemma same_run_except:
  "same_run m m' \<Longrightarrow> same_run (route_except code m) (handler_except code m')"
  by (cases m; cases m'; cases "fst m") (auto simp: same_view_put same_view_silent)

lemma same_run_finally: "same_run m m' \<Longrightarrow> same_run (ws_finally m) (ws_finally m')"
  by (cases m; cases m') (auto simp: same_view_gauge)

text \<open>After a valid subscription the two bodies run in step.\<close>

lemma same_run_subscribed:
  assumes beat: "wss_emit_heartbeat_frame S" and v: "same_view a b"
  shows "same_run
    (and_then (ws_prepare svc (sub_task_id req) auth (sub_last_event_id req) (wss_replay_batch_size S) w0 a)
       (\<lambda>replay io2. and_then (ws_send (SubscriptionConfirmed (sub_task_id req) (sub_last_event_id req)) io2)
       (\<lambda>_ io3.
          let io4 = ws_metric (Gauge ''streams_active'' 1 [(''transport'', ''ws'')]) io3;
              io5 = (if sub_last_event_id req = None then io4
                     else ws_metric (Counter ''replays_total'' [(''transport'', ''ws'')]) io4)
          in and_then (send_events (pr_events replay) False io5)
               (\<lambda>should_close io6.
                  if should_close then (Inr True, ws_put (WsClosed (wss_terminal_close_code S)) io6)
                  else route_live S svc (sub_task_id req) (pr_next_after_event_id replay) ws io6))))
    (and_then (ws_prepare svc (sub_task_id req) auth (sub_last_event_id req) (wss_replay_batch_size S) w0 b)
       (\<lambda>replay io2.
             let io3 = ws_diag (OnReplayStart ''ws'' (sub_task_id req) (sub_last_event_id req)) io2
             in and_then (ws_send (SubscriptionConfirmed (sub_task_id req) (sub_last_event_id req)) io3)
          (\<lambda>_ io4. and_then (send_events (pr_events replay) False
                       (ws_metric (Gauge ''streams_active'' 1 [(''transport'', ''ws'')]) io4))
          (\<lambda>should_close io6.
             if should_close then (Inr True, ws_put (WsClosed (wss_terminal_close_code S)) io6)
             else handler_live S svc (sub_task_id req) (pr_next_after_event_id replay) ws io6))))"
  unfolding Let_def
proof (intro same_run_and_then same_run_prepare same_run_send same_run_send_events same_view_silent v)
  fix s s' :: ws_io
  assume "same_view s s'"
  then show "same_view
      (if sub_last_event_id req = None then ws_metric (Gauge ''streams_active'' 1 [(''transport'', ''ws'')]) s
       else ws_metric (Counter ''replays_total'' [(''transport'', ''ws'')])
              (ws_metric (Gauge ''streams_active'' 1 [(''transport'', ''ws'')]) s))
      (ws_metric (Gauge ''streams_active'' 1 [(''transport'', ''ws'')]) s')"
    by (auto intro: same_view_silent same_view_gauge)
next
  fix c replay and s s' :: ws_io
  assume "same_view s s'"
  then show "same_run
      (if c then (Inr True, ws_put (WsClosed (wss_terminal_close_code S)) s)
       else route_live S svc (sub_task_id req) (pr_next_after_event_id replay) ws s)
      (if c then (Inr True, ws_put (WsClosed (wss_terminal_close_code S)) s')
       else handler_live S svc (sub_task_id req) (pr_next_after_event_id replay) ws s')"
    using same_run_live [OF beat] by (auto intro: same_view_put)
qed

lemma same_run_body:
  assumes beat: "wss_emit_heartbeat_frame S" and v: "same_view a b"
  shows "same_run (route_except code (route_body S svc auth w0 ws a))
    (handler_except code (handler_body S svc auth w0 ws b))"
proof -
  let ?read = "\<lambda>io. and_then (receive_json io) (\<lambda>payload io'. (validate_subscribe payload, io'))"
  have read: "same_run (?read a) (?read b)" using v by (intro same_run_and_then same_run_receive) auto
  obtain r a1 where a1: "?read a = (r, a1)" by fastforce
  obtain b1 where b1: "?read b = (r, b1)" "same_view a1 b1" using read a1 by (cases "?read b") auto
  show ?thesis
  proof (cases r)
    case (Inl e)
    have route: "receive_subscribe_request (wss_invalid_frame_close_code S) a
      = (if is_value_error e then (Inl (WebSocketDisconnect (wss_invalid_frame_close_code S)),
           ws_put (WsClosed (wss_invalid_frame_close_code S)) a1) else (Inl e, a1))"
      unfolding receive_subscribe_request_def a1 Inl by simp
    have handler: "handler_body S svc auth w0 ws b
      = (if is_value_error e then (Inr True, ws_put (WsClosed (wss_invalid_frame_close_code S)) b1) else (Inl e, b1))"
      unfolding handler_body_def b1(1) Inl by simp
    show ?thesis
      unfolding route_body_def route handler using b1(2)
      by (cases "is_value_error e") (auto intro: same_view_put same_view_silent)
  next
    case (Inr req)
    have route: "receive_subscribe_request (wss_invalid_frame_close_code S) a = (Inr req, a1)"
      unfolding receive_subscribe_request_def a1 Inr by simp
    show ?thesis
      unfolding route_body_def route handler_body_def b1(1) Inr prod.case sum.case and_then.simps
      by (rule same_run_except [OF same_run_subscribed [OF beat b1(2)]])
  qed
qed

section \<open>Properties\<close>

text \<open>
  C2. A WebSocket session that may subscribe sends the events of its task that come after the
  client's marker, in order, without a gap and without a duplicate, whatever is appended while
  it runs. It is closed with the terminal code as soon as it has sent a terminal event (or it
  ends because the connection broke), and while it is still open it has sent exactly a batch
  for every call, or as much as was there: a backlog is sent completely.
\<close>

theorem ws_delivers_in_order:
  assumes "0 \<le> wss_replay_batch_size S" "0 \<le> wss_live_batch_size S"
    and "ps_event_store svc = demo_event_store"
    and "\<And>w. w \<in> set (w0 # ws) \<Longrightarrow> ordered_by key_newer key_ok (w_events w)"
    and "sorted_wrt (\<lambda>w w'. prefix (task_events (w_events w) (sub_task_id req))
           (task_events (w_events w') (sub_task_id req))) (w0 # ws)"
    and "get_owned_task_or_raise_not_found (ps_registry svc) (ps_ownership_policy svc)
           (sub_task_id req) auth (w_registry w0) = Inr t"
    and "validate_subscribe j = Inr req"
    and "\<And>c. sub_last_event_id req = Some c \<Longrightarrow> key_ok c"
  shows "\<exists>r io'. task_events_ws S svc auth w0 ws (fresh_io (ClientJson j # inbox) sends) = (r, io')
    \<and> prefix (sent_events (io_out io')) (events_after key_newer (sub_last_event_id req)
        (task_events (w_events (last (w0 # ws))) (sub_task_id req)))
    \<and> (r = Inr True \<and> (sends \<noteq> None \<or> (\<exists>e \<in> set (sent_events (io_out io')). is_terminal_event (ev_type e))
             \<and> last (io_out io') = WsClosed (wss_terminal_close_code S))
       \<or> r = Inr False \<and> (\<forall>e \<in> set (sent_events (io_out io')). \<not> is_terminal_event (ev_type e))
         \<and> length (sent_events (io_out io')) = delivered (nat (wss_live_batch_size S))
             (min (length (events_after key_newer (sub_last_event_id req)
                     (task_events (w_events w0) (sub_task_id req)))) (nat (wss_replay_batch_size S)))
             (map (\<lambda>w. length (events_after key_newer (sub_last_event_id req)
                          (task_events (w_events w) (sub_task_id req)))) ws))"
  using assms by (rule demo_ev.task_events_ws_delivers)


text \<open>
  C30. A client whose first frame is not a subscription, or whose task does not exist or may not
  be read by it, is accepted and closed with the invalid-frame code: it gets no other frame,
  the endpoint returns, and the gauge of open streams is back at zero.
\<close>

definition may_not_subscribe ::
  "('r, 'v) task_stream_service \<Rightarrow> auth_context \<Rightarrow> ('r, 'v, 'p, 'c, 'h) world \<Rightarrow> client_frame \<Rightarrow> bool" where
  "may_not_subscribe svc auth w frame \<longleftrightarrow>
     (case frame of
        ClientText s \<Rightarrow> True
      | ClientGone code \<Rightarrow> False
      | ClientJson j \<Rightarrow>
          (case validate_subscribe j of
             Inl e \<Rightarrow> True
           | Inr req \<Rightarrow>
               (case get_owned_task_or_raise_not_found (ps_registry svc) (ps_ownership_policy svc)
                       (sub_task_id req) auth (w_registry w) of
                  Inl e \<Rightarrow> is_taskbridge_error e
                | Inr t \<Rightarrow> False)))"

lemma validate_subscribe_error: "validate_subscribe j = Inl e \<Longrightarrow> is_value_error e"
  by (auto simp: validate_subscribe_def split: json.splits option.splits prod.splits if_splits list.splits)

lemma taskbridge_not_disconnect: "is_taskbridge_error e \<Longrightarrow> \<not> is_ws_disconnect e"
  by (cases e) auto


text \<open>
  A client that reconnects with the terminal event of its task as marker is never closed:
  however long the finished task is watched, the session sends no event and stays open.
\<close>

theorem ws_after_terminal_stays_open:
  assumes "0 \<le> wss_replay_batch_size S" "0 \<le> wss_live_batch_size S"
    and "ps_event_store svc = demo_event_store" "ordered_by key_newer key_ok evs"
    and "\<And>w. w \<in> set (w0 # ws) \<Longrightarrow> w_events w = evs"
    and "get_owned_task_or_raise_not_found (ps_registry svc) (ps_ownership_policy svc)
           (sub_task_id req) auth (w_registry w0) = Inr t"
    and "validate_subscribe j = Inr req" "task_events evs (sub_task_id req) \<noteq> []"
    and "sub_last_event_id req = Some (ev_event_id (last (task_events evs (sub_task_id req))))"
  shows "\<exists>io'. task_events_ws S svc auth w0 ws (fresh_io (ClientJson j # inbox) None) = (Inr False, io')
    \<and> sent_events (io_out io') = []"
proof -
  let ?L = "task_events evs (sub_task_id req)"
  have ok: "\<And>c. sub_last_event_id req = Some c \<Longrightarrow> key_ok c"
    using demo_ev.log_checkpoint [OF assms(4) last_in_set [OF assms(8)]] assms(9) by simp
  have "events_after key_newer (Some (ev_event_id (last ?L))) ?L = drop (length ?L) (events_after key_newer None ?L)"
    by (rule demo_ev.events_after_resume [OF assms(4) _ assms(8)]) (simp add: events_after_def)
  then have none: "events_after key_newer (sub_last_event_id req) ?L = []"
    by (simp add: assms(9) events_after_def)
  have final: "w_events (last (w0 # ws)) = evs" by (rule assms(5)) (rule last_in_set, simp)
  have "sorted_wrt (\<lambda>w w'. prefix (task_events (w_events w) (sub_task_id req))
      (task_events (w_events w') (sub_task_id req))) (w0 # ws)"
    using assms(5) by (intro sorted_wrt_mono_rel [OF _ sorted_wrt_true]) simp
  from demo_ev.task_events_ws_delivers [OF assms(1-3) _ this assms(6,7) ok, of inbox None]
  show ?thesis using assms(4,5) by (auto simp: final none)
qed

end
