(* ===== verification/SseProperties.thy ===== *)
theory SseProperties
  imports SseStream WsProperties
begin

text \<open>
  What a stream of server-sent events guarantees: the text the generator writes is read back by
  a client as the events of the log, in order, with the id to resume from; and a client that
  reconnects with that id goes on where it stopped.
\<close>

section \<open>The stream as a list of items\<close>

datatype sse_item = Comment string | Beat string | Ev task_event

fun item_text :: "(task_event \<Rightarrow> string) \<Rightarrow> sse_item \<Rightarrow> string" where
  "item_text dump (Comment c) = sse_comment c"
| "item_text dump (Beat j) = sse_data j"
| "item_text dump (Ev e) = sse_event dump e"

fun item_ok :: "(task_event \<Rightarrow> string) \<Rightarrow> sse_item \<Rightarrow> bool" where
  "item_ok dump (Comment c) = (line_feed \<notin> set c)"
| "item_ok dump (Beat j) = (line_feed \<notin> set j)"
| "item_ok dump (Ev e) =
     (line_feed \<notin> set (ev_event_id e) \<and> CHR 0x00 \<notin> set (ev_event_id e) \<and> line_feed \<notin> set (dump e))"

fun item_events :: "sse_item list \<Rightarrow> task_event list" where
  "item_events [] = []"
| "item_events (Ev e # its) = e # item_events its"
| "item_events (it # its) = item_events its"

lemma item_events_append [simp]: "item_events (xs @ ys) = item_events xs @ item_events ys"
  by (induction xs rule: item_events.induct) auto

lemma item_events_map [simp]: "item_events (map Ev es) = es"
  by (induction es) auto

text \<open>What a client that has the id \<open>last\<close> makes of the items.\<close>

fun sse_dispatch :: "(task_event \<Rightarrow> string) \<Rightarrow> string \<Rightarrow> sse_item list \<Rightarrow> (string \<times> string) list" where
  "sse_dispatch dump lst [] = []"
| "sse_dispatch dump lst (Comment c # its) = sse_dispatch dump lst its"
| "sse_dispatch dump lst (Beat j # its) = (lst, j) # sse_dispatch dump lst its"
| "sse_dispatch dump lst (Ev e # its) = (ev_event_id e, dump e) # sse_dispatch dump (ev_event_id e) its"

definition last_id :: "string \<Rightarrow> task_event list \<Rightarrow> string" where
  "last_id lst es = (if es = [] then lst else ev_event_id (last es))"

section \<open>Reading the stream back\<close>

lemma sse_read_split:
  "line_feed \<notin> set l \<Longrightarrow> sse_read (l @ line_feed # rest) c = sse_read rest (sse_read_line l c)"
  by (simp add: sse_read_def split_on_sep split_on_none butlast_append split_on_nonempty)

lemma sse_read_nil [simp]: "sse_read [] c = c"
  by (simp add: sse_read_def)

lemma field_value_field:
  "CHR '':'' \<notin> set f \<Longrightarrow> field_value (f @ CHR '':'' # CHR '' '' # v) = (f, v)"
proof -
  assume f: "CHR '':'' \<notin> set f"
  have "dropWhile (\<lambda>c. c \<noteq> CHR '':'') (f @ CHR '':'' # CHR '' '' # v) = CHR '':'' # CHR '' '' # v"
    using f by (induction f) auto
  moreover have "takeWhile (\<lambda>c. c \<noteq> CHR '':'') (f @ CHR '':'' # CHR '' '' # v) = f"
    using f by (induction f) auto
  ultimately show ?thesis by (simp add: field_value_def)
qed

lemma read_comment_line [simp]: "sse_read_line (CHR '':'' # s) c = c"
  by (simp add: sse_read_line_def)

lemma read_data_line:
  "sse_read_line (''data: '' @ s) c = c\<lparr>cl_data := cl_data c @ s @ [line_feed]\<rparr>"
  using field_value_field [of "''data''" s] by (simp add: sse_read_line_def)

lemma read_id_line:
  "CHR 0x00 \<notin> set s \<Longrightarrow> sse_read_line (''id: '' @ s) c = c\<lparr>cl_last_id := s\<rparr>"
  using field_value_field [of "''id''" s] by (simp add: sse_read_line_def)

lemmas read_field_lines [simp] = read_data_line [simplified] read_id_line [simplified]

lemma read_blank_line:
  "sse_read_line [] c = (if cl_data c = [] then c
     else c\<lparr>cl_data := [], cl_events := cl_events c @ [(cl_last_id c, butlast (cl_data c))]\<rparr>)"
  by (simp add: sse_read_line_def)

lemma sse_read_lines:
  "line_feed \<notin> set l \<Longrightarrow> sse_read (l @ [line_feed, line_feed] @ rest) c
     = sse_read rest (sse_read_line [] (sse_read_line l c))"
  using sse_read_split [of l "line_feed # rest"] sse_read_split [of "[]" rest] by simp

lemma cl_data_empty [simp]: "cl_data c = [] \<Longrightarrow> c\<lparr>cl_data := [], cl_events := x\<rparr> = c\<lparr>cl_events := x\<rparr>"
  by (cases c) simp

lemma sse_read_data:
  "line_feed \<notin> set s \<Longrightarrow> cl_data c = [] \<Longrightarrow> sse_read (sse_data s @ rest) c
     = sse_read rest (c\<lparr>cl_events := cl_events c @ [(cl_last_id c, s)]\<rparr>)"
  using sse_read_lines [of "''data: '' @ s" rest c]
  by (simp add: sse_data_def read_blank_line line_feed_def)

lemma sse_read_comment:
  "line_feed \<notin> set s \<Longrightarrow> cl_data c = [] \<Longrightarrow> sse_read (sse_comment s @ rest) c = sse_read rest c"
  using sse_read_lines [of "'': '' @ s" rest c]
  by (simp add: sse_comment_def read_blank_line line_feed_def)

lemma sse_read_event:
  assumes "item_ok dump (Ev e)" "cl_data c = []"
  shows "sse_read (sse_event dump e @ rest) c = sse_read rest
    (c\<lparr>cl_last_id := ev_event_id e, cl_events := cl_events c @ [(ev_event_id e, dump e)]\<rparr>)"
proof -
  have "line_feed \<notin> set (''id: '' @ ev_event_id e)" using assms(1) by (simp add: line_feed_def)
  from sse_read_split [OF this, of "sse_data (dump e) @ rest" c]
  have "sse_read (sse_event dump e @ rest) c
      = sse_read (sse_data (dump e) @ rest) (c\<lparr>cl_last_id := ev_event_id e\<rparr>)"
    using assms(1) read_id_line [of "ev_event_id e" c] by (simp add: sse_event_def)
  then show ?thesis using assms by (simp add: sse_read_data)
qed

lemma sse_read_items:
  assumes "\<forall>it \<in> set its. item_ok dump it" "cl_data c = []"
  shows "sse_read (concat (map (item_text dump) its)) c
    = c\<lparr>cl_last_id := last_id (cl_last_id c) (item_events its),
        cl_events := cl_events c @ sse_dispatch dump (cl_last_id c) its\<rparr>"
  using assms
proof (induction its arbitrary: c)
  case Nil
  then show ?case by (simp add: last_id_def)
next
  case (Cons it its)
  then show ?case
    by (cases it) (simp_all add: sse_read_comment sse_read_data sse_read_event last_id_def)
qed

text \<open>No JSON text the package renders contains a line feed.\<close>

lemma escape_char_line_feed: "line_feed \<notin> set (escape_char c)"
proof -
  have "\<forall>d \<in> set [0..<16]. line_feed \<noteq> hex_char d" by code_simp
  then have hex: "line_feed \<noteq> hex_char d" if "d < 16" for d
    using that by simp
  have lf: "of_char c = (10 :: nat) \<longleftrightarrow> line_feed = c"
    using of_char_eq_iff [of c line_feed, where 'a = nat] by (auto simp: line_feed_def)
  have "(of_char c :: nat) < 256" by (rule nat_of_char_less_256)
  then have "(of_char c :: nat) div 16 < 16" by (simp add: less_mult_imp_div_less)
  then have "line_feed \<noteq> hex_char (of_char c div 16)" "line_feed \<noteq> hex_char (of_char c mod 16)"
    using hex [of "of_char c div 16"] hex [of "of_char c mod 16"] by simp_all
  then show ?thesis
    using lf by (auto simp: escape_char_def Let_def quote_def backslash_def)
      (simp_all add: line_feed_def)
qed

lemma render_string_line_feed: "line_feed \<notin> set (render_string s)"
  using escape_char_line_feed by (auto simp: render_string_def line_feed_def quote_def)

lemma show_int_line_feed: "line_feed \<notin> set (show_int i)"
proof -
  have "line_feed \<notin> set (show_nat n)" for n
    using show_nat_digits [of line_feed n] by (auto simp: line_feed_def is_digit_def)
  then show ?thesis by (simp add: show_int_def) (simp add: line_feed_def)
qed

lemma render_line_feed:
  "line_feed \<notin> set (render v)" "line_feed \<notin> set (render_list xs)" "line_feed \<notin> set (render_items d)"
proof (induction v and xs and d rule: render_render_list_render_items.induct)
qed (auto simp: render_string_line_feed show_int_line_feed, auto simp: line_feed_def)

section \<open>Delivery\<close>

lemma sse_io_simps [simp]:
  "si_out (sse_yield c io) = si_out io @ [c]" "si_out (sse_diag d io) = si_out io"
  "si_out (io\<lparr>si_polls := n\<rparr>) = si_out io" "si_out (io\<lparr>si_metrics := m\<rparr>) = si_out io"
  by (simp_all add: sse_yield_def sse_diag_def)

lemma sse_replay_eq:
  "\<exists>io'. sse_replay dump es after io = (if es = [] then after else Some (ev_event_id (last es)), io')
    \<and> si_out io' = si_out io @ map (item_text dump) (map Ev es)"
  by (induction es arbitrary: after io) fastforce+

lemma sse_batch_eq:
  "\<exists>k io'. sse_batch dump gone tid es after io
      = (if take k es = [] then after else Some (ev_event_id (last (take k es))), io')
    \<and> si_out io' = si_out io @ map (item_text dump) (map Ev (take k es))"
proof (induction es arbitrary: after io)
  case (Cons e es)
  obtain b io1 where p: "is_disconnected gone io = (b, io1)" by fastforce
  then have out: "si_out io1 = si_out io" by (auto simp: is_disconnected_def)
  show ?case
  proof (cases b)
    case True
    show ?thesis
      by (rule exI [of _ 0]) (use p out True in simp)
  next
    case False
    let ?io2 = "sse_diag (OnDelivery ''sse'' tid (ev_event_id e)) (sse_yield (sse_event dump e) io1)"
    from Cons.IH [of "Some (ev_event_id e)" ?io2] obtain k io' where
      "sse_batch dump gone tid es (Some (ev_event_id e)) ?io2
        = (if take k es = [] then Some (ev_event_id e) else Some (ev_event_id (last (take k es))), io')"
      "si_out io' = si_out ?io2 @ map (item_text dump) (map Ev (take k es))" by blast
    then show ?thesis
      by (intro exI [of _ "Suc k"] exI [of _ io']) (use p out False in simp)
  qed
qed (rule exI [of _ 0], simp)

text \<open>The worlds of the ticks, and what the items of a stream may be.\<close>

fun tick_worlds :: "'w sse_tick list \<Rightarrow> 'w list" where
  "tick_worlds [] = []"
| "tick_worlds (SseCancelled # ts) = tick_worlds ts"
| "tick_worlds (SseTick w hex now # ts) = w # tick_worlds ts"

fun item_fits :: "sse_stream_settings \<Rightarrow> sse_item \<Rightarrow> bool" where
  "item_fits S (Comment c) = (c = sss_comment_ping_payload S
     \<or> c = ''preamble '' @ replicate (nat (sss_anti_buffering_preamble_bytes S)) (CHR '' ''))"
| "item_fits S (Beat j) = (\<exists>v. j = render v)"
| "item_fits S (Ev e) = True"

definition ping_items :: "sse_stream_settings \<Rightarrow> sse_item list" where
  "ping_items S = (if sss_emit_comment_ping S then [Comment (sss_comment_ping_payload S)] else [])"

lemma sse_ping_out: "si_out (sse_ping S io) = si_out io @ map (item_text dump) (ping_items S)"
  by (simp add: sse_ping_def ping_items_def)

lemma ping_items_simps [simp]: "item_events (ping_items S) = []" "it \<in> set (ping_items S) \<Longrightarrow> item_fits S it"
  by (auto simp: ping_items_def split: if_splits)

text \<open>
  A run that wrote items whose events are the first of \<open>E\<close>, after the output \<open>out\<close>.
\<close>

definition streamed ::
  "sse_stream_settings \<Rightarrow> (task_event \<Rightarrow> string) \<Rightarrow> task_event list \<Rightarrow> string list
    \<Rightarrow> (exc + bool) \<times> sse_io \<Rightarrow> bool" where
  "streamed S dump E out m \<longleftrightarrow>
     (\<exists>b io' items. m = (Inr b, io') \<and> si_out io' = out @ map (item_text dump) items
        \<and> (\<forall>it \<in> set items. item_fits S it) \<and> prefix (item_events items) E)"

lemma streamed_stop:
  assumes "si_out io' = out @ map (item_text dump) items" "\<forall>it \<in> set items. item_fits S it"
    and "prefix (item_events items) E"
  shows "streamed S dump E out (Inr b, io')"
  using assms by (auto simp: streamed_def)

lemma streamed_nothing: "si_out io' = out \<Longrightarrow> streamed S dump E out (Inr b, io')"
  by (rule streamed_stop [where items = "[]"]) simp_all

lemma streamed_ping:
  "si_out io' = out @ map (item_text dump) (ping_items S) \<Longrightarrow> streamed S dump E out (Inr b, io')"
  by (rule streamed_stop [where items = "ping_items S"]) simp_all

lemma streamed_more:
  assumes "streamed S dump (drop (length B) E) (out @ map (item_text dump) items) m"
    and "item_events items = B" "\<forall>it \<in> set items. item_fits S it" "prefix B E"
  shows "streamed S dump E out m"
proof -
  from assms(1) obtain b io' its where m: "m = (Inr b, io')"
    "si_out io' = out @ map (item_text dump) (items @ its)" "\<forall>it \<in> set its. item_fits S it"
    "prefix (item_events its) (drop (length B) E)" by (auto simp: streamed_def)
  have "prefix (item_events (items @ its)) E"
    using assms(2,4) m(4) by (auto simp: prefix_def)
  then show ?thesis using m assms(3) unfolding streamed_def
    by (intro exI [of _ b] exI [of _ io'] exI [of _ "items @ its"]) auto
qed

context event_reader
begin

lemma sse_loop_delivers:
  assumes "0 \<le> sss_live_batch_size S" "ps_event_store svc = ops"
    and "\<And>w. w \<in> set (w0 # tick_worlds ts) \<Longrightarrow> valid (w_events w)"
    and "sorted_wrt (\<lambda>w w'. prefix (log (w_events w) tid) (log (w_events w') tid)) (w0 # tick_worlds ts)"
    and "\<And>c. after = Some c \<Longrightarrow> checkpoint c"
  shows "streamed S dump (events_after newer after (log (w_events (last (w0 # tick_worlds ts))) tid))
    (si_out io) (sse_loop S dump svc gone tid after ts io)"
  using assms(3-5)
proof (induction ts arbitrary: w0 after io)
  case Nil
  show ?case
    by (cases "gone (si_polls io)")
      (simp_all add: is_disconnected_def sse_ping_out [of S _ dump] streamed_nothing streamed_ping)
next
  case (Cons t ts)
  obtain b io1 where head: "is_disconnected gone io = (b, io1)" by fastforce
  then have out1: "si_out io1 = si_out io" by (auto simp: is_disconnected_def)
  note pinged = sse_ping_out [of S io1 dump, unfolded out1]
  show ?case
  proof (cases t)
    case SseCancelled
    show ?thesis
      using head by (cases b) (simp_all add: SseCancelled streamed_nothing streamed_ping out1 pinged)
  next
    case (SseTick w hex now)
    let ?final = "log (w_events (last (w # tick_worlds ts))) tid"
    let ?E = "events_after newer after ?final"
    let ?B = "take (nat (sss_live_batch_size S)) (events_after newer after (log (w_events w) tid))"
    have v: "valid (w_events w)" "valid (w_events (last (w # tick_worlds ts)))"
      using Cons.prems(1) by (auto simp: SseTick)
    have grows: "prefix (log (w_events w) tid) ?final"
      using Cons.prems(2) by (auto simp: SseTick)
    have chain: "\<And>x. x \<in> set (w # tick_worlds ts) \<Longrightarrow> valid (w_events x)"
      "sorted_wrt (\<lambda>w w'. prefix (log (w_events w) tid) (log (w_events w') tid)) (w # tick_worlds ts)"
      using Cons.prems(1,2) by (auto simp: SseTick)
    have wait: "wait_for_live_events svc tid after (sss_live_batch_size S) (sss_wait_timeout_ms S) w = Inr ?B"
      by (rule wait_for_live_events_eq [OF v(1) assms(1) Cons.prems(3) assms(2)])
    obtain b2 io2 where second: "is_disconnected gone (sse_ping S io1) = (b2, io2)" by fastforce
    then have out2: "si_out io2 = si_out io @ map (item_text dump) (ping_items S)"
      using pinged by (auto simp: is_disconnected_def)
    have final: "last (w0 # tick_worlds (t # ts)) = last (w # tick_worlds ts)" by (simp add: SseTick)
    show ?thesis
      unfolding final
    proof (cases "b \<or> b2")
      case True
      then show "streamed S dump ?E (si_out io) (sse_loop S dump svc gone tid after (t # ts) io)"
        using head second wait
        by (cases b) (simp_all add: SseTick streamed_nothing streamed_ping out1 out2)
    next
      case False
      show "streamed S dump ?E (si_out io) (sse_loop S dump svc gone tid after (t # ts) io)"
      proof (cases "?B = []")
        case True
        define hb where "hb = JDict [(''type'', JStr ''HEARTBEAT''), (''taskId'', JStr tid),
          (''eventId'', JStr (''hb-'' @ hex)), (''createdAt'', JStr (isoformat now)),
          (''payload'', JDict [(''live'', JBool True)])]"
        have hb: "sse_heartbeat tid hex now = sse_data (render hb)"
          by (simp only: sse_heartbeat_def hb_def)
        define beat where "beat = (if sss_emit_json_heartbeat S then [Beat (render hb)] else [])"
        let ?io3 = "if sss_emit_json_heartbeat S
          then sse_yield (sse_heartbeat tid hex now) (sse_diag (OnHeartbeat ''sse'' tid) io2) else io2"
        have beat: "item_events beat = []" "\<forall>it \<in> set beat. item_fits S it" by (auto simp: beat_def)
        have out3: "si_out ?io3 = si_out io @ map (item_text dump) (ping_items S @ beat)"
          using out2 by (simp add: beat_def hb)
        have "streamed S dump ?E (si_out ?io3) (sse_loop S dump svc gone tid after ts ?io3)"
          by (rule Cons.IH [OF chain Cons.prems(3)])
        then have "streamed S dump ?E (si_out io) (sse_loop S dump svc gone tid after ts ?io3)"
          unfolding out3 using beat
          by (intro streamed_more [where B = "[]" and E = ?E and items = "ping_items S @ beat"]) auto
        then show ?thesis using head second wait True False by (simp add: SseTick)
      next
        case B: False
        note bs = batch_step [OF v grows refl B]
        from sse_batch_eq [of dump gone tid ?B after io2] obtain k io3 where
          batch: "sse_batch dump gone tid ?B after io2
            = (if take k ?B = [] then after else Some (ev_event_id (last (take k ?B))), io3)"
            "si_out io3 = si_out io2 @ map (item_text dump) (map Ev (take k ?B))" by blast
        let ?b = "take k ?B" and ?items = "ping_items S @ map Ev (take k ?B)"
        let ?next = "if ?b = [] then after else Some (ev_event_id (last ?b))"
        have b: "?b = take (min k (nat (sss_live_batch_size S))) (events_after newer after (log (w_events w) tid))"
          by (simp add: min_def)
        have pre: "prefix ?b ?E"
          using batch_step(1) [OF v grows b] by (cases "?b = []") auto
        have rest: "events_after newer ?next ?final = drop (length ?b) ?E"
          using batch_step(2) [OF v grows b] by (cases "?b = []") auto
        have next_ok: "\<And>c. ?next = Some c \<Longrightarrow> checkpoint c"
          using Cons.prems(3) batch_checkpoint [OF v(1), of ?b after tid]
          by (auto dest: in_set_takeD split: if_splits)
        have "streamed S dump (events_after newer ?next ?final) (si_out io3)
            (sse_loop S dump svc gone tid ?next ts io3)"
          by (rule Cons.IH [OF chain next_ok])
        moreover have "si_out io3 = si_out io @ map (item_text dump) ?items" using batch(2) out2 by simp
        ultimately have "streamed S dump (drop (length ?b) ?E) (si_out io @ map (item_text dump) ?items)
            (sse_loop S dump svc gone tid ?next ts io3)" by (simp only: rest)
        then have "streamed S dump ?E (si_out io) (sse_loop S dump svc gone tid ?next ts io3)"
          by (rule streamed_more) (use pre in auto)
        then show ?thesis using head second wait B False batch(1) by (simp add: SseTick)
      qed
    qed
  qed
qed

text \<open>The whole generator, from the replay on.\<close>

lemma sse_generator_delivers:
  assumes sizes: "0 \<le> sss_replay_batch_size S" "0 \<le> sss_live_batch_size S"
    and store: "ps_event_store svc = ops"
    and v: "\<And>w. w \<in> set (w0 # tick_worlds ts) \<Longrightarrow> valid (w_events w)"
    and grow: "sorted_wrt (\<lambda>w w'. prefix (log (w_events w) tid) (log (w_events w') tid)) (w0 # tick_worlds ts)"
    and owned: "get_owned_task_or_raise_not_found (ps_registry svc) (ps_ownership_policy svc) tid auth
           (w_registry w0) = Inr t"
    and after: "\<And>c. after = Some c \<Longrightarrow> checkpoint c"
  shows "streamed S dump (events_after newer after (log (w_events (last (w0 # tick_worlds ts))) tid)) []
    (sse_event_generator S dump svc gone tid after auth None w0 ts fresh_sse)"
proof -
  let ?B = "take (nat (sss_replay_batch_size S)) (events_after newer after (log (w_events w0) tid))"
  let ?final = "log (w_events (last (w0 # tick_worlds ts))) tid"
  let ?E = "events_after newer after ?final"
  let ?next = "if ?B = [] then after else Some (ev_event_id (last ?B))"
  define pre where "pre = (if 0 < sss_anti_buffering_preamble_bytes S then [Comment (''preamble ''
    @ replicate (nat (sss_anti_buffering_preamble_bytes S)) (CHR '' ''))] else [])"
  have pre: "item_events pre = []" "\<forall>it \<in> set pre. item_fits S it" by (auto simp: pre_def)
  have v0: "valid (w_events w0)" "valid (w_events (last (w0 # tick_worlds ts)))" using v by auto
  have grow0: "prefix (log (w_events w0) tid) ?final" using grow by auto
  have out0: "si_out fresh_sse = []" by (simp add: fresh_sse_def)
  obtain io1 where prep: "sse_prepare svc tid auth after (sss_replay_batch_size S) w0 fresh_sse
      = (Inr (poll_result tid after (sss_replay_batch_size S) ?B), io1)" "si_out io1 = []"
    using v0(1) sizes(1) store owned after
    by (simp add: sse_prepare_def prepare_subscription_def read_law out0)
  let ?io2 = "sse_preamble S (sse_diag (OnReplayStart ''sse'' tid after) io1)"
  have out2: "si_out ?io2 = map (item_text dump) pre"
    using prep(2) by (simp add: sse_preamble_def pre_def)
  from sse_replay_eq [of dump ?B after ?io2] obtain io3 where replay:
    "sse_replay dump ?B after ?io2 = (?next, io3)"
    "si_out io3 = [] @ map (item_text dump) (pre @ map Ev ?B)"
    using out2 by auto
  have run: "sse_event_generator S dump svc gone tid after auth None w0 ts fresh_sse
      = sse_loop S dump svc gone tid ?next ts io3"
    using prep(1) replay(1) by (simp add: sse_event_generator_def poll_result_def)
  have B: "prefix ?B ?E"
    using take_is_prefix events_after_prefix [OF grow0] by (rule prefix_order.trans)
  have rest: "events_after newer ?next ?final = drop (length ?B) ?E"
    using batch_step(2) [OF v0 grow0 refl, where n = "nat (sss_replay_batch_size S)" and after = after] by auto
  have next_ok: "\<And>c. ?next = Some c \<Longrightarrow> checkpoint c"
    using after batch_checkpoint [OF v0(1), of ?B after tid] by (auto dest: in_set_takeD split: if_splits)
  have "streamed S dump (events_after newer ?next ?final) (si_out io3)
      (sse_loop S dump svc gone tid ?next ts io3)"
    by (rule sse_loop_delivers [OF sizes(2) store v grow next_ok])
  then show ?thesis
    unfolding run rest replay(2) by (rule streamed_more) (use pre B in auto)
qed

end

section \<open>Properties\<close>

text \<open>
  What the texts rely on: ids without line feeds and NUL (Redis ids and the demo ids are digits
  and dashes), JSON text and a ping payload on one line.
\<close>

definition sse_texts_ok :: "sse_stream_settings \<Rightarrow> (task_event \<Rightarrow> string) \<Rightarrow> task_event list \<Rightarrow> bool" where
  "sse_texts_ok S dump evs \<longleftrightarrow> line_feed \<notin> set (sss_comment_ping_payload S)
     \<and> (\<forall>e \<in> set evs. item_ok dump (Ev e))"

lemma streamed_items_ok:
  assumes "sse_texts_ok S dump E" "\<forall>it \<in> set items. item_fits S it" "prefix (item_events items) E"
  shows "\<forall>it \<in> set items. item_ok dump it"
proof
  fix it
  assume it: "it \<in> set items"
  have evs: "e \<in> set E" if "Ev e \<in> set items" for e
  proof -
    have "e \<in> set (item_events items)" using that by (induction items rule: item_events.induct) auto
    with assms(3) show ?thesis by (auto simp: prefix_def)
  qed
  show "item_ok dump it"
  proof (cases it)
    case (Comment c)
    then show ?thesis using assms(1,2) it
      by (auto simp: sse_texts_ok_def dest!: bspec) (auto simp: line_feed_def)
  next
    case (Beat j)
    then show ?thesis using assms(2) it render_line_feed(1) by force
  next
    case (Ev e)
    then show ?thesis using assms(1) it evs by (auto simp: sse_texts_ok_def)
  qed
qed

lemma streamed_read:
  assumes "streamed S dump E [] m" "sse_texts_ok S dump E" "cl_data c = []"
  shows "\<exists>b io' items. m = (Inr b, io') \<and> prefix (item_events items) E
    \<and> sse_read (concat (si_out io')) c = c\<lparr>cl_last_id := last_id (cl_last_id c) (item_events items),
        cl_events := cl_events c @ sse_dispatch dump (cl_last_id c) items\<rparr>"
proof -
  from assms(1) obtain b io' items where m: "m = (Inr b, io')" "si_out io' = map (item_text dump) items"
    "\<forall>it \<in> set items. item_fits S it" "prefix (item_events items) E" by (auto simp: streamed_def)
  from sse_read_items [OF streamed_items_ok [OF assms(2) m(3,4)] assms(3)] m show ?thesis by metis
qed

text \<open>
  C8. The text the SSE generator writes, read by a client that follows the event-stream
  algorithm, is a list of events and heartbeats whose events are the first of those after the
  client's marker, in order, each with its id and its JSON text; heartbeats do not change the
  id, so the id the client keeps is that of the last event it got. This holds wherever the
  client goes away and whatever is appended meanwhile.
\<close>

theorem sse_client_reads_log:
  assumes "0 \<le> sss_replay_batch_size S" "0 \<le> sss_live_batch_size S"
    and "ps_event_store svc = demo_event_store"
    and "\<And>w. w \<in> set (w0 # tick_worlds ts) \<Longrightarrow> ordered_by key_newer key_ok (w_events w)"
    and "sorted_wrt (\<lambda>w w'. prefix (task_events (w_events w) tid) (task_events (w_events w') tid)) (w0 # tick_worlds ts)"
    and "get_owned_task_or_raise_not_found (ps_registry svc) (ps_ownership_policy svc) tid auth
           (w_registry w0) = Inr t"
    and "\<And>c. after = Some c \<Longrightarrow> key_ok c" "cl_data c = []"
    and "E = events_after key_newer after (task_events (w_events (last (w0 # tick_worlds ts))) tid)"
    and "sse_texts_ok S dump E"
  shows "\<exists>b io' items. sse_event_generator S dump svc gone tid after auth None w0 ts fresh_sse = (Inr b, io')
    \<and> prefix (item_events items) E
    \<and> sse_read (concat (si_out io')) c = c\<lparr>cl_last_id := last_id (cl_last_id c) (item_events items),
        cl_events := cl_events c @ sse_dispatch dump (cl_last_id c) items\<rparr>"
  using demo_ev.sse_generator_delivers [OF assms(1-7)] assms(8-10) by (intro streamed_read) simp_all

text \<open>The \<open>Last-Event-ID\<close> header of a client that reconnects.\<close>

definition last_event_header :: "sse_client \<Rightarrow> string option" where
  "last_event_header c = (if cl_last_id c = [] then None else Some (cl_last_id c))"

lemma key_ok_nonempty: "key_ok c \<Longrightarrow> c \<noteq> []"
  by (auto simp: key_ok_def event_key_def py_int_def strip_def lstrip_def rstrip_def split_once_def)

text \<open>One connection of a client that sends the id it has, and the id it has afterwards.\<close>

lemma events_after_subset: "set (events_after newer a L) \<subseteq> set L"
  by (auto simp: events_after_def split: option.splits)

lemma sse_connection:
  assumes "0 \<le> sss_replay_batch_size S" "0 \<le> sss_live_batch_size S" "ps_event_store svc = demo_event_store"
    and "\<And>w. w \<in> set (w0 # tick_worlds ts) \<Longrightarrow> ordered_by key_newer key_ok (w_events w)"
    and "sorted_wrt (\<lambda>w w'. prefix (task_events (w_events w) tid) (task_events (w_events w') tid)) (w0 # tick_worlds ts)"
    and "get_owned_task_or_raise_not_found (ps_registry svc) (ps_ownership_policy svc) tid auth (w_registry w0) = Inr t"
    and "\<And>i. last_event_header c = Some i \<Longrightarrow> key_ok i" "cl_data c = []"
    and L: "L = task_events (w_events (last (w0 # tick_worlds ts))) tid" and texts: "sse_texts_ok S dump L"
    and c': "c' = sse_read (concat (si_out (snd (sse_event_generator S dump svc gone tid (last_event_header c)
           auth None w0 ts fresh_sse)))) c"
  obtains items where "prefix (item_events items) (events_after key_newer (last_event_header c) L)"
    "c' = c\<lparr>cl_last_id := last_id (cl_last_id c) (item_events items),
        cl_events := cl_events c @ sse_dispatch dump (cl_last_id c) items\<rparr>"
    "\<forall>i. last_event_header c' = Some i \<longrightarrow> key_ok i"
    "last_event_header c' = (if item_events items = [] then last_event_header c
      else Some (ev_event_id (last (item_events items))))"
proof -
  let ?E = "events_after key_newer (last_event_header c) L"
  have "streamed S dump ?E [] (sse_event_generator S dump svc gone tid (last_event_header c) auth None w0 ts fresh_sse)"
    unfolding L by (rule demo_ev.sse_generator_delivers [OF assms(1-7)])
  moreover have "sse_texts_ok S dump ?E"
    using texts events_after_subset unfolding sse_texts_ok_def by blast
  ultimately obtain items where one: "prefix (item_events items) ?E"
    "c' = c\<lparr>cl_last_id := last_id (cl_last_id c) (item_events items),
        cl_events := cl_events c @ sse_dispatch dump (cl_last_id c) items\<rparr>"
    using streamed_read [of S dump ?E _ c] assms(8) c' by (metis snd_conv)
  have "last (w0 # tick_worlds ts) \<in> set (w0 # tick_worlds ts)" by (rule last_in_set) simp
  then have "ordered_by key_newer key_ok (w_events (last (w0 # tick_worlds ts)))" by (rule assms(4))
  moreover have "e \<in> set L" if "e \<in> set (item_events items)" for e
    using that set_mono_prefix [OF one(1)] events_after_subset by blast
  ultimately have ok: "key_ok (ev_event_id e)" if "e \<in> set (item_events items)" for e
    using that demo_ev.log_checkpoint unfolding L by blast
  have header: "last_event_header c' = (if item_events items = [] then last_event_header c
      else Some (ev_event_id (last (item_events items))))"
    using one(2) key_ok_nonempty [OF ok [OF last_in_set]] by (auto simp: last_event_header_def last_id_def)
  have "\<forall>i. last_event_header c' = Some i \<longrightarrow> key_ok i"
    using assms(7) ok [OF last_in_set] unfolding header by (auto split: if_splits)
  with one header show thesis by (intro that)
qed

text \<open>
  C23. A client that reconnects with the id it kept goes on exactly where it stopped: what it
  dispatches over the two connections are the events after its first marker, in order, none
  missing and none twice, wherever the first connection ended.
\<close>

theorem sse_reconnect_continues:
  assumes sizes: "0 \<le> sss_replay_batch_size S" "0 \<le> sss_live_batch_size S"
    and store: "ps_event_store svc = demo_event_store"
    and worlds: "ws = w0 # tick_worlds ts @ w1 # tick_worlds ts'"
    and ord: "\<And>w. w \<in> set ws \<Longrightarrow> ordered_by key_newer key_ok (w_events w)"
    and grow: "sorted_wrt (\<lambda>w w'. prefix (task_events (w_events w) tid) (task_events (w_events w') tid)) ws"
    and owned: "\<And>w. w \<in> {w0, w1} \<Longrightarrow> get_owned_task_or_raise_not_found (ps_registry svc)
           (ps_ownership_policy svc) tid auth (w_registry w) = Inr (t w)"
    and start: "\<And>i. last_event_header c = Some i \<Longrightarrow> key_ok i" "cl_data c = []"
    and E: "E = events_after key_newer (last_event_header c) (task_events (w_events (last ws)) tid)"
    and texts: "sse_texts_ok S dump (task_events (w_events (last ws)) tid)"
    and c': "c' = sse_read (concat (si_out (snd (sse_event_generator S dump svc gone tid (last_event_header c)
           auth None w0 ts fresh_sse)))) c"
    and c'': "c'' = sse_read (concat (si_out (snd (sse_event_generator S dump svc gone' tid (last_event_header c')
           auth None w1 ts' fresh_sse)))) c'"
  shows "\<exists>items items'. prefix (item_events items @ item_events items') E
    \<and> cl_events c'' = cl_events c @ sse_dispatch dump (cl_last_id c) items @ sse_dispatch dump (cl_last_id c') items'
    \<and> cl_last_id c'' = last_id (cl_last_id c) (item_events items @ item_events items')"
proof -
  let ?mid = "task_events (w_events (last (w0 # tick_worlds ts))) tid"
  let ?fin = "task_events (w_events (last (w1 # tick_worlds ts'))) tid"
  have last: "last ws = last (w1 # tick_worlds ts')" by (simp add: worlds)
  have mem: "last (w0 # tick_worlds ts) \<in> set (w0 # tick_worlds ts)" "last (w1 # tick_worlds ts') \<in> set (w1 # tick_worlds ts')"
    by (rule last_in_set, simp)+
  moreover have "ws = (w0 # tick_worlds ts) @ (w1 # tick_worlds ts')" by (simp add: worlds)
  ultimately have pm: "prefix ?mid ?fin" using grow by (simp add: sorted_wrt_append)
  have ok2: "ordered_by key_newer key_ok (w_events (last (w1 # tick_worlds ts')))"
    by (rule ord) (simp add: worlds)
  have pe: "prefix (events_after key_newer (last_event_header c) ?mid) E"
    unfolding E last by (rule demo_ev.events_after_prefix [OF pm])
  have texts_ok: "sse_texts_ok S dump ?mid" "sse_texts_ok S dump ?fin"
    using texts set_mono_prefix [OF pm] unfolding sse_texts_ok_def last by blast+
  have ord12: "\<And>w. w \<in> set (w0 # tick_worlds ts) \<Longrightarrow> ordered_by key_newer key_ok (w_events w)"
    "\<And>w. w \<in> set (w1 # tick_worlds ts') \<Longrightarrow> ordered_by key_newer key_ok (w_events w)"
    by (rule ord; auto simp: worlds)+
  have grow12: "sorted_wrt (\<lambda>w w'. prefix (task_events (w_events w) tid) (task_events (w_events w') tid)) (w0 # tick_worlds ts)"
    "sorted_wrt (\<lambda>w w'. prefix (task_events (w_events w) tid) (task_events (w_events w') tid)) (w1 # tick_worlds ts')"
    using grow by (auto simp: worlds sorted_wrt_append)
  obtain items where one: "prefix (item_events items) (events_after key_newer (last_event_header c) ?mid)"
    "c' = c\<lparr>cl_last_id := last_id (cl_last_id c) (item_events items),
        cl_events := cl_events c @ sse_dispatch dump (cl_last_id c) items\<rparr>"
    and header_ok: "\<forall>i. last_event_header c' = Some i \<longrightarrow> key_ok i"
    and header: "last_event_header c' = (if item_events items = [] then last_event_header c
      else Some (ev_event_id (last (item_events items))))"
    by (rule sse_connection [OF sizes store ord12(1) grow12(1) owned start refl texts_ok(1) c']) (simp, blast)
  have data: "cl_data c' = []" using start(2) one(2) by simp
  obtain items' where two: "prefix (item_events items') (events_after key_newer (last_event_header c') ?fin)"
    "c'' = c'\<lparr>cl_last_id := last_id (cl_last_id c') (item_events items'),
        cl_events := cl_events c' @ sse_dispatch dump (cl_last_id c') items'\<rparr>"
    by (rule sse_connection [OF sizes store ord12(2) grow12(2) owned header_ok [rule_format] data refl texts_ok(2) c'']) (assumption, simp, assumption, blast)
  have pe1: "prefix (item_events items) E" using one(1) pe by (rule prefix_order.trans)
  have "events_after key_newer (last_event_header c') ?fin = drop (length (item_events items)) E"
    unfolding header E last using demo_ev.events_after_resume [OF ok2 pe1 [unfolded E last]] by auto
  with two(1) have "prefix (item_events items @ item_events items') E"
    using demo_ev.prefix_chain [OF pe1] by simp
  moreover have "last_id (cl_last_id c') (item_events items')
      = last_id (cl_last_id c) (item_events items @ item_events items')"
    by (auto simp: one(2) last_id_def)
  ultimately show ?thesis using one(2) two(2) by (intro exI [of _ items] exI [of _ items']) simp
qed

text \<open>
  The stream route answers before it looks at the task: for a task that does not exist or
  that the caller may not read the status line is 200, and the \<open>TaskNotFoundError\<close> is raised
  inside the body, with no chunk written; the other routes answer 404.
\<close>

theorem sse_unknown_task_answers_200:
  assumes "get_owned_task_or_raise_not_found (ps_registry svc) (ps_ownership_policy svc) tid auth
      (w_registry w0) = Inl (TaskNotFoundError m)"
  shows "st_status_code (stream_events S dump svc gone tid after auth w0 ts) = 200
    \<and> (\<exists>io. st_body (stream_events S dump svc gone tid after auth w0 ts) = (Inl (TaskNotFoundError m), io)
         \<and> si_out io = [])"
  using assms by (simp add: stream_events_def build_sse_stream_response_def sse_event_generator_def
      sse_prepare_def prepare_subscription_def fresh_sse_def)

end
