(* ===== verification/WsWitnesses.thy ===== *)
theory WsWitnesses
  imports WsProperties FakeSystem
begin

text \<open>
  Concrete sessions for the WebSocket properties: the fake executor's task is subscribed to
  before it runs and watched until it is complete.
\<close>

lemma sample_worlds_ordered:
  "w \<in> {created_world, completed_world} \<Longrightarrow> ordered_by key_newer key_ok (w_events w)"
  using fake_host_inv [OF sample_host created_reachable] fake_host_inv [OF sample_host completed_reachable]
    fake_inv_ordered [of sample_config] by auto

lemma sample_worlds_grow:
  "sorted_wrt (\<lambda>w w'. prefix (task_events (w_events w) ''t1'') (task_events (w_events w') ''t1''))
     [created_world, completed_world]"
  by (simp add: created_simps task_events_def)

lemma created_owned:
  "\<exists>t. get_owned_task_or_raise_not_found (ps_registry sample_stream_service)
     (ps_ownership_policy sample_stream_service) ''t1'' demo_auth_context (w_registry created_world) = Inr t"
  using created_task by (auto simp: get_owned_task_Inr sample_stream_service_def demo_reg.get_law
      sample_defs from_command_def)

definition sample_subscribe :: json where
  "sample_subscribe = JDict [(''action'', JStr ''subscribe''), (''taskId'', JStr ''t1'')]"

lemma sample_subscribe_ok:
  "validate_subscribe sample_subscribe = Inr \<lparr>sub_task_id = ''t1'', sub_last_event_id = None\<rparr>"
  by code_simp

theorem ws_delivers_in_order_witness:
  "\<exists>r io'. task_events_ws default_web_socket_settings sample_stream_service demo_auth_context
      created_world [completed_world] (fresh_io [ClientJson sample_subscribe] None) = (r, io')
    \<and> prefix (sent_events (io_out io')) (task_events (w_events completed_world) ''t1'')"
proof -
  from created_owned obtain t where "get_owned_task_or_raise_not_found (ps_registry sample_stream_service)
     (ps_ownership_policy sample_stream_service) ''t1'' demo_auth_context (w_registry created_world) = Inr t"
    by blast
  note owned = this
  have "\<exists>r io'. task_events_ws default_web_socket_settings sample_stream_service demo_auth_context
      created_world [completed_world] (fresh_io [ClientJson sample_subscribe] None) = (r, io')
    \<and> prefix (sent_events (io_out io')) (events_after key_newer (sub_last_event_id \<lparr>sub_task_id = ''t1'', sub_last_event_id = None\<rparr>)
        (task_events (w_events (last [created_world, completed_world])) (sub_task_id \<lparr>sub_task_id = ''t1'', sub_last_event_id = None\<rparr>)))"
    using ws_delivers_in_order [OF _ _ _ sample_worlds_ordered _ _ sample_subscribe_ok, where S = default_web_socket_settings
        and svc = sample_stream_service and ?w0.0 = created_world and ws = "[completed_world]" and sends = None and inbox = "[]"]
      owned sample_worlds_grow
    by (fastforce simp: default_web_socket_settings_def sample_stream_service_def)
  then show ?thesis by (auto simp: events_after_def)
qed



theorem ws_after_terminal_stays_open_witness:
  "\<exists>io'. task_events_ws default_web_socket_settings sample_stream_service demo_auth_context completed_world
      (replicate 3 completed_world) (fresh_io [ClientJson (JDict [(''action'', JStr ''subscribe''),
        (''taskId'', JStr ''t1''), (''lastEventId'', JStr ''4-0'')])] None) = (Inr False, io')
    \<and> sent_events (io_out io') = []"
proof -
  have own: "\<not> isl (get_owned_task_or_raise_not_found (ps_registry sample_stream_service)
     (ps_ownership_policy sample_stream_service) ''t1'' demo_auth_context (w_registry completed_world))"
    by code_simp
  have log: "task_events (w_events completed_world) ''t1'' \<noteq> []"
    "ev_event_id (last (task_events (w_events completed_world) ''t1'')) = ''4-0''" by code_simp+
  have req: "validate_subscribe (JDict [(''action'', JStr ''subscribe''), (''taskId'', JStr ''t1''),
      (''lastEventId'', JStr ''4-0'')]) = Inr \<lparr>sub_task_id = ''t1'', sub_last_event_id = Some ''4-0''\<rparr>"
    by code_simp
  from own obtain t where t: "get_owned_task_or_raise_not_found (ps_registry sample_stream_service)
     (ps_ownership_policy sample_stream_service) ''t1'' demo_auth_context (w_registry completed_world) = Inr t"
    by (cases "get_owned_task_or_raise_not_found (ps_registry sample_stream_service)
     (ps_ownership_policy sample_stream_service) ''t1'' demo_auth_context (w_registry completed_world)") auto
  show ?thesis
    by (rule ws_after_terminal_stays_open [OF _ _ _ sample_worlds_ordered [of completed_world] _ _ req])
      (use t log in \<open>auto simp: default_web_socket_settings_def sample_stream_service_def\<close>)
qed

end
