(* ===== verification/SseWitnesses.thy ===== *)
theory SseWitnesses
  imports SseProperties WsWitnesses
begin

text \<open>
  Concrete streams for the properties of server-sent events: the fake executor's task, read
  by a client that goes away after four looks at the connection and comes back.
\<close>

definition sample_dump :: "task_event \<Rightarrow> string" where
  "sample_dump e = render (event_json isoformat e)"

lemma sample_texts_ok:
  "sse_texts_ok default_sse_settings sample_dump (task_events (w_events completed_world) ''t1'')"
proof -
  have "\<forall>e \<in> set (task_events (w_events completed_world) ''t1'').
      line_feed \<notin> set (ev_event_id e) \<and> CHR 0x00 \<notin> set (ev_event_id e)" by code_simp
  moreover have "line_feed \<notin> set (sss_comment_ping_payload default_sse_settings)" by code_simp
  ultimately show ?thesis
    using render_line_feed(1) by (simp add: sse_texts_ok_def sample_dump_def)
qed

definition fresh_client :: sse_client where
  "fresh_client = \<lparr>cl_last_id = [], cl_data = [], cl_events = []\<rparr>"

lemma sample_stream_owned:
  "w \<in> {created_world, completed_world} \<Longrightarrow> \<exists>t. get_owned_task_or_raise_not_found
     (ps_registry sample_stream_service) (ps_ownership_policy sample_stream_service) ''t1''
     demo_auth_context (w_registry w) = Inr t"
proof -
  have "\<not> isl (get_owned_task_or_raise_not_found (ps_registry sample_stream_service)
     (ps_ownership_policy sample_stream_service) ''t1'' demo_auth_context (w_registry completed_world))"
    by code_simp
  then show "w \<in> {created_world, completed_world} \<Longrightarrow> ?thesis"
    using created_owned by (auto simp: isl_def split: sum.splits)
      (metis sum.exhaust)
qed

definition sample_tick :: "sample_world sse_tick" where
  "sample_tick = SseTick completed_world ''00ff'' sample_time"

theorem sse_client_reads_log_witness:
  "\<exists>b io' items. sse_event_generator default_sse_settings sample_dump sample_stream_service (\<lambda>n. n > 4)
      ''t1'' None demo_auth_context None created_world [sample_tick] fresh_sse = (Inr b, io')
    \<and> prefix (item_events items) (task_events (w_events completed_world) ''t1'')
    \<and> cl_last_id (sse_read (concat (si_out io')) fresh_client) = last_id [] (item_events items)"
proof -
  from sample_stream_owned [of created_world] obtain t where "get_owned_task_or_raise_not_found
      (ps_registry sample_stream_service) (ps_ownership_policy sample_stream_service) ''t1''
      demo_auth_context (w_registry created_world) = Inr t" by auto
  then have "\<exists>b io' items. sse_event_generator default_sse_settings sample_dump sample_stream_service (\<lambda>n. n > 4)
      ''t1'' None demo_auth_context None created_world [sample_tick] fresh_sse = (Inr b, io')
    \<and> prefix (item_events items) (task_events (w_events completed_world) ''t1'')
    \<and> sse_read (concat (si_out io')) fresh_client = fresh_client\<lparr>
        cl_last_id := last_id (cl_last_id fresh_client) (item_events items),
        cl_events := cl_events fresh_client @ sse_dispatch sample_dump (cl_last_id fresh_client) items\<rparr>"
    by (intro sse_client_reads_log)
      (use sample_worlds_ordered sample_worlds_grow sample_texts_ok in
        \<open>auto simp: default_sse_settings_def sample_stream_service_def sample_tick_def fresh_client_def events_after_def\<close>)
  then show ?thesis by (auto simp: fresh_client_def)
qed

text \<open>The client after its first and after its second connection.\<close>

definition client_once :: sse_client where
  "client_once = sse_read (concat (si_out (snd (sse_event_generator default_sse_settings sample_dump
     sample_stream_service (\<lambda>n. n > 4) ''t1'' (last_event_header fresh_client) demo_auth_context None
     created_world [sample_tick] fresh_sse)))) fresh_client"

definition client_twice :: sse_client where
  "client_twice = sse_read (concat (si_out (snd (sse_event_generator default_sse_settings sample_dump
     sample_stream_service (\<lambda>n. n > 9) ''t1'' (last_event_header client_once) demo_auth_context None
     completed_world [sample_tick] fresh_sse)))) client_once"

theorem sse_reconnect_continues_witness:
  "\<exists>items items'. prefix (item_events items @ item_events items') (task_events (w_events completed_world) ''t1'')
    \<and> cl_last_id client_twice = last_id [] (item_events items @ item_events items')"
proof -
  from sample_stream_owned obtain t where t: "\<And>w. w \<in> {created_world, completed_world} \<Longrightarrow>
      get_owned_task_or_raise_not_found (ps_registry sample_stream_service)
      (ps_ownership_policy sample_stream_service) ''t1'' demo_auth_context (w_registry w) = Inr (t w)" by metis
  let ?ws = "[created_world, completed_world, completed_world, completed_world]"
  have "\<exists>items items'. prefix (item_events items @ item_events items') (events_after key_newer
        (last_event_header fresh_client) (task_events (w_events (last ?ws)) ''t1''))
      \<and> cl_events client_twice = cl_events fresh_client @ sse_dispatch sample_dump (cl_last_id fresh_client) items
          @ sse_dispatch sample_dump (cl_last_id client_once) items'
      \<and> cl_last_id client_twice = last_id (cl_last_id fresh_client) (item_events items @ item_events items')"
    by (intro sse_reconnect_continues [OF _ _ _ _ _ _ t _ _ refl _ client_once_def client_twice_def])
      (use sample_worlds_ordered sample_worlds_grow sample_texts_ok in
        \<open>auto simp: default_sse_settings_def sample_stream_service_def sample_tick_def fresh_client_def
          last_event_header_def\<close>)
  then show ?thesis by (auto simp: fresh_client_def last_event_header_def events_after_def)
qed

theorem sse_unknown_task_answers_200_witness:
  "st_status_code (stream_events default_sse_settings sample_dump sample_stream_service (\<lambda>n. n > 4)
     ''no-such-task'' None demo_auth_context created_world [sample_tick]) = 200"
proof -
  have "get_owned_task_or_raise_not_found (ps_registry sample_stream_service)
      (ps_ownership_policy sample_stream_service) ''no-such-task'' demo_auth_context (w_registry created_world)
      = Inl (TaskNotFoundError ''no-such-task'')" by code_simp
  from sse_unknown_task_answers_200 [OF this] show ?thesis by blast
qed

end
