(* ===== verification/HttpWitnesses.thy ===== *)
theory HttpWitnesses
  imports HttpProperties SseWitnesses
begin

text \<open>
  Concrete requests for the HTTP properties: the sample command as a JSON body, a form with an
  upload, and polls of the fake executor's completed task.
\<close>

definition sample_json_request :: http_request where
  "sample_json_request = \<lparr>rq_content_type = Some ''application/json'',
     rq_json = Inr (JDict [(''clientRequestId'', JStr ''req-1''), (''taskType'', JStr ''demo.echo''),
                      (''input'', JDict [(''message'', JStr ''hi'')])]),
     rq_form = Inl (ValueError ''no form'')\<rparr>"

definition sample_form_request :: http_request where
  "sample_form_request = \<lparr>rq_content_type = Some ''multipart/form-data'',
     rq_json = Inl (ValueError ''Expecting value''),
     rq_form = Inr \<lparr>form_get = (\<lambda>k. if k = ''clientRequestId'' then Some (FormText ''req-1'')
                                else if k = ''taskType'' then Some (FormText ''demo.echo'') else None),
       form_getlist = (\<lambda>k. if k = ''attachment''
         then [FormFile \<lparr>uf_filename = Some ''../up/photo.png'', uf_content_type = Some ''image/png'',
                          uf_content = ''abc''\<rparr>] else [])\<rparr>\<rparr>"

definition sample_form_command :: task_create_command where
  "sample_form_command = \<lparr>cc_client_request_id = ''req-1'', cc_task_type = ''demo.echo'',
     cc_input_payload = [], cc_metadata = [],
     cc_attachments = [\<lparr>at_filename = ''photo.png'', at_content_type = ''image/png'', at_content = ''abc'',
       at_size_bytes = 3\<rparr>], cc_auth_context = demo_auth_context\<rparr>"

lemma sample_form_parses:
  "parse_create_task_command default_http_settings (\<lambda>_. None) allow_all_upload_policy demo_auth_context
     sample_form_request = Inr sample_form_command"
  by code_simp

theorem uploads_bounded_witness:
  "list_all (attachment_ok default_http_settings) (cc_attachments sample_form_command)
    \<and> cc_attachments sample_form_command \<noteq> []"
  using uploads_bounded [OF sample_form_parses] by (simp add: sample_form_command_def)

lemma sample_create_answer:
  "fst (http_create_task default_http_settings (\<lambda>_. None) allow_all_upload_policy sample_command_service
     sample_time sample_time ''t1'' (Inr demo_auth_context) sample_json_request empty_world)
   = Inr \<lparr>hr_status_code = 201, hr_body = CreatedBody \<lparr>cr_task_id = ''t1'', cr_status = ACCEPTED,
        cr_client_request_id = ''req-1'', cr_deduplicated = False\<rparr>\<rparr>"
  by code_simp

theorem http_create_status_tells_effect_witness:
  "\<exists>w' t. http_create_task default_http_settings (\<lambda>_. None) allow_all_upload_policy sample_command_service
     sample_time sample_time ''t1'' (Inr demo_auth_context) sample_json_request empty_world
       = (Inr \<lparr>hr_status_code = 201, hr_body = CreatedBody \<lparr>cr_task_id = ''t1'', cr_status = ACCEPTED,
        cr_client_request_id = ''req-1'', cr_deduplicated = False\<rparr>\<rparr>, w')
     \<and> dict_get (w_registry w') ''t1'' = Some t"
proof -
  obtain w' where run: "http_create_task default_http_settings (\<lambda>_. None) allow_all_upload_policy
      sample_command_service sample_time sample_time ''t1'' (Inr demo_auth_context) sample_json_request empty_world
       = (Inr \<lparr>hr_status_code = 201, hr_body = CreatedBody \<lparr>cr_task_id = ''t1'', cr_status = ACCEPTED,
        cr_client_request_id = ''req-1'', cr_deduplicated = False\<rparr>\<rparr>, w')"
    using sample_create_answer by (metis prod.collapse)
  from http_create_status_tells_effect [OF empty_valid empty_unique sample_service(1,2) run]
  have "\<exists>t. dict_get (w_registry w') ''t1'' = Some t" by auto
  with run show ?thesis by blast
qed

lemma completed_host:
  "tasks_valid (w_registry completed_world)" "ordered_by key_newer key_ok (w_events completed_world)"
  "map_option tr_owner_id (dict_get (w_registry completed_world) ''t1'') = Some ''demo-user''"
  "task_events (w_events completed_world) ''t1'' \<noteq> []"
proof -
  show "tasks_valid (w_registry completed_world)"
    using fake_host_inv [OF sample_host completed_reachable] by (simp add: fake_inv_def)
  show "ordered_by key_newer key_ok (w_events completed_world)"
    using sample_worlds_ordered by simp
  show "map_option tr_owner_id (dict_get (w_registry completed_world) ''t1'') = Some ''demo-user''"
    by code_simp
  show "task_events (w_events completed_world) ''t1'' \<noteq> []" by code_simp
qed


theorem http_poll_malformed_marker_witness:
  "respond (fst (http_poll_events sample_stream_service (Inr demo_auth_context) ''t1'' (Some ''x'') 0 2 completed_world))
    = \<lparr>hr_status_code = 500, hr_body = ServerErrorBody\<rparr>"
proof -
  from completed_host(3) obtain t where t: "dict_get (w_registry completed_world) ''t1'' = Some t"
    "tr_owner_id t = ac_subject demo_auth_context" by (auto simp: demo_auth_context_def)
  have "\<not> key_ok ''x''" by code_simp
  with http_poll_malformed_marker [OF _ _ completed_host(1,2) t(1), where c = "''x''" and auth = demo_auth_context
      and svc = sample_stream_service and waitTimeoutMs = 0 and maxEvents = 2] t(2)
  show ?thesis by (simp add: sample_stream_service_def demo_ownership_policy_def completed_host(4))
qed

theorem http_create_bad_json_is_500_witness:
  "respond (fst (http_create_task default_http_settings (\<lambda>_. None) allow_all_upload_policy sample_command_service
     sample_time sample_time ''t1'' (Inr demo_auth_context)
     (sample_json_request\<lparr>rq_json := Inr (JDict [(''taskType'', JStr ''demo.echo'')])\<rparr>) empty_world))
   = \<lparr>hr_status_code = 500, hr_body = ServerErrorBody\<rparr>"
proof -
  let ?request = "sample_json_request\<lparr>rq_json := Inr (JDict [(''taskType'', JStr ''demo.echo'')])\<rparr>"
  let ?form = "sample_form_request\<lparr>rq_form := Inr \<lparr>form_get = (\<lambda>_. None), form_getlist = (\<lambda>_. [])\<rparr>\<rparr>"
  let ?run = "\<lambda>r. http_create_task default_http_settings (\<lambda>_. None) allow_all_upload_policy
      sample_command_service sample_time sample_time ''t1'' (Inr demo_auth_context) r empty_world"
  let ?unchanged = "snd (?run ?request) = empty_world"
  let ?as_form = "respond (fst (?run ?form)) = \<lparr>hr_status_code = 400,
         hr_body = ErrorBody ''INVALID_REQUEST'' ''Missing required field: clientRequestId''\<rparr>"
  have "validate_create (JDict [(''taskType'', JStr ''demo.echo'')])
      = Inl (ValueError ''validation error for HttpTaskCreateRequest'')" by code_simp
  then have "respond (fst (http_create_task default_http_settings (\<lambda>_. None) allow_all_upload_policy
      sample_command_service sample_time sample_time ''t1'' (Inr demo_auth_context) ?request empty_world))
    = \<lparr>hr_status_code = 500, hr_body = ServerErrorBody\<rparr> \<and> ?unchanged \<and> ?as_form"
    by (intro http_create_bad_json_is_500 [where ct = "''application/json''"
          and form = "\<lparr>form_get = (\<lambda>_. None), form_getlist = (\<lambda>_. [])\<rparr>" and form_request = ?form])
      (simp_all add: sample_json_request_def sample_form_request_def startswith_def)
  then show ?thesis by simp
qed

end
