(* ===== verification/ReleaseTools.thy ===== *)
theory ReleaseTools
  imports JsonCodec
begin

text \<open>
  The release automation of \<open>scripts/release_tools.py\<close>: components and tags, the changelog,
  the lint of a pull request title, the version rewrites and the commands of \<open>main\<close>. A regular
  expression of the script is a deterministic matcher, since none of them can backtrack to a
  different match. Files are a map from a path below the repository root to the text that
  \<open>read_text\<close> gives, and the tags are what \<open>git tag\<close> lists. A version that is put into a
  replacement text is taken literally, as it is when it has no backslash. Parsing the command
  line is left to \<open>argparse\<close>.
\<close>

section \<open>Errors and components\<close>

datatype release_error =
    ReleaseToolError string
  | UnknownComponentError string
  | UnknownTagError string
  | ChangelogSectionExistsError string
  | ChangelogSectionMissingError string
  | FileNotFoundError string
  | AttributeError

record release_component =
  rc_key :: string
  rc_display_name :: string
  rc_tag_prefix :: string
  rc_changelog_path :: string
  rc_include_paths :: "string list"
  rc_release_title :: string
  rc_scope_aliases :: "string list"

definition release_components :: "(string, release_component) dict" where
  "release_components = [
     (''android'', \<lparr>rc_key = ''android'', rc_display_name = ''Android SDK'', rc_tag_prefix = ''android-v'',
        rc_changelog_path = ''android/CHANGELOG.md'', rc_include_paths = [''android/**/*''],
        rc_release_title = ''Android SDK v{version}'', rc_scope_aliases = [''android'']\<rparr>),
     (''backend-fastapi'', \<lparr>rc_key = ''backend-fastapi'', rc_display_name = ''taskbridge-fastapi'',
        rc_tag_prefix = ''python-v'', rc_changelog_path = ''backend/taskbridge-fastapi/CHANGELOG.md'',
        rc_include_paths = [''backend/taskbridge-fastapi/**/*''],
        rc_release_title = ''taskbridge-fastapi v{version}'',
        rc_scope_aliases = [''backend'', ''backend-fastapi'', ''fastapi'']\<rparr>),
     (''temporal-adapter'', \<lparr>rc_key = ''temporal-adapter'',
        rc_display_name = ''taskbridge-temporal-adapter'', rc_tag_prefix = ''python-temporal-v'',
        rc_changelog_path = ''backend/adapters/temporal/CHANGELOG.md'',
        rc_include_paths = [''backend/adapters/temporal/**/*''],
        rc_release_title = ''taskbridge-temporal-adapter v{version}'',
        rc_scope_aliases = [''temporal'', ''temporal-adapter'']\<rparr>)]"

definition component_for_name :: "string \<Rightarrow> release_error + release_component" where
  "component_for_name name =
     (case dict_get release_components name of
        None \<Rightarrow> Inl (UnknownComponentError (''Unsupported component: '' @ name))
      | Some c \<Rightarrow> Inr c)"

section \<open>Versions and tags\<close>

text \<open>A run of digits, and what follows it; three of them with dots between.\<close>

definition match_digits :: "string \<Rightarrow> string option" where
  "match_digits s = (if takeWhile is_digit s = [] then None else Some (dropWhile is_digit s))"

definition match_dot :: "string \<Rightarrow> string option" where
  "match_dot s = (case s of [] \<Rightarrow> None | c # r \<Rightarrow> (if c = CHR ''.'' then Some r else None))"

definition match_version_core :: "string \<Rightarrow> string option" where
  "match_version_core s =
     Option.bind (match_digits s) (\<lambda>a. Option.bind (match_dot a) (\<lambda>b.
     Option.bind (match_digits b) (\<lambda>c. Option.bind (match_dot c) match_digits)))"

definition is_letter :: "char \<Rightarrow> bool" where
  "is_letter c \<longleftrightarrow>
     (let n = of_char c :: nat in (65 \<le> n \<and> n \<le> 90) \<or> (97 \<le> n \<and> n \<le> 122))"

definition semver_char :: "char \<Rightarrow> bool" where
  "semver_char c \<longleftrightarrow> is_letter c \<or> is_digit c \<or> c = CHR ''.'' \<or> c = CHR ''-''"

text \<open>\<open>SEMVER_RE.fullmatch\<close>.\<close>

definition semver_fullmatch :: "string \<Rightarrow> bool" where
  "semver_fullmatch v =
     (case match_version_core v of
        None \<Rightarrow> False
      | Some [] \<Rightarrow> True
      | Some (c # r) \<Rightarrow> (c = CHR ''-'' \<or> c = CHR ''+'') \<and> r \<noteq> [] \<and> list_all semver_char r)"

fun component_from_tag_loop ::
  "(string \<times> release_component) list \<Rightarrow> string \<Rightarrow> release_error + release_component \<times> string" where
  "component_from_tag_loop [] tag = Inl (UnknownTagError (''Unsupported tag format: '' @ tag))"
| "component_from_tag_loop ((_, component) # rest) tag =
     (if startswith tag (rc_tag_prefix component)
      then (let version = removeprefix tag (rc_tag_prefix component)
            in if semver_fullmatch version then Inr (component, version)
               else Inl (UnknownTagError (''Unsupported version in tag: '' @ tag)))
      else component_from_tag_loop rest tag)"

definition component_from_tag :: "string \<Rightarrow> release_error + release_component \<times> string" where
  "component_from_tag tag = component_from_tag_loop release_components tag"

definition list_matching_tags :: "release_component \<Rightarrow> string list \<Rightarrow> string list" where
  "list_matching_tags component tags = sort (filter (\<lambda>tag. startswith tag (rc_tag_prefix component)) tags)"

fun previous_tag_loop :: "string \<Rightarrow> string list \<Rightarrow> string option \<Rightarrow> string option" where
  "previous_tag_loop expected [] previous = previous"
| "previous_tag_loop expected (tag # tags) previous =
     (if tag = expected then previous else previous_tag_loop expected tags (Some tag))"

definition find_previous_component_tag ::
  "release_component \<Rightarrow> string \<Rightarrow> string list \<Rightarrow> string option" where
  "find_previous_component_tag component version tags =
     previous_tag_loop (rc_tag_prefix component @ version) (list_matching_tags component tags) None"

section \<open>The changelog\<close>

definition ordered_sections :: "string list" where
  "ordered_sections = [''Features'', ''Fixes'', ''Documentation'', ''Other'']"

definition section_parts :: "(string, string list) dict \<Rightarrow> string \<Rightarrow> string list" where
  "section_parts grouped_notes section_name =
     (case dict_get grouped_notes section_name of
        None \<Rightarrow> []
      | Some notes \<Rightarrow>
          (if notes = [] then []
           else (''### '' @ section_name) # map (\<lambda>note. ''- '' @ note) notes @ [[]]))"

definition render_release_section :: "string \<Rightarrow> string \<Rightarrow> (string, string list) dict \<Rightarrow> string" where
  "render_release_section version date grouped_notes =
     rstrip (join_with [line_feed]
       ((''## '' @ version @ '' - '' @ date) # [] # concat (map (section_parts grouped_notes) ordered_sections)))
     @ [line_feed]"

text \<open>\<open>re.search\<close> of a literal at the start of a line (\<open>re.MULTILINE\<close>).\<close>

function search_line_start :: "string \<Rightarrow> string \<Rightarrow> bool" where
  "search_line_start p s =
     (startswith s p
      \<or> (case dropWhile (\<lambda>c. c \<noteq> line_feed) s of [] \<Rightarrow> False | _ # rest \<Rightarrow> search_line_start p rest))"
  by pat_completeness auto

termination
proof (relation "measure (\<lambda>(p, s). length s)")
  fix s rest :: string and x
  assume "dropWhile (\<lambda>c. c \<noteq> line_feed) s = x # rest"
  then have "length (x # rest) \<le> length s" by (metis length_dropWhile_le)
  then show "((p, rest), (p, s)) \<in> measure (\<lambda>(p, s). length s)" for p by simp
qed simp

declare search_line_start.simps [simp del]

definition section_header :: "string \<Rightarrow> string" where
  "section_header version = ''## '' @ version @ '' - ''"

definition update_changelog :: "string \<Rightarrow> string \<Rightarrow> string \<Rightarrow> release_error + string" where
  "update_changelog existing version new_section =
     (if search_line_start (section_header version) existing
      then Inl (ChangelogSectionExistsError (''Version '' @ version @ '' already exists in changelog''))
      else if strip existing = [] then Inr new_section
      else (let lines = splitlines existing;
                before = rstrip (join_with [line_feed] (takeWhile (\<lambda>l. \<not> startswith l ''## '') lines));
                after = lstrip (join_with [line_feed] (dropWhile (\<lambda>l. \<not> startswith l ''## '') lines));
                parts = [before, rstrip new_section] @ (if after = [] then [] else [after])
            in Inr (join_with [line_feed, line_feed] (filter (\<lambda>part. part \<noteq> []) parts) @ [line_feed])))"

definition extract_release_body :: "string \<Rightarrow> string \<Rightarrow> release_error + string" where
  "extract_release_body changelog version =
     (case dropWhile (\<lambda>l. \<not> startswith l (section_header version)) (splitlines changelog) of
        [] \<Rightarrow> Inl (ChangelogSectionMissingError (''Version '' @ version @ '' not found in changelog''))
      | header # rest \<Rightarrow>
          Inr (rstrip (join_with [line_feed] (header # takeWhile (\<lambda>l. \<not> startswith l ''## '') rest))
               @ [line_feed]))"

section \<open>Notes written by git-cliff\<close>

definition section_of_heading :: "string \<Rightarrow> string" where
  "section_of_heading heading =
     (if heading = ''features'' then ''Features''
      else if heading = ''fixes'' then ''Fixes''
      else if heading \<in> {''documentation'', ''docs''} then ''Documentation''
      else ''Other'')"

definition empty_notes :: "(string, string list) dict" where
  "empty_notes = map (\<lambda>name. (name, [])) ordered_sections"

text \<open>One line of the loop: the section it is in and the notes so far.\<close>

definition normalize_line ::
  "string \<Rightarrow> string option \<times> (string, string list) dict \<Rightarrow> string option \<times> (string, string list) dict" where
  "normalize_line raw_line acc =
     (case acc of (current_section, grouped) \<Rightarrow>
        let line = strip raw_line in
        if startswith line ''### ''
        then (Some (section_of_heading (lower (strip (removeprefix line ''### '')))), grouped)
        else if startswith line ''- ''
        then (let target = (case current_section of None \<Rightarrow> ''Other'' | Some s \<Rightarrow> s);
                  notes = (case dict_get grouped target of None \<Rightarrow> [] | Some ns \<Rightarrow> ns)
              in (current_section, dict_set grouped target (notes @ [strip (drop 2 line)])))
        else (current_section, grouped))"

definition normalize_cliff_output :: "string \<Rightarrow> (string, string list) dict" where
  "normalize_cliff_output text = snd (fold normalize_line (splitlines text) (None, empty_notes))"

section \<open>Titles\<close>

definition conventional_types :: "string list" where
  "conventional_types = [''feat'', ''fix'', ''docs'', ''refactor'', ''perf'', ''test'', ''build'', ''ci'', ''chore'']"

definition scope_char :: "char \<Rightarrow> bool" where
  "scope_char c \<longleftrightarrow> (let n = of_char c :: nat in 97 \<le> n \<and> n \<le> 122) \<or> is_digit c \<or> c = CHR ''-''"

text \<open>\<open>!?: .+\<close> to the end of a title, \<open>.\<close> being any character but a line feed.\<close>

definition match_description :: "string \<Rightarrow> bool" where
  "match_description s =
     (let r = (case s of [] \<Rightarrow> s | c # r \<Rightarrow> (if c = CHR ''!'' then r else s))
      in startswith r '': '' \<and> drop 2 r \<noteq> [] \<and> line_feed \<notin> set (drop 2 r))"

text \<open>
  What follows the type: \<open>None\<close> when the title does not match, \<open>Some None\<close> when it has no
  scope, \<open>Some (Some scope)\<close> when it has one.
\<close>

definition match_scope :: "string \<Rightarrow> string option option" where
  "match_scope s =
     (case s of
        [] \<Rightarrow> None
      | c # r \<Rightarrow>
          (if c = CHR ''(''
           then (case dropWhile scope_char r of
                   [] \<Rightarrow> None
                 | d # r' \<Rightarrow>
                     (if takeWhile scope_char r \<noteq> [] \<and> d = CHR '')'' \<and> match_description r'
                      then Some (Some (takeWhile scope_char r)) else None))
           else (if match_description s then Some None else None)))"

definition match_title :: "string \<Rightarrow> string option option" where
  "match_title title =
     (case find (\<lambda>t. startswith title t) conventional_types of
        None \<Rightarrow> None
      | Some t \<Rightarrow> match_scope (drop (length t) title))"

definition quoted :: "string \<Rightarrow> string" where
  "quoted s = [CHR 0x27] @ s @ [CHR 0x27]"

definition validate_conventional_title ::
  "string \<Rightarrow> release_component option \<Rightarrow> release_error + unit" where
  "validate_conventional_title title component =
     (case match_title title of
        None \<Rightarrow> Inl (ReleaseToolError (''Title does not match Conventional Commits: '' @ title))
      | Some matched \<Rightarrow>
          (case (component, matched) of
             (Some c, Some scope) \<Rightarrow>
               (if scope \<notin> set (rc_scope_aliases c)
                then Inl (ReleaseToolError (''Unsupported scope '' @ quoted scope @ '' for component ''
                       @ quoted (rc_key c)))
                else Inr ())
           | _ \<Rightarrow> Inr ()))"

section \<open>Version rewrites\<close>

text \<open>\<open>^version = ".*"$\<close> on one line, and the first such line rewritten.\<close>

definition version_line :: "string \<Rightarrow> bool" where
  "version_line l \<longleftrightarrow> startswith l (''version = '' @ [CHR 0x22]) \<and> 12 \<le> length l \<and> last l = CHR 0x22"

fun rewrite_version_line :: "string \<Rightarrow> string list \<Rightarrow> string list option" where
  "rewrite_version_line version [] = None"
| "rewrite_version_line version (l # ls) =
     (if version_line l then Some ((''version = '' @ [CHR 0x22] @ version @ [CHR 0x22]) # ls)
      else map_option ((#) l) (rewrite_version_line version ls))"

definition set_package_version :: "string \<Rightarrow> string \<Rightarrow> string \<Rightarrow> release_error + string" where
  "set_package_version path content version =
     (case rewrite_version_line version (split_on line_feed content) of
        None \<Rightarrow> Inl (ReleaseToolError (''Could not rewrite version in '' @ path))
      | Some ls \<Rightarrow> Inr (join_with [line_feed] ls))"

text \<open>
  A coordinate of the README: one of the literal prefixes, then a version with any tail; every
  one is replaced, and they are counted.
\<close>

definition version_tail_char :: "char \<Rightarrow> bool" where
  "version_tail_char c \<longleftrightarrow> semver_char c \<or> c = CHR ''+''"

definition match_coordinate :: "string list \<Rightarrow> string \<Rightarrow> (string \<times> string) option" where
  "match_coordinate prefixes s =
     (case find (\<lambda>p. startswith s p) prefixes of
        None \<Rightarrow> None
      | Some p \<Rightarrow> map_option (\<lambda>rest. (p, dropWhile version_tail_char rest))
                    (match_version_core (drop (length p) s)))"

lemma match_digits_length: "match_digits s = Some r \<Longrightarrow> length r < length s"
proof -
  assume "match_digits s = Some r"
  then have "takeWhile is_digit s \<noteq> []" "r = dropWhile is_digit s"
    by (auto simp: match_digits_def split: if_splits)
  then have "length s = length (takeWhile is_digit s) + length r" "0 < length (takeWhile is_digit s)"
    by (simp_all add: length_append [symmetric] del: length_append)
  then show ?thesis by simp
qed

lemma match_dot_length: "match_dot s = Some r \<Longrightarrow> length r < length s"
  by (auto simp: match_dot_def split: list.splits if_splits)

lemma match_version_core_length: "match_version_core s = Some r \<Longrightarrow> length r < length s"
  by (auto simp: match_version_core_def split: bind_splits
      dest!: match_digits_length match_dot_length)

lemma match_coordinate_length:
  assumes "match_coordinate prefixes s = Some (p, r)"
  shows "length r < length s"
proof -
  from assms obtain q where q: "match_version_core (drop (length p) s) = Some q"
    "r = dropWhile version_tail_char q" by (auto simp: match_coordinate_def split: option.splits)
  from match_version_core_length [OF q(1)] have "length q < length s" by simp
  with q(2) show ?thesis using length_dropWhile_le [of version_tail_char q] by simp
qed

function rewrite_coordinates :: "string list \<Rightarrow> string \<Rightarrow> string \<Rightarrow> string \<times> nat" where
  "rewrite_coordinates prefixes version [] = ([], 0)"
| "rewrite_coordinates prefixes version (c # s) =
     (case match_coordinate prefixes (c # s) of
        Some (p, rest) \<Rightarrow>
          (case rewrite_coordinates prefixes version rest of (t, n) \<Rightarrow> (p @ version @ t, Suc n))
      | None \<Rightarrow> (case rewrite_coordinates prefixes version s of (t, n) \<Rightarrow> (c # t, n)))"
  by pat_completeness auto

termination
  by (relation "measure (\<lambda>(prefixes, version, s). length s)") (auto dest: match_coordinate_length)

definition readme_prefixes :: "string \<Rightarrow> (string list \<times> string) option" where
  "readme_prefixes component_key =
     (if component_key = ''android''
      then Some ([''io.github.nikkiw.taskbridge:taskbridge-core:'',
                  ''io.github.nikkiw.taskbridge:taskbridge-transport-okhttp:''], ''Android'')
      else if component_key = ''backend-fastapi'' then Some ([''pip install taskbridge-fastapi==''], ''Backend'')
      else if component_key = ''temporal-adapter'' then Some ([''pip install taskbridge-temporal==''], ''Temporal'')
      else None)"

definition update_readme_version ::
  "string \<Rightarrow> string \<Rightarrow> string \<Rightarrow> string \<Rightarrow> release_error + string" where
  "update_readme_version path content component_key version =
     (case readme_prefixes component_key of
        None \<Rightarrow> Inl (ReleaseToolError (''Unknown component key: '' @ component_key))
      | Some (prefixes, name) \<Rightarrow>
          (case rewrite_coordinates prefixes version content of
             (updated, replacements) \<Rightarrow>
               (if replacements = 0
                then Inl (ReleaseToolError (''Could not rewrite '' @ name @ '' version in '' @ path))
                else Inr updated)))"

section \<open>Commands\<close>

text \<open>The options \<open>--component\<close> and \<open>--tag\<close> exclude each other; one of them is given.\<close>

datatype release_target = ByComponent string | ByTag string

datatype release_command =
    Resolve release_target
  | PreviousTag string string
  | VerifyChangelog release_target "string option"
  | ExtractReleaseBody release_target "string option"
  | ReleaseTitle release_target "string option"
  | LintTitle string "string option"
  | NormalizeCliffNotes string string string
  | UpdateChangelog string string string
  | SetPackageVersion string string
  | UpdateReadme string string

datatype release_output = OutText string | OutJson jdict

type_synonym file_system = "string \<Rightarrow> string option"

definition read_text :: "file_system \<Rightarrow> string \<Rightarrow> release_error + string" where
  "read_text files path = (case files path of None \<Rightarrow> Inl (FileNotFoundError path) | Some t \<Rightarrow> Inr t)"

text \<open>An empty \<open>--component\<close> is falsy, and then there is no tag to read.\<close>

definition resolve_target :: "release_target \<Rightarrow> release_error + release_component \<times> string option" where
  "resolve_target target =
     (case target of
        ByComponent name \<Rightarrow>
          (if name = [] then Inl AttributeError
           else map_sum id (\<lambda>c. (c, None)) (component_for_name name))
      | ByTag tag \<Rightarrow> map_sum id (\<lambda>(c, v). (c, Some v)) (component_from_tag tag))"

definition target_version ::
  "release_target \<Rightarrow> string option \<Rightarrow> release_error + release_component \<times> string" where
  "target_version target version_option =
     (case resolve_target target of
        Inl e \<Rightarrow> Inl e
      | Inr (c, Some v) \<Rightarrow> Inr (c, v)
      | Inr (c, None) \<Rightarrow>
          (case version_option of
             None \<Rightarrow> Inl (ReleaseToolError ''--version is required with --component'')
           | Some v \<Rightarrow> (if v = [] then Inl (ReleaseToolError ''--version is required with --component'')
                        else Inr (c, v))))"

text \<open>\<open>release_title.format(version=version)\<close>: the titles have the one field.\<close>

fun format_version :: "string \<Rightarrow> string \<Rightarrow> string" where
  "format_version version [] = []"
| "format_version version (c # s) =
     (if startswith (c # s) ''{version}'' then version @ drop 8 s else c # format_version version s)"

definition component_json :: "release_component \<Rightarrow> string option \<Rightarrow> jdict" where
  "component_json c version =
     [(''component'', JStr (rc_key c))]
     @ (case version of None \<Rightarrow> [] | Some v \<Rightarrow> [(''version'', JStr v)])
     @ [(''tag_prefix'', JStr (rc_tag_prefix c)), (''changelog_path'', JStr (rc_changelog_path c)),
        (''include_paths'', JList (map JStr (rc_include_paths c))),
        (''release_title_template'', JStr (rc_release_title c)),
        (''scope_aliases'', JList (map JStr (rc_scope_aliases c)))]"

definition parent_path :: "string \<Rightarrow> string" where
  "parent_path path = join_with ''/'' (butlast (split_on (CHR ''/'') path))"

definition on_file ::
  "file_system \<Rightarrow> string \<Rightarrow> (string \<Rightarrow> release_error + string) \<Rightarrow> (release_error + release_output) \<times> file_system" where
  "on_file files path f =
     (case read_text files path of
        Inl e \<Rightarrow> (Inl e, files)
      | Inr content \<Rightarrow>
          (case f content of
             Inl e \<Rightarrow> (Inl e, files)
           | Inr updated \<Rightarrow> (Inr (OutText path), files(path \<mapsto> updated))))"

fun release_main ::
  "string list \<Rightarrow> release_command \<Rightarrow> file_system \<Rightarrow> (release_error + release_output) \<times> file_system" where
  "release_main git_tags (Resolve target) files =
     (map_sum id (\<lambda>(c, v). OutJson (component_json c v)) (resolve_target target), files)"
| "release_main git_tags (PreviousTag name version) files =
     (map_sum id (\<lambda>c. OutText (case find_previous_component_tag c version git_tags of
                                None \<Rightarrow> [] | Some tag \<Rightarrow> tag))
       (component_for_name name), files)"
| "release_main git_tags (VerifyChangelog target v) files =
     (case target_version target v of
        Inl e \<Rightarrow> (Inl e, files)
      | Inr (c, version) \<Rightarrow>
          (case read_text files (rc_changelog_path c) of
             Inl e \<Rightarrow> (Inl e, files)
           | Inr changelog \<Rightarrow> (map_sum id OutText (extract_release_body changelog version), files)))"
| "release_main git_tags (ExtractReleaseBody target v) files =
     (case target_version target v of
        Inl e \<Rightarrow> (Inl e, files)
      | Inr (c, version) \<Rightarrow>
          (case read_text files (rc_changelog_path c) of
             Inl e \<Rightarrow> (Inl e, files)
           | Inr changelog \<Rightarrow> (map_sum id OutText (extract_release_body changelog version), files)))"
| "release_main git_tags (ReleaseTitle target v) files =
     (map_sum id (\<lambda>(c, version). OutText (format_version version (rc_release_title c)))
       (target_version target v), files)"
| "release_main git_tags (LintTitle title name) files =
     (case (case name of None \<Rightarrow> Inr None
                       | Some n \<Rightarrow> if n = [] then Inr None else map_sum id Some (component_for_name n)) of
        Inl e \<Rightarrow> (Inl e, files)
      | Inr component \<Rightarrow> (map_sum id (\<lambda>_. OutText ''ok'') (validate_conventional_title title component), files))"
| "release_main git_tags (NormalizeCliffNotes input version date) files =
     (map_sum id (\<lambda>raw_notes. OutText (render_release_section version date (normalize_cliff_output raw_notes)))
       (read_text files input), files)"
| "release_main git_tags (UpdateChangelog name version section_file) files =
     (case component_for_name name of
        Inl e \<Rightarrow> (Inl e, files)
      | Inr c \<Rightarrow>
          (case read_text files section_file of
             Inl e \<Rightarrow> (Inl e, files)
           | Inr section \<Rightarrow>
               on_file files (rc_changelog_path c) (\<lambda>existing. update_changelog existing version section)))"
| "release_main git_tags (SetPackageVersion name version) files =
     (case component_for_name name of
        Inl e \<Rightarrow> (Inl e, files)
      | Inr c \<Rightarrow>
          (let path = parent_path (rc_changelog_path c) @ ''/pyproject.toml''
           in on_file files path (\<lambda>content. set_package_version path content version)))"
| "release_main git_tags (UpdateReadme key version) files =
     on_file files ''README.md'' (\<lambda>content. update_readme_version ''README.md'' content key version)"

end
