(* ===== verification/TextLines.thy ===== *)
theory TextLines
  imports PyText
begin

text \<open>
  How \<open>splitlines\<close>, \<open>"\n".join\<close>, \<open>split\<close> and the strips fit together, on text whose only line
  boundary is the line feed.
\<close>

definition plain_line :: "string \<Rightarrow> bool" where
  "plain_line l \<longleftrightarrow> (\<forall>c \<in> set l. \<not> is_line_break c)"

definition lf_text :: "string \<Rightarrow> bool" where
  "lf_text s \<longleftrightarrow> (\<forall>c \<in> set s. is_line_break c \<longrightarrow> c = line_feed)"

lemma line_feed_break: "is_line_break line_feed" "is_py_space line_feed" "line_feed \<noteq> carriage_return"
  by (simp_all add: is_line_break_def is_py_space_def line_feed_def carriage_return_def)

lemma plain_no_line_feed: "plain_line l \<Longrightarrow> line_feed \<notin> set l"
  using line_feed_break by (auto simp: plain_line_def)

lemma lf_text_append [simp]: "lf_text (s @ t) \<longleftrightarrow> lf_text s \<and> lf_text t"
  by (auto simp: lf_text_def)

lemma lf_text_simps [simp]: "lf_text []" "lf_text (line_feed # s) \<longleftrightarrow> lf_text s"
  by (auto simp: lf_text_def)

section \<open>Lines\<close>

lemma splitlines_from_lf:
  "lf_text s \<Longrightarrow> splitlines_from acc (s @ [line_feed])
     = (rev acc @ hd (split_on line_feed s)) # tl (split_on line_feed s)"
proof (induction s arbitrary: acc)
  case Nil
  then show ?case by (simp add: line_feed_break)
next
  case (Cons x s)
  obtain p ps where s: "split_on line_feed s = p # ps"
    by (cases "split_on line_feed s") (simp_all add: split_on_nonempty)
  show ?case
  proof (cases "x = line_feed")
    case True
    then show ?thesis using Cons s by (simp add: lf_text_def line_feed_break)
  next
    case False
    then have "\<not> is_line_break x" using Cons.prems by (auto simp: lf_text_def)
    then show ?thesis using Cons False s by (simp add: lf_text_def)
  qed
qed

lemma splitlines_lf: "lf_text s \<Longrightarrow> splitlines (s @ [line_feed]) = split_on line_feed s"
  unfolding splitlines_def by (simp add: splitlines_from_lf split_on_nonempty)

lemma splitlines_from_plain:
  "plain_line acc \<Longrightarrow> \<forall>l \<in> set (splitlines_from acc s). plain_line l \<and> set l \<subseteq> set acc \<union> set s"
proof (induction acc s rule: splitlines_from.induct)
  case (1 acc)
  then show ?case by (simp add: plain_line_def)
next
  case (2 acc x xs)
  have nil: "plain_line []" by (simp add: plain_line_def)
  show ?case
  proof (cases "is_line_break x")
    case True
    define rest where "rest = (if x = carriage_return \<and> (case xs of [] \<Rightarrow> False | y # _ \<Rightarrow> y = line_feed) then tl xs else xs)"
    have sub: "set rest \<subseteq> set xs" by (cases xs) (simp_all add: rest_def, auto)
    have IH: "\<forall>l \<in> set (splitlines_from [] rest). plain_line l \<and> set l \<subseteq> set rest"
      using 2(1) [OF True nil] by (simp add: rest_def)
    have eq: "splitlines_from acc (x # xs) = rev acc # splitlines_from [] rest"
      using True by (simp add: rest_def)
    have "plain_line (rev acc)" using 2(3) by (simp add: plain_line_def)
    with IH sub show ?thesis unfolding eq by auto
  next
    case False
    then have "plain_line (x # acc)" using 2(3) by (simp add: plain_line_def)
    from 2(2) [OF False this] False show ?thesis by auto
  qed
qed

lemma splitlines_plain:
  assumes "l \<in> set (splitlines s)"
  shows "plain_line l" "set l \<subseteq> set s"
  using splitlines_from_plain [where acc = "[]" and s = s] assms by (auto simp: splitlines_def plain_line_def)

section \<open>Joins\<close>

lemma join_with_Cons: "ls \<noteq> [] \<Longrightarrow> join_with sep (l # ls) = l @ sep @ join_with sep ls"
  by (cases ls) simp_all

lemma join_with_snoc: "ls \<noteq> [] \<Longrightarrow> join_with sep (ls @ [l]) = join_with sep ls @ sep @ l"
proof (induction ls)
  case (Cons x ls)
  then show ?case by (cases "ls = []") (simp_all add: join_with_Cons)
qed simp

lemma split_on_join:
  "ls \<noteq> [] \<Longrightarrow> \<forall>l \<in> set ls. c \<notin> set l \<Longrightarrow> split_on c (join_with [c] ls) = ls"
proof (induction ls)
  case (Cons x ls)
  then show ?case by (cases "ls = []") (simp_all add: join_with_Cons split_on_none split_on_sep)
qed simp

lemma join_split_on: "join_with [c] (split_on c s) = s"
proof (induction s)
  case (Cons x s)
  show ?case
  proof (cases "x = c")
    case True
    then show ?thesis using Cons by (simp add: join_with_Cons split_on_nonempty)
  next
    case False
    obtain p ps where s: "split_on c s = p # ps"
      by (cases "split_on c s") (simp_all add: split_on_nonempty)
    then show ?thesis using Cons False by (cases "ps = []") (simp_all add: join_with_Cons)
  qed
qed simp

lemma set_join_with: "set (join_with sep ls) \<subseteq> set sep \<union> \<Union> (set ` set ls)"
  by (induction ls rule: join_with.induct) auto

lemma join_with_lf_text: "\<forall>l \<in> set ls. plain_line l \<Longrightarrow> lf_text (join_with [line_feed] ls)"
  using set_join_with [of "[line_feed]" ls] by (fastforce simp: lf_text_def plain_line_def)

lemma split_on_append:
  "split_on c (s @ w) = butlast (split_on c s) @ (last (split_on c s) @ hd (split_on c w)) # tl (split_on c w)"
proof (induction s)
  case Nil
  then show ?case by (simp add: split_on_nonempty)
next
  case (Cons x s)
  obtain p ps where "split_on c s = p # ps"
    by (cases "split_on c s") (simp_all add: split_on_nonempty)
  with Cons show ?case by (cases ps) simp_all
qed

lemma split_on_prefix: "p \<in> set (split_on c s) \<Longrightarrow> \<exists>q \<in> set (split_on c (s @ w)). \<exists>v. q = p @ v"
proof -
  assume "p \<in> set (split_on c s)"
  moreover have "split_on c s = butlast (split_on c s) @ [last (split_on c s)]"
    by (simp add: split_on_nonempty)
  ultimately have "p \<in> set (butlast (split_on c s)) \<or> p = last (split_on c s)"
    by (metis Un_iff insertE list.set(1,2) set_append empty_iff)
  then show ?thesis
  proof
    assume "p \<in> set (butlast (split_on c s))"
    then show ?thesis unfolding split_on_append by (intro bexI [of _ p]) auto
  next
    assume "p = last (split_on c s)"
    then show ?thesis unfolding split_on_append by (intro bexI [of _ "p @ hd (split_on c w)"]) auto
  qed
qed

section \<open>Strips\<close>

lemma rstrip_split: obtains w where "s = rstrip s @ w" "\<forall>c \<in> set w. is_py_space c"
proof
  show "s = rstrip s @ rev (takeWhile is_py_space (rev s))"
    unfolding rstrip_def by (metis rev_append rev_rev_ident takeWhile_dropWhile_id)
  show "\<forall>c \<in> set (rev (takeWhile is_py_space (rev s))). is_py_space c"
    by (auto dest: set_takeWhileD)
qed

lemma rstrip_append_space: "\<forall>c \<in> set w. is_py_space c \<Longrightarrow> rstrip (s @ w) = rstrip s"
  by (simp add: rstrip_def) (subst dropWhile_append2, auto)

lemma rstrip_keep: "\<not> is_py_space (last s) \<Longrightarrow> rstrip s = s"
  by (cases s rule: rev_cases) (simp_all add: rstrip_def)

lemma rstrip_last: "rstrip s = s \<Longrightarrow> s \<noteq> [] \<Longrightarrow> \<not> is_py_space (last s)"
proof (cases s rule: rev_cases)
  case (snoc t x)
  assume "rstrip s = s"
  then have "length (rstrip s) = Suc (length t)" using snoc by simp
  moreover have "length (rstrip s) \<le> length t" if "is_py_space x"
    using that length_dropWhile_le [of is_py_space "rev t"] by (simp add: rstrip_def snoc)
  ultimately show ?thesis using snoc by auto
qed simp

lemma rstrip_idem [simp]: "rstrip (rstrip s) = rstrip s"
  by (simp add: rstrip_def dropWhile_idem)

lemma set_rstrip: "set (rstrip s) \<subseteq> set s"
  by (auto simp: rstrip_def dest: set_dropWhileD)

lemma lstrip_keep: "s \<noteq> [] \<Longrightarrow> \<not> is_py_space (hd s) \<Longrightarrow> lstrip s = s"
  by (cases s) (simp_all add: lstrip_def)

text \<open>Stripping the end of joined lines drops the blank lines at the end, and no more.\<close>

lemma rstrip_join:
  assumes "ls \<noteq> []" "hd ls \<noteq> []" "\<forall>l \<in> set ls. rstrip l = l"
  shows "\<exists>k ls'. ls = ls' @ replicate k [] \<and> ls' \<noteq> [] \<and> rstrip (join_with [line_feed] ls) = join_with [line_feed] ls'"
  using assms
proof (induction ls rule: rev_induct)
  case Nil
  then show ?case by simp
next
  case (snoc l ls)
  show ?case
  proof (cases "l = []")
    case True
    then have ls: "ls \<noteq> []" using snoc.prems(2) by auto
    from ls snoc obtain k ls' where IH: "ls = ls' @ replicate k []" "ls' \<noteq> []"
      "rstrip (join_with [line_feed] ls) = join_with [line_feed] ls'" by auto
    have "rstrip (join_with [line_feed] (ls @ [l])) = rstrip (join_with [line_feed] ls)"
      using True ls by (simp add: join_with_snoc rstrip_append_space line_feed_break)
    then show ?thesis
      using IH True by (intro exI [of _ "Suc k"] exI [of _ ls']) (simp add: replicate_append_same)
  next
    case False
    then have last: "\<not> is_py_space (last l)" using snoc.prems(3) rstrip_last by simp
    have "rstrip (join_with [line_feed] (ls @ [l])) = join_with [line_feed] (ls @ [l])"
      using False last by (cases "ls = []") (auto simp: join_with_snoc intro: rstrip_keep)
    then show ?thesis by (intro exI [of _ 0] exI [of _ "ls @ [l]"]) simp
  qed
qed

end
