(* ===== verification/ReleaseProperties.thy ===== *)
theory ReleaseProperties
  imports ReleaseTools TextLines
begin

text \<open>
  Properties of the release tools: a section written into a changelog is the release body read
  out of it again and leaves the other versions alone, the notes of a rendered section are
  read back, and the order in which the previous tag is looked for.
\<close>

section \<open>Sections of a changelog\<close>

definition heading :: "string \<Rightarrow> bool" where
  "heading l \<longleftrightarrow> startswith l ''## ''"

definition no_space :: "string \<Rightarrow> bool" where
  "no_space s \<longleftrightarrow> CHR '' '' \<notin> set s"

text \<open>The text of a section, without its last line feed: a header and lines that are no headings.\<close>

definition section_text :: "string \<Rightarrow> string \<Rightarrow> bool" where
  "section_text version s \<longleftrightarrow> rstrip s = s \<and> lf_text s \<and> no_space version
     \<and> startswith (hd (split_on line_feed s)) (section_header version)
     \<and> (\<forall>l \<in> set (tl (split_on line_feed s)). \<not> heading l)"

lemma startswith_prefix: "startswith l p \<Longrightarrow> startswith (l @ w) p"
  by (auto simp: startswith_iff)

lemma header_heading: "startswith l (section_header version) \<Longrightarrow> heading l"
  by (auto simp: heading_def startswith_iff section_header_def)

lemma header_unique:
  assumes "startswith l (section_header v)" "startswith l (section_header v')" "no_space v" "no_space v'"
  shows "v = v'"
proof -
  from assms(1,2) obtain a b where "v @ '' - '' @ a = v' @ '' - '' @ b"
    by (auto simp: startswith_iff section_header_def)
  then have "takeWhile (\<lambda>c. c \<noteq> CHR '' '') (v @ '' - '' @ a) = takeWhile (\<lambda>c. c \<noteq> CHR '' '') (v' @ '' - '' @ b)"
    by simp
  moreover have "takeWhile (\<lambda>c. c \<noteq> CHR '' '') (u @ '' - '' @ w) = u" if "no_space u" for u w
    using that by (subst takeWhile_append2) (auto simp: no_space_def)
  ultimately show ?thesis using assms(3,4) by metis
qed

text \<open>\<open>extract_release_body\<close> on lines.\<close>

definition extract_lines :: "string \<Rightarrow> string list \<Rightarrow> release_error + string" where
  "extract_lines version ls =
     (case dropWhile (\<lambda>l. \<not> startswith l (section_header version)) ls of
        [] \<Rightarrow> Inl (ChangelogSectionMissingError (''Version '' @ version @ '' not found in changelog''))
      | header # rest \<Rightarrow> Inr (rstrip (join_with [line_feed] (header # takeWhile (\<lambda>l. \<not> heading l) rest)) @ [line_feed]))"

lemma extract_release_body_lines: "extract_release_body s version = extract_lines version (splitlines s)"
  unfolding extract_release_body_def extract_lines_def heading_def ..

lemma extract_skip: "\<forall>l \<in> set a. \<not> startswith l (section_header v) \<Longrightarrow> extract_lines v (a @ b) = extract_lines v b"
  by (simp add: extract_lines_def dropWhile_append2)

lemma not_heading_skip: "\<forall>l \<in> set a. \<not> heading l \<Longrightarrow> extract_lines v (a @ b) = extract_lines v b"
  using header_heading extract_skip by blast

lemma section_split:
  assumes "section_text v s"
  obtains h t where "split_on line_feed s = h # t" "startswith h (section_header v)" "\<forall>l \<in> set t. \<not> heading l"
    "s = join_with [line_feed] (h # t)" "s \<noteq> []"
proof -
  obtain h t where ht: "split_on line_feed s = h # t"
    by (cases "split_on line_feed s") (simp_all add: split_on_nonempty)
  have j: "s = join_with [line_feed] (h # t)" using join_split_on [of line_feed s] ht by simp
  moreover have "startswith h (section_header v)" "\<forall>l \<in> set t. \<not> heading l"
    using assms ht by (auto simp: section_text_def)
  moreover have "s \<noteq> []"
  proof
    assume "s = []"
    with ht \<open>startswith h (section_header v)\<close> show False
      by (simp add: startswith_def section_header_def)
  qed
  ultimately show thesis using that ht by blast
qed

text \<open>A section between lines that are no headings and what starts with a heading.\<close>

lemma extract_section:
  assumes s: "section_text v s" and a: "\<forall>l \<in> set a. \<not> heading l"
    and b: "b = [] \<or> (b = [] # post \<and> post \<noteq> [] \<and> heading (hd post))"
  shows "extract_lines v (a @ split_on line_feed s @ b) = Inr (s @ [line_feed])"
proof -
  from s obtain h t where ht: "split_on line_feed s = h # t" "startswith h (section_header v)"
    "\<forall>l \<in> set t. \<not> heading l" "s = join_with [line_feed] (h # t)" "s \<noteq> []" by (rule section_split)
  have e: "\<not> heading []" by (simp add: heading_def startswith_def)
  have r: "rstrip s = s" using s by (simp add: section_text_def)
  have "extract_lines v (a @ split_on line_feed s @ b) = extract_lines v (h # t @ b)"
    using not_heading_skip [OF a] ht(1) by simp
  also have "\<dots> = Inr (rstrip (join_with [line_feed] (h # takeWhile (\<lambda>l. \<not> heading l) (t @ b))) @ [line_feed])"
    using ht(2) by (simp add: extract_lines_def)
  also have "\<dots> = Inr (s @ [line_feed])"
    using b
  proof
    assume b': "b = []"
    have tw: "takeWhile (\<lambda>l. \<not> heading l) t = t" using ht(3) by (simp add: takeWhile_eq_all_conv)
    show ?thesis unfolding b' append_Nil2 tw ht(4) [symmetric] r ..
  next
    assume b': "b = [] # post \<and> post \<noteq> [] \<and> heading (hd post)"
    then have "takeWhile (\<lambda>l. \<not> heading l) (t @ b) = t @ [[]]"
      using ht(3) e by (cases post) (simp_all add: takeWhile_append2)
    moreover have "join_with [line_feed] ((h # t) @ [[]]) = s @ [line_feed]"
      using ht(4) join_with_snoc [of "h # t" "[line_feed]" "[]"] by simp
    ultimately show ?thesis using r by (simp add: rstrip_append_space line_feed_break)
  qed
  finally show ?thesis .
qed

lemma extract_other:
  assumes s: "section_text v s" and a: "\<forall>l \<in> set a. \<not> heading l" and "no_space v'" "v' \<noteq> v"
  shows "extract_lines v' (a @ split_on line_feed s @ b) = extract_lines v' b"
proof -
  from s obtain h t where ht: "split_on line_feed s = h # t" "startswith h (section_header v)"
    "\<forall>l \<in> set t. \<not> heading l" by (rule section_split)
  have "\<not> startswith h (section_header v')"
    using header_unique [OF ht(2)] assms by (auto simp: section_text_def)
  then have "extract_lines v' (h # t @ b) = extract_lines v' b"
    using extract_skip [of "h # t" v' b] ht(3) header_heading by auto
  then show ?thesis using not_heading_skip [OF a] ht(1) by simp
qed

section \<open>Updating a changelog\<close>

text \<open>The lines of an updated changelog.\<close>

lemma update_lines:
  assumes up: "update_changelog existing v (s @ [line_feed]) = Inr updated" and s: "section_text v s"
  obtains a b post pre where "splitlines updated = a @ split_on line_feed s @ b" "\<forall>l \<in> set a. \<not> heading l"
    "splitlines existing = pre @ post" "\<forall>l \<in> set pre. \<not> heading l"
    "(b = [] \<and> post = []) \<or> (b = [] # post \<and> post \<noteq> [] \<and> heading (hd post))"
    "\<exists>u. updated = u @ [line_feed] \<and> lf_text u"
proof -
  from s obtain h t where ht: "split_on line_feed s = h # t" "s \<noteq> []" by (rule section_split)
  have lf: "lf_text s" "rstrip (s @ [line_feed]) = s"
    using s by (simp_all add: section_text_def rstrip_append_space line_feed_break)
  show thesis
  proof (cases "strip existing = []")
    case True
    then have "updated = s @ [line_feed]" using up by (simp add: update_changelog_def split: if_splits)
    moreover have "\<not> heading l" if "l \<in> set (splitlines existing)" for l
    proof
      assume "heading l"
      then have "CHR ''#'' \<in> set existing"
        using splitlines_plain(2) [OF that] by (auto simp: heading_def startswith_iff)
      moreover have "\<forall>c \<in> set existing. is_py_space c"
      proof -
        have "rstrip (lstrip existing) = []" using True by (simp add: strip_def)
        then have "\<forall>c \<in> set (lstrip existing). is_py_space c"
          by (auto simp: rstrip_def dropWhile_eq_Nil_conv)
        then have "lstrip existing = []"
          unfolding lstrip_def by (metis dropWhile_eq_Nil_conv hd_dropWhile hd_in_set)
        then show ?thesis by (simp add: lstrip_def dropWhile_eq_Nil_conv)
      qed
      ultimately show False by (auto simp: is_py_space_def)
    qed
    ultimately show thesis
      using that [of "[]" "[]" "splitlines existing" "[]"] lf(1) by (auto simp: splitlines_lf)
  next
    case False
    let ?lines = "splitlines existing"
    define pre where "pre = takeWhile (\<lambda>l. \<not> heading l) ?lines"
    define post where "post = dropWhile (\<lambda>l. \<not> heading l) ?lines"
    have pp: "?lines = pre @ post" "\<forall>l \<in> set pre. \<not> heading l"
      by (auto simp: pre_def post_def dest: set_takeWhileD)
    have plain: "\<forall>l \<in> set pre. plain_line l" "\<forall>l \<in> set post. plain_line l"
      using splitlines_plain(1) [of _ existing] unfolding pp(1) by auto
    define before where "before = rstrip (join_with [line_feed] pre)"
    define after where "after = lstrip (join_with [line_feed] post)"
    have after: "if post = [] then after = [] else after = join_with [line_feed] post \<and> after \<noteq> []
        \<and> split_on line_feed after = post \<and> heading (hd post)"
    proof (cases post)
      case (Cons p ps)
      have hp: "heading p" using hd_dropWhile [where P = "\<lambda>l. \<not> heading l" and xs = ?lines] Cons
        unfolding post_def by (metis list.distinct(1) list.sel(1))
      then obtain r where r: "join_with [line_feed] post = CHR ''#'' # r"
        by (cases ps) (auto simp: Cons heading_def startswith_iff)
      have "\<not> is_py_space (CHR ''#'')" by (simp add: is_py_space_def)
      then have "after = join_with [line_feed] post" by (simp add: after_def lstrip_keep r)
      moreover have "split_on line_feed (join_with [line_feed] post) = post"
        using Cons plain plain_no_line_feed by (intro split_on_join) auto
      ultimately show ?thesis using Cons hp r by simp
    qed (simp add: after_def lstrip_def)
    have lf_before: "lf_text before" "lf_text after"
    proof -
      show "lf_text before" using join_with_lf_text [OF plain(1)] set_rstrip
        by (fastforce simp: before_def lf_text_def)
      show "lf_text after" using join_with_lf_text [OF plain(2)] after
        by (cases "post = []") (simp_all add: lf_text_def)
    qed
    define a where "a = (if before = [] then [] else split_on line_feed before @ [[]])"
    define b where "b = (if after = [] then [] else [] # split_on line_feed after)"
    define u where "u = (if before = [] then [] else before @ [line_feed, line_feed]) @ s
        @ (if after = [] then [] else [line_feed, line_feed] @ after)"
    have "updated = u @ [line_feed]"
      using up False ht(2) lf(2)
      by (auto simp: update_changelog_def Let_def u_def before_def after_def pre_def post_def heading_def split: if_splits)
    moreover have "lf_text u" using lf(1) lf_before by (simp add: u_def)
    moreover have "split_on line_feed u = a @ split_on line_feed s @ b"
      by (simp add: u_def a_def b_def split_on_sep)
    moreover have "\<forall>l \<in> set a. \<not> heading l"
    proof
      fix l
      assume "l \<in> set a"
      then consider "l = []" | "before \<noteq> []" "l \<in> set (split_on line_feed before)"
        by (auto simp: a_def split: if_splits)
      then show "\<not> heading l"
      proof cases
        case 1
        then show ?thesis by (simp add: heading_def startswith_def)
      next
        case 2
        then have ne: "pre \<noteq> []" by (auto simp: before_def rstrip_def)
        obtain w where "join_with [line_feed] pre = before @ w"
          unfolding before_def by (rule rstrip_split)
        with split_on_prefix [OF 2(2), of w] obtain q v where q: "q \<in> set (split_on line_feed (join_with [line_feed] pre))"
          "q = l @ v" by auto
        have "split_on line_feed (join_with [line_feed] pre) = pre"
          using ne plain plain_no_line_feed by (intro split_on_join) auto
        with q pp(2) show ?thesis by (auto simp: heading_def dest: startswith_prefix)
      qed
    qed
    ultimately show thesis
      using that [of a b pre post] pp after by (auto simp: splitlines_lf b_def split: if_splits)
  qed
qed

lemma search_line_start_lines:
  "\<exists>l \<in> set (split_on line_feed s). startswith l p \<Longrightarrow> search_line_start p s"
proof (induction p s rule: search_line_start.induct)
  case (1 p s)
  show ?case
  proof (cases "dropWhile (\<lambda>c. c \<noteq> line_feed) s")
    case Nil
    then have "line_feed \<notin> set s" by (auto simp: dropWhile_eq_Nil_conv)
    then show ?thesis using 1(2) by (subst search_line_start.simps) (simp add: split_on_none)
  next
    case (Cons x rest)
    then have x: "x = line_feed" using hd_dropWhile [of "\<lambda>c. c \<noteq> line_feed" s] by simp
    let ?a = "takeWhile (\<lambda>c. c \<noteq> line_feed) s"
    have s: "s = ?a @ line_feed # rest" using Cons x takeWhile_dropWhile_id [of "\<lambda>c. c \<noteq> line_feed" s] by simp
    have "line_feed \<notin> set ?a" by (auto dest: set_takeWhileD)
    then have "split_on line_feed s = ?a # split_on line_feed rest"
      by (subst s) (simp add: split_on_sep split_on_none)
    then consider "startswith ?a p" | "\<exists>l \<in> set (split_on line_feed rest). startswith l p"
      using 1(2) by auto
    then show ?thesis
    proof cases
      case 1
      then have "startswith (?a @ line_feed # rest) p" by (rule startswith_prefix)
      then have "startswith s p" using s by simp
      then show ?thesis by (subst search_line_start.simps) simp
    next
      case 2
      then show ?thesis using 1(1) [OF Cons] Cons by (subst search_line_start.simps) simp
    qed
  qed
qed

section \<open>Rendered sections\<close>

definition note_ok :: "string \<Rightarrow> bool" where
  "note_ok n \<longleftrightarrow> plain_line n \<and> n \<noteq> [] \<and> strip n = n"

definition notes_ok :: "(string, string list) dict \<Rightarrow> bool" where
  "notes_ok grouped \<longleftrightarrow> (\<forall>(name, notes) \<in> set grouped. \<forall>n \<in> set notes. note_ok n)"

definition release_date_ok :: "string \<Rightarrow> string \<Rightarrow> bool" where
  "release_date_ok version date \<longleftrightarrow> no_space version \<and> plain_line version \<and> plain_line date
     \<and> date \<noteq> [] \<and> rstrip date = date"

definition notes_of :: "(string, string list) dict \<Rightarrow> string \<Rightarrow> string list" where
  "notes_of grouped name = (case dict_get grouped name of None \<Rightarrow> [] | Some ns \<Rightarrow> ns)"

definition rendered_lines :: "string \<Rightarrow> string \<Rightarrow> (string, string list) dict \<Rightarrow> string list" where
  "rendered_lines version date grouped =
     (section_header version @ date) # [] # concat (map (section_parts grouped) ordered_sections)"

lemma render_rendered_lines:
  "render_release_section v d g = rstrip (join_with [line_feed] (rendered_lines v d g)) @ [line_feed]"
  by (simp add: render_release_section_def rendered_lines_def section_header_def)

definition bullet :: "string \<Rightarrow> string" where
  "bullet n = ''- '' @ n"

lemma section_parts_notes:
  "section_parts g name = (if notes_of g name = [] then []
     else (''### '' @ name) # map bullet (notes_of g name) @ [[]])"
  by (simp add: section_parts_def notes_of_def bullet_def split: option.splits)

lemma notes_of_ok: "notes_ok g \<Longrightarrow> n \<in> set (notes_of g name) \<Longrightarrow> note_ok n"
proof -
  assume g: "notes_ok g" and n: "n \<in> set (notes_of g name)"
  then obtain ns where "map_of g name = Some ns" "n \<in> set ns"
    by (cases "map_of g name") (simp_all add: notes_of_def dict_get_def)
  moreover from this have "(name, ns) \<in> set g" by (simp add: map_of_SomeD)
  ultimately show ?thesis using g by (auto simp: notes_ok_def)
qed

lemma note_rstrip: "note_ok n \<Longrightarrow> rstrip n = n"
  unfolding note_ok_def strip_def by (metis rstrip_idem)

lemma rstrip_prefixed: "rstrip n = n \<Longrightarrow> n \<noteq> [] \<Longrightarrow> rstrip (p @ n) = p @ n"
  using rstrip_last [of n] by (intro rstrip_keep) simp

lemma plain_line_append [simp]: "plain_line (a @ b) \<longleftrightarrow> plain_line a \<and> plain_line b"
  by (auto simp: plain_line_def)

lemma line_facts:
  "plain_line []" "plain_line ''### ''" "plain_line ''- ''" "plain_line ''## ''" "plain_line '' - ''"
  "\<not> heading []" "\<not> heading (''### '' @ l)" "\<not> heading (''- '' @ l)"
  by (simp_all add: plain_line_def is_line_break_def heading_def startswith_def)

lemma ordered_section_facts:
  "name \<in> set ordered_sections \<Longrightarrow> plain_line name \<and> rstrip name = name \<and> name \<noteq> []
     \<and> section_of_heading (lower (strip name)) = name"
proof -
  have "\<forall>name \<in> set ordered_sections. plain_line name \<and> rstrip name = name \<and> name \<noteq> []
     \<and> section_of_heading (lower (strip name)) = name" by code_simp
  then show "name \<in> set ordered_sections \<Longrightarrow> ?thesis" by blast
qed

lemma rendered_line:
  assumes "notes_ok g" "l \<in> set (concat (map (section_parts g) ordered_sections))"
  shows "plain_line l \<and> rstrip l = l \<and> \<not> heading l"
proof -
  from assms(2) obtain name where name: "name \<in> set ordered_sections" "l \<in> set (section_parts g name)" by auto
  then consider "l = ''### '' @ name" | n where "n \<in> set (notes_of g name)" "l = bullet n" | "l = []"
    by (auto simp: section_parts_notes split: if_splits)
  then show ?thesis
  proof cases
    case 1
    from ordered_section_facts [OF name(1)] show ?thesis
      unfolding 1 by (simp only: plain_line_append line_facts rstrip_prefixed simp_thms)
  next
    case 2
    from notes_of_ok [OF assms(1) 2(1)] have "note_ok n" .
    then show ?thesis
      unfolding 2(2) bullet_def using note_rstrip [of n]
      by (simp only: plain_line_append line_facts rstrip_prefixed note_ok_def simp_thms)
  next
    case 3
    then show ?thesis by (simp add: line_facts rstrip_def)
  qed
qed

lemma rendered_body:
  assumes "release_date_ok v d" "notes_ok g"
  obtains ls k where "rendered_lines v d g = ls @ replicate k []"
    "rstrip (join_with [line_feed] (rendered_lines v d g)) = join_with [line_feed] ls"
    "split_on line_feed (join_with [line_feed] ls) = ls" "lf_text (join_with [line_feed] ls)" "ls \<noteq> []"
proof -
  let ?ls = "rendered_lines v d g"
  have d: "plain_line v" "plain_line d" "d \<noteq> []" "rstrip d = d"
    using assms(1) by (auto simp: release_date_ok_def)
  have h: "plain_line (section_header v @ d)" "rstrip (section_header v @ d) = section_header v @ d"
    using d by (simp_all only: plain_line_append section_header_def line_facts rstrip_prefixed simp_thms)
  have "\<forall>l \<in> set ?ls. rstrip l = l" "\<forall>l \<in> set ?ls. plain_line l"
    using h rendered_line [OF assms(2)] by (auto simp: rendered_lines_def line_facts rstrip_def [of "[]"])
  moreover have "?ls \<noteq> []" "hd ?ls \<noteq> []" by (simp_all add: rendered_lines_def section_header_def)
  ultimately obtain k ls where k: "?ls = ls @ replicate k []" "ls \<noteq> []"
    "rstrip (join_with [line_feed] ?ls) = join_with [line_feed] ls" using rstrip_join by blast
  have "\<forall>l \<in> set ls. plain_line l" using \<open>\<forall>l \<in> set ?ls. plain_line l\<close> k(1) by simp
  then show thesis
    using that k plain_no_line_feed split_on_join [of ls line_feed] join_with_lf_text by blast
qed

lemma render_section_text:
  assumes "release_date_ok v d" "notes_ok g"
  obtains s where "render_release_section v d g = s @ [line_feed]" "section_text v s"
proof -
  from assms obtain ls k where ls: "rendered_lines v d g = ls @ replicate k []"
    "rstrip (join_with [line_feed] (rendered_lines v d g)) = join_with [line_feed] ls"
    "split_on line_feed (join_with [line_feed] ls) = ls" "lf_text (join_with [line_feed] ls)" "ls \<noteq> []"
    by (rule rendered_body)
  let ?s = "join_with [line_feed] ls"
  obtain h t where ht: "ls = h # t" using ls(5) by (cases ls) auto
  have hd: "h = section_header v @ d" and tl: "set t \<subseteq> {[]} \<union> set (concat (map (section_parts g) ordered_sections))"
  proof -
    from ls(1) ht have e: "(section_header v @ d) # [] # concat (map (section_parts g) ordered_sections)
        = h # t @ replicate k []" by (simp add: rendered_lines_def)
    then show "h = section_header v @ d" by simp
    from e have "set (t @ replicate k []) = {[]} \<union> set (concat (map (section_parts g) ordered_sections))"
      by (metis list.inject list.simps(15) insert_is_Un)
    then show "set t \<subseteq> {[]} \<union> set (concat (map (section_parts g) ordered_sections))" by auto
  qed
  have "rstrip ?s = ?s" using ls(2) by (metis rstrip_idem)
  moreover have "\<forall>l \<in> set t. \<not> heading l"
    using tl rendered_line [OF assms(2)] line_facts(6) by blast
  ultimately have "section_text v ?s"
    using ls(3,4) ht hd assms(1) by (simp add: section_text_def release_date_ok_def)
  moreover have "render_release_section v d g = ?s @ [line_feed]"
    using ls(2) by (simp add: render_rendered_lines)
  ultimately show thesis using that by blast
qed

section \<open>Reading the notes back\<close>

lemma normalize_blank: "normalize_line [] acc = acc"
  by (cases acc) (simp add: normalize_line_def Let_def strip_def lstrip_def rstrip_def startswith_def)

lemma normalize_blanks: "fold normalize_line (replicate k []) acc = acc"
  by (induction k arbitrary: acc) (simp_all add: normalize_blank)

lemma strip_keep: "s \<noteq> [] \<Longrightarrow> \<not> is_py_space (hd s) \<Longrightarrow> rstrip s = s \<Longrightarrow> strip s = s"
  by (simp add: strip_def lstrip_keep)

lemma normalize_header:
  assumes "release_date_ok v d"
  shows "normalize_line (section_header v @ d) acc = acc"
proof -
  have "d \<noteq> []" "rstrip d = d" using assms by (auto simp: release_date_ok_def)
  then have "rstrip (section_header v @ d) = section_header v @ d" by (intro rstrip_prefixed)
  then have "strip (section_header v @ d) = section_header v @ d"
    by (intro strip_keep) (simp_all add: is_py_space_def section_header_def)
  then show ?thesis
    by (cases acc) (simp add: normalize_line_def Let_def startswith_def section_header_def)
qed

lemma normalize_note:
  assumes "note_ok n"
  shows "normalize_line (bullet n) (Some name, gr) = (Some name, dict_set gr name (notes_of gr name @ [n]))"
proof -
  have "rstrip (''- '' @ n) = ''- '' @ n"
    using assms by (intro rstrip_prefixed note_rstrip) (simp_all add: note_ok_def)
  then have "strip (''- '' @ n) = ''- '' @ n" by (intro strip_keep) (simp_all add: is_py_space_def)
  moreover have "strip n = n" using assms by (simp add: note_ok_def)
  ultimately show ?thesis by (simp add: normalize_line_def Let_def startswith_def notes_of_def bullet_def)
qed

lemma normalize_notes:
  "\<forall>n \<in> set ns. note_ok n \<Longrightarrow> \<exists>gr'. fold normalize_line (map bullet ns) (Some name, gr) = (Some name, gr')
     \<and> (\<forall>k. notes_of gr' k = (if k = name then notes_of gr name @ ns else notes_of gr k)
            \<and> (dict_get gr k \<noteq> None \<longrightarrow> dict_get gr' k \<noteq> None))"
proof (induction ns arbitrary: gr)
  case Nil
  then show ?case by simp
next
  case (Cons n ns)
  let ?gr = "dict_set gr name (notes_of gr name @ [n])"
  from Cons obtain gr' where "fold normalize_line (map bullet ns) (Some name, ?gr) = (Some name, gr')"
    "\<forall>k. notes_of gr' k = (if k = name then notes_of ?gr name @ ns else notes_of ?gr k)
       \<and> (dict_get ?gr k \<noteq> None \<longrightarrow> dict_get gr' k \<noteq> None)" by force
  moreover have "notes_of ?gr k = (if k = name then notes_of gr name @ [n] else notes_of gr k)
      \<and> (dict_get gr k \<noteq> None \<longrightarrow> dict_get ?gr k \<noteq> None)" for k
    by (simp add: notes_of_def dict_simps)
  ultimately show ?case using Cons.prems normalize_note [of n name gr] by simp
qed

lemma normalize_section:
  assumes "notes_ok g" "name \<in> set ordered_sections"
  shows "\<exists>cur' gr'. fold normalize_line (section_parts g name) (cur, gr) = (cur', gr')
     \<and> (\<forall>k. notes_of gr' k = (if k = name then notes_of gr name @ notes_of g name else notes_of gr k)
            \<and> (dict_get gr k \<noteq> None \<longrightarrow> dict_get gr' k \<noteq> None))"
proof (cases "notes_of g name = []")
  case True
  then show ?thesis by (simp add: section_parts_notes)
next
  case False
  from ordered_section_facts [OF assms(2)] have name: "rstrip name = name" "name \<noteq> []"
    "section_of_heading (lower (strip name)) = name" by auto
  have "rstrip (''### '' @ name) = ''### '' @ name" using name(1,2) by (rule rstrip_prefixed)
  then have "strip (''### '' @ name) = ''### '' @ name" by (intro strip_keep) (simp_all add: is_py_space_def)
  then have h: "normalize_line (''### '' @ name) (cur, gr) = (Some name, gr)"
    using name(3) by (simp add: normalize_line_def Let_def startswith_def removeprefix_def)
  from normalize_notes [of "notes_of g name" name gr] notes_of_ok [OF assms(1)] obtain gr' where
    "fold normalize_line (map bullet (notes_of g name)) (Some name, gr) = (Some name, gr')"
    "\<forall>k. notes_of gr' k = (if k = name then notes_of gr name @ notes_of g name else notes_of gr k)
       \<and> (dict_get gr k \<noteq> None \<longrightarrow> dict_get gr' k \<noteq> None)" by blast
  with False h show ?thesis by (auto simp: section_parts_notes normalize_blank)
qed

lemma normalize_sections:
  assumes "notes_ok g" "set names \<subseteq> set ordered_sections" "distinct names"
  shows "\<exists>cur' gr'. fold normalize_line (concat (map (section_parts g) names)) (cur, gr) = (cur', gr')
     \<and> (\<forall>k. notes_of gr' k = (if k \<in> set names then notes_of gr k @ notes_of g k else notes_of gr k)
            \<and> (dict_get gr k \<noteq> None \<longrightarrow> dict_get gr' k \<noteq> None))"
  using assms(2,3)
proof (induction names arbitrary: cur gr)
  case Nil
  then show ?case by simp
next
  case (Cons name names)
  from normalize_section [OF assms(1), of name cur gr] Cons.prems obtain cur1 gr1 where
    1: "fold normalize_line (section_parts g name) (cur, gr) = (cur1, gr1)"
    "\<forall>k. notes_of gr1 k = (if k = name then notes_of gr name @ notes_of g name else notes_of gr k)
       \<and> (dict_get gr k \<noteq> None \<longrightarrow> dict_get gr1 k \<noteq> None)" by auto
  from Cons obtain cur2 gr2 where
    2: "fold normalize_line (concat (map (section_parts g) names)) (cur1, gr1) = (cur2, gr2)"
    "\<forall>k. notes_of gr2 k = (if k \<in> set names then notes_of gr1 k @ notes_of g k else notes_of gr1 k)
       \<and> (dict_get gr1 k \<noteq> None \<longrightarrow> dict_get gr2 k \<noteq> None)" by force
  from 1 2 Cons.prems show ?case by auto
qed

section \<open>Tags\<close>

lemma previous_tag_loop_eq:
  "previous_tag_loop e ts prev = (let before = takeWhile (\<lambda>t. t \<noteq> e) ts in if before = [] then prev else Some (last before))"
  by (induction e ts prev rule: previous_tag_loop.induct) (auto simp: Let_def)

lemma takeWhile_sorted:
  fixes ts :: "string list"
  shows "sorted ts \<Longrightarrow> set (takeWhile (\<lambda>t. t \<noteq> e) ts) = (if e \<in> set ts then {t \<in> set ts. t < e} else set ts)"
proof (induction ts)
  case (Cons x ts)
  then show ?case by (auto simp: order.strict_iff_order)
qed simp

lemma last_sorted:
  fixes ts :: "string list"
  shows "sorted ts \<Longrightarrow> ts \<noteq> [] \<Longrightarrow> last ts = Max (set ts)"
proof (induction ts)
  case (Cons x ts)
  then show ?case by (cases "ts = []") (auto intro!: Max_eqI [symmetric] dest: Max_ge)
qed simp

section \<open>Properties\<close>

text \<open>
  C21. Updating a changelog and extracting from it are inverse: a section rendered for a new
  version, written into any changelog, is exactly the release body extracted for that version,
  the body of every other version is what it was, and the version cannot be added twice.
\<close>

theorem changelog_roundtrip:
  assumes "release_date_ok version date" "notes_ok grouped_notes"
    and "update_changelog existing version (render_release_section version date grouped_notes) = Inr updated"
  shows "extract_release_body updated version = Inr (render_release_section version date grouped_notes)
    \<and> (\<forall>v. no_space v \<longrightarrow> v \<noteq> version \<longrightarrow> extract_release_body updated v = extract_release_body existing v)
    \<and> update_changelog updated version other
        = Inl (ChangelogSectionExistsError (''Version '' @ version @ '' already exists in changelog''))"
proof -
  from assms(1,2) obtain s where s: "render_release_section version date grouped_notes = s @ [line_feed]"
    "section_text version s" by (rule render_section_text)
  from assms(3) [unfolded s(1)] s(2) obtain a b post pre u where
    u: "splitlines updated = a @ split_on line_feed s @ b" "\<forall>l \<in> set a. \<not> heading l"
    "splitlines existing = pre @ post" "\<forall>l \<in> set pre. \<not> heading l"
    "(b = [] \<and> post = []) \<or> (b = [] # post \<and> post \<noteq> [] \<and> heading (hd post))"
    "updated = u @ [line_feed]" "lf_text u" by (rule update_lines) blast
  have nil: "\<not> heading []" by (simp add: line_facts)
  have "extract_release_body updated version = Inr (s @ [line_feed])"
    unfolding extract_release_body_lines u(1) by (rule extract_section [OF s(2) u(2)]) (use u(5) in auto)
  moreover have "extract_release_body updated v = extract_release_body existing v"
    if "no_space v" "v \<noteq> version" for v
  proof -
    have "extract_lines v b = extract_lines v post"
      using u(5) not_heading_skip [of "[[]]" v post] nil by auto
    then show ?thesis
      unfolding extract_release_body_lines u(1,3) extract_other [OF s(2) u(2) that] not_heading_skip [OF u(4)] .
  qed
  moreover have "search_line_start (section_header version) updated"
  proof (rule search_line_start_lines)
    from s(2) obtain h t where "split_on line_feed s = h # t" "startswith h (section_header version)"
      by (rule section_split)
    moreover have "split_on line_feed u = splitlines updated" using splitlines_lf [OF u(7)] u(6) by simp
    ultimately show "\<exists>l \<in> set (split_on line_feed updated). startswith l (section_header version)"
      using u(1) by (simp add: u(6) split_on_sep)
  qed
  ultimately show ?thesis by (simp add: s(1) update_changelog_def)
qed

text \<open>
  Normalising a rendered section gives its notes back, section by section and in order,
  for notes that are single lines without white space around them.
\<close>

theorem release_notes_roundtrip:
  assumes "release_date_ok version date" "notes_ok grouped_notes" "name \<in> set ordered_sections"
  shows "dict_get (normalize_cliff_output (render_release_section version date grouped_notes)) name
    = Some (case dict_get grouped_notes name of None \<Rightarrow> [] | Some notes \<Rightarrow> notes)"
proof -
  from assms(1,2) obtain ls k where ls: "rendered_lines version date grouped_notes = ls @ replicate k []"
    "rstrip (join_with [line_feed] (rendered_lines version date grouped_notes)) = join_with [line_feed] ls"
    "split_on line_feed (join_with [line_feed] ls) = ls" "lf_text (join_with [line_feed] ls)" "ls \<noteq> []"
    by (rule rendered_body)
  have "splitlines (render_release_section version date grouped_notes) = ls"
    using ls(2-4) by (simp add: render_rendered_lines splitlines_lf)
  then have "fold normalize_line (splitlines (render_release_section version date grouped_notes)) (None, empty_notes)
      = fold normalize_line (rendered_lines version date grouped_notes) (None, empty_notes)"
    using ls(1) by (simp only: fold_append normalize_blanks comp_apply)
  also have "\<dots> = fold normalize_line (concat (map (section_parts grouped_notes) ordered_sections)) (None, empty_notes)"
    using assms(1) by (simp add: rendered_lines_def normalize_blank normalize_header)
  finally have fold: "normalize_cliff_output (render_release_section version date grouped_notes)
      = snd (fold normalize_line (concat (map (section_parts grouped_notes) ordered_sections)) (None, empty_notes))"
    by (simp add: normalize_cliff_output_def)
  have "distinct ordered_sections" by (simp add: ordered_sections_def)
  from normalize_sections [OF assms(2) subset_refl this, of None empty_notes] obtain cur gr where
    gr: "fold normalize_line (concat (map (section_parts grouped_notes) ordered_sections)) (None, empty_notes) = (cur, gr)"
    "\<forall>k. notes_of gr k = (if k \<in> set ordered_sections then notes_of empty_notes k @ notes_of grouped_notes k
        else notes_of empty_notes k) \<and> (dict_get empty_notes k \<noteq> None \<longrightarrow> dict_get gr k \<noteq> None)" by blast
  have "\<forall>name \<in> set ordered_sections. dict_get empty_notes name = Some []" by code_simp
  then have "notes_of gr name = notes_of grouped_notes name" "dict_get gr name \<noteq> None"
    using gr(2) assms(3) by (simp_all add: notes_of_def)
  then show ?thesis by (auto simp: fold gr(1) notes_of_def)
qed

text \<open>
  The previous tag of a component is the greatest of its tags, as text, below the tag of the
  version, or the greatest of all if that tag does not exist yet. Since text is not ordered like
  version numbers, the release after 0.9.0 finds no previous tag once its tag is there.
\<close>

theorem previous_tag_is_textual:
  "find_previous_component_tag component version tags =
    (let matching = {t \<in> set tags. startswith t (rc_tag_prefix component)};
         expected = rc_tag_prefix component @ version;
         below = (if expected \<in> matching then {t \<in> matching. t < expected} else matching)
     in if below = {} then None else Some (Max below))
   \<and> find_previous_component_tag (snd (hd release_components)) ''0.10.0'' [''android-v0.9.0'', ''android-v0.10.0''] = None"
proof
  let ?M = "list_matching_tags component tags"
  have M: "sorted ?M" "set ?M = {t \<in> set tags. startswith t (rc_tag_prefix component)}"
    by (simp_all add: list_matching_tags_def)
  let ?before = "takeWhile (\<lambda>t. t \<noteq> rc_tag_prefix component @ version) ?M"
  let ?below = "let matching = {t \<in> set tags. startswith t (rc_tag_prefix component)};
         expected = rc_tag_prefix component @ version
     in if expected \<in> matching then {t \<in> matching. t < expected} else matching"
  have "sorted ?before" using M(1) by (rule sorted_takeWhile)
  then have last: "?before \<noteq> [] \<Longrightarrow> last ?before = Max (set ?before)" by (rule last_sorted)
  have "find_previous_component_tag component version tags = (if ?before = [] then None else Some (last ?before))"
    by (simp add: find_previous_component_tag_def previous_tag_loop_eq Let_def)
  also have "\<dots> = (if set ?before = {} then None else Some (Max (set ?before)))"
    using last by (intro if_cong arg_cong [where f = Some]) (auto simp only: set_empty)
  also have "set ?before = ?below"
    unfolding takeWhile_sorted [OF M(1)] M(2) by (simp only: Let_def)
  finally show "find_previous_component_tag component version tags =
    (let matching = {t \<in> set tags. startswith t (rc_tag_prefix component)};
         expected = rc_tag_prefix component @ version;
         below = (if expected \<in> matching then {t \<in> matching. t < expected} else matching)
     in if below = {} then None else Some (Max below))" by (simp only: Let_def)
qed code_simp

section \<open>Examples\<close>

definition sample_notes :: "(string, string list) dict" where
  "sample_notes = [(''Fixes'', [''stop at the last event'', ''retry once'']), (''Features'', [''cancel tasks''])]"

definition sample_changelog :: string where
  "sample_changelog = ''# Changelog'' @ [line_feed, line_feed] @ ''## 0.1.0 - 2026-01-01'' @ [line_feed, line_feed]
     @ ''### Other'' @ [line_feed] @ ''- first release'' @ [line_feed]"

definition sample_updated :: string where
  "sample_updated = projr (update_changelog sample_changelog ''0.2.0''
     (render_release_section ''0.2.0'' ''2026-02-01'' sample_notes))"

lemma sample_release:
  "release_date_ok ''0.2.0'' ''2026-02-01''" "notes_ok sample_notes" "no_space ''0.1.0''"
  "update_changelog sample_changelog ''0.2.0'' (render_release_section ''0.2.0'' ''2026-02-01'' sample_notes)
     = Inr sample_updated"
  by code_simp+

theorem changelog_roundtrip_witness:
  "extract_release_body sample_updated ''0.2.0'' = Inr (render_release_section ''0.2.0'' ''2026-02-01'' sample_notes)
    \<and> extract_release_body sample_updated ''0.1.0'' = extract_release_body sample_changelog ''0.1.0''"
  using changelog_roundtrip [OF sample_release(1,2,4)] sample_release(3) by blast

theorem release_notes_roundtrip_witness:
  "dict_get (normalize_cliff_output (render_release_section ''0.2.0'' ''2026-02-01'' sample_notes)) ''Fixes''
    = Some [''stop at the last event'', ''retry once'']"
  using release_notes_roundtrip [OF sample_release(1,2), of "''Fixes''"]
  by (simp add: ordered_sections_def sample_notes_def dict_get_def)

end
