(* ===== verification/Protocol.thy ===== *)
theory Protocol
  imports JsonCodec WsSession "HOL-Library.Sublist"
begin

text \<open>
  The wire protocol: what \<open>protocol/schemas/task_event.schema.json\<close> asks of an event, as a
  predicate on JSON values, and the script \<open>protocol/validate_protocol.py\<close> that holds the
  examples of the protocol against it. The library \<open>jsonschema\<close> is the parameter \<open>iter_errors\<close>
  (and \<open>check_schema\<close>) of the script, YAML files come parsed.
\<close>

section \<open>The schema of an event\<close>

text \<open>
  A property that must be there, one that may be, and \<open>additionalProperties: false\<close>. The formats
  of the schema are annotations: they restrict nothing.
\<close>

definition required_property :: "jdict \<Rightarrow> string \<Rightarrow> (json \<Rightarrow> bool) \<Rightarrow> bool" where
  "required_property d k P \<longleftrightarrow> (case dict_get d k of None \<Rightarrow> False | Some v \<Rightarrow> P v)"

definition optional_property :: "jdict \<Rightarrow> string \<Rightarrow> (json \<Rightarrow> bool) \<Rightarrow> bool" where
  "optional_property d k P \<longleftrightarrow> (case dict_get d k of None \<Rightarrow> True | Some v \<Rightarrow> P v)"

definition only_properties :: "jdict \<Rightarrow> string list \<Rightarrow> bool" where
  "only_properties d ks \<longleftrightarrow> list_all (\<lambda>(k, _). k \<in> set ks) d"

fun is_string :: "json \<Rightarrow> bool" where
  "is_string (JStr _) = True"
| "is_string _ = False"

fun is_object :: "json \<Rightarrow> bool" where
  "is_object (JDict _) = True"
| "is_object _ = False"

fun is_boolean :: "json \<Rightarrow> bool" where
  "is_boolean (JBool _) = True"
| "is_boolean _ = False"

fun number_within :: "int option \<Rightarrow> int option \<Rightarrow> json \<Rightarrow> bool" where
  "number_within lo hi (JInt n) \<longleftrightarrow>
     (case lo of None \<Rightarrow> True | Some l \<Rightarrow> l \<le> n) \<and> (case hi of None \<Rightarrow> True | Some h \<Rightarrow> n \<le> h)"
| "number_within lo hi _ = False"

definition one_of :: "string list \<Rightarrow> json \<Rightarrow> bool" where
  "one_of values v \<longleftrightarrow> v \<in> set (map JStr values)"

fun nonempty_strings :: "json \<Rightarrow> bool" where
  "nonempty_strings (JList items) \<longleftrightarrow> items \<noteq> [] \<and> list_all is_string items"
| "nonempty_strings _ = False"

definition string_or_null :: "json \<Rightarrow> bool" where
  "string_or_null v \<longleftrightarrow> v = JNull \<or> is_string v"

text \<open>The payload of an event, by its type: the \<open>allOf\<close> of the schema, in its order.\<close>

fun payload_conforms :: "task_event_type \<Rightarrow> jdict \<Rightarrow> bool" where
  "payload_conforms TASK_SUSPENDED p \<longleftrightarrow>
     only_properties p [''suspendId'', ''kind'', ''reasonCode'', ''allowedActions'', ''schemaVersion'',
       ''expiresAt'', ''uiHints'', ''interaction'']
     \<and> required_property p ''suspendId'' is_string
     \<and> required_property p ''kind'' (one_of [''USER_ACTION_REQUIRED'', ''EXTERNAL_CONFIRMATION_PENDING'', ''SYSTEM_PAUSED''])
     \<and> required_property p ''reasonCode'' is_string
     \<and> required_property p ''allowedActions'' nonempty_strings
     \<and> required_property p ''schemaVersion'' (number_within (Some 1) None)
     \<and> optional_property p ''expiresAt'' string_or_null
     \<and> optional_property p ''uiHints'' is_object
     \<and> optional_property p ''interaction'' is_object"
| "payload_conforms TASK_ACTION_ACCEPTED p \<longleftrightarrow>
     only_properties p [''suspendId'', ''clientActionId'', ''actionType'', ''acceptedAt'', ''message'']
     \<and> required_property p ''suspendId'' is_string \<and> required_property p ''clientActionId'' is_string
     \<and> required_property p ''actionType'' is_string \<and> required_property p ''acceptedAt'' is_string
     \<and> optional_property p ''message'' is_string"
| "payload_conforms TASK_STARTED p \<longleftrightarrow>
     only_properties p [''message''] \<and> optional_property p ''message'' is_string"
| "payload_conforms TASK_PROGRESS p \<longleftrightarrow>
     only_properties p [''progress'', ''stage'', ''message'']
     \<and> required_property p ''progress'' (number_within (Some 0) (Some 100))
     \<and> optional_property p ''stage'' is_string \<and> optional_property p ''message'' is_string"
| "payload_conforms TASK_MESSAGE p \<longleftrightarrow>
     only_properties p [''message'', ''level''] \<and> required_property p ''message'' is_string
     \<and> optional_property p ''level'' (one_of [''info'', ''warning'', ''debug''])"
| "payload_conforms TASK_COMPLETED p \<longleftrightarrow> required_property p ''result'' (\<lambda>_. True)"
| "payload_conforms TASK_FAILED p \<longleftrightarrow>
     only_properties p [''code'', ''message'', ''retryable'']
     \<and> required_property p ''code'' is_string \<and> required_property p ''message'' is_string
     \<and> required_property p ''retryable'' is_boolean"
| "payload_conforms TASK_CANCELLED p \<longleftrightarrow>
     only_properties p [''reason'', ''message''] \<and> required_property p ''reason'' is_string
     \<and> optional_property p ''message'' is_string"

fun conforms_task_event :: "json \<Rightarrow> bool" where
  "conforms_task_event (JDict d) \<longleftrightarrow>
     only_properties d [''type'', ''taskId'', ''eventId'', ''createdAt'', ''payload'']
     \<and> required_property d ''taskId'' is_string \<and> required_property d ''eventId'' is_string
     \<and> required_property d ''createdAt'' is_string
     \<and> (case (dict_get d ''type'', dict_get d ''payload'') of
           (Some (JStr ty), Some (JDict p)) \<Rightarrow>
             (case event_type_of_value ty of None \<Rightarrow> False | Some t \<Rightarrow> payload_conforms t p)
         | _ \<Rightarrow> False)"
| "conforms_task_event _ \<longleftrightarrow> False"

lemmas schema_simps = required_property_def optional_property_def only_properties_def one_of_def
  string_or_null_def dict_simps

text \<open>The envelope the library writes is always right; what can go wrong is the payload.\<close>

lemma conforms_event_json:
  "conforms_task_event (event_json dump_time e) \<longleftrightarrow> payload_conforms (ev_type e) (ev_payload e)"
  by (simp add: event_json_def schema_simps dict_get_def event_type_of_value_value)

section \<open>Typed payloads\<close>

text \<open>
  The properties \<open>progress\<close> and \<open>failure\<close> of \<open>TaskEvent\<close> validate the payload as a model that
  forbids further members. Which values Pydantic takes for a float or a bool is the parameter
  \<open>lax_float\<close> or \<open>lax_bool\<close>; floats that are no integers are not modelled.
\<close>

record progress_payload =
  pp_progress :: int
  pp_stage :: "string option"
  pp_message :: "string option"

record failure_payload =
  fp_code :: string
  fp_message :: string
  fp_retryable :: bool

definition optional_text :: "jdict \<Rightarrow> string \<Rightarrow> string option option" where
  "optional_text p k =
     (case dict_get p k of
        None \<Rightarrow> Some None
      | Some JNull \<Rightarrow> Some None
      | Some (JStr s) \<Rightarrow> Some (Some s)
      | Some _ \<Rightarrow> None)"

definition validate_progress_payload :: "(json \<Rightarrow> int option) \<Rightarrow> jdict \<Rightarrow> exc + progress_payload" where
  "validate_progress_payload lax_float p =
     (let failed = Inl (ValueError ''validation error for TaskProgressPayload'') in
      if \<not> only_properties p [''progress'', ''stage'', ''message''] then failed
      else (case (map_option lax_float (dict_get p ''progress''), optional_text p ''stage'', optional_text p ''message'') of
              (Some (Some n), Some stage, Some message) \<Rightarrow>
                (if 0 \<le> n \<and> n \<le> 100
                 then Inr \<lparr>pp_progress = n, pp_stage = stage, pp_message = message\<rparr> else failed)
            | _ \<Rightarrow> failed))"

definition validate_failure_payload :: "(json \<Rightarrow> bool option) \<Rightarrow> jdict \<Rightarrow> exc + failure_payload" where
  "validate_failure_payload lax_bool p =
     (let failed = Inl (ValueError ''validation error for TaskFailedPayload'') in
      if \<not> only_properties p [''code'', ''message'', ''retryable''] then failed
      else (case (dict_get p ''code'', dict_get p ''message'', map_option lax_bool (dict_get p ''retryable'')) of
              (Some (JStr code), Some (JStr message), Some (Some retryable)) \<Rightarrow>
                Inr \<lparr>fp_code = code, fp_message = message, fp_retryable = retryable\<rparr>
            | _ \<Rightarrow> failed))"

definition event_progress :: "(json \<Rightarrow> int option) \<Rightarrow> task_event \<Rightarrow> exc + progress_payload option" where
  "event_progress lax_float e =
     (if ev_type e = TASK_PROGRESS
      then (case validate_progress_payload lax_float (ev_payload e) of Inl x \<Rightarrow> Inl x | Inr p \<Rightarrow> Inr (Some p))
      else Inr None)"

definition event_failure :: "(json \<Rightarrow> bool option) \<Rightarrow> task_event \<Rightarrow> exc + failure_payload option" where
  "event_failure lax_bool e =
     (if ev_type e = TASK_FAILED
      then (case validate_failure_payload lax_bool (ev_payload e) of Inl x \<Rightarrow> Inl x | Inr p \<Rightarrow> Inr (Some p))
      else Inr None)"

text \<open>A failure that lacks a member of the schema cannot be read as a typed payload.\<close>

lemma failure_needs_members:
  assumes "ev_type e = TASK_FAILED" "k \<in> {''code'', ''message'', ''retryable''}" "dict_get (ev_payload e) k = None"
  shows "event_failure lax_bool e = Inl (ValueError ''validation error for TaskFailedPayload'')"
  using assms by (auto simp: event_failure_def validate_failure_payload_def Let_def split: option.splits json.splits)

section \<open>The validation script\<close>

datatype protocol_error =
    AssertionError string
  | JSONDecodeError
  | MissingKey string
  | NotSubscriptable
  | SchemaError string

definition is_task_event_shape :: "jdict \<Rightarrow> bool" where
  "is_task_event_shape payload \<longleftrightarrow>
     list_all (\<lambda>k. dict_get payload k \<noteq> None) [''type'', ''taskId'', ''eventId'', ''createdAt'', ''payload'']"

definition iter_event_candidates :: "json \<Rightarrow> jdict list" where
  "iter_event_candidates document =
     (case document of
        JDict d \<Rightarrow>
          (if is_task_event_shape d then [d]
           else (case dict_get d ''events'' of
                   Some (JList events) \<Rightarrow> concat (map (\<lambda>e. case e of JDict event \<Rightarrow> [event] | _ \<Rightarrow> []) events)
                 | _ \<Rightarrow> []))
      | _ \<Rightarrow> [])"

text \<open>
  The loops over the candidates of a file and over the files, in the order of their names.
  \<open>report\<close> is the text of the sorted list of errors.
\<close>

fun validate_candidates ::
  "(json \<Rightarrow> 'e list) \<Rightarrow> ('e list \<Rightarrow> string) \<Rightarrow> string \<Rightarrow> jdict list \<Rightarrow> protocol_error + unit" where
  "validate_candidates iter_errors report name [] = Inr ()"
| "validate_candidates iter_errors report name (candidate # rest) =
     (if iter_errors (JDict candidate) \<noteq> []
      then Inl (AssertionError (name @ '' violates task_event schema: '' @ report (iter_errors (JDict candidate))))
      else validate_candidates iter_errors report name rest)"

fun validate_files ::
  "(json \<Rightarrow> 'e list) \<Rightarrow> ('e list \<Rightarrow> string) \<Rightarrow> (string \<times> string) list \<Rightarrow> protocol_error + unit" where
  "validate_files iter_errors report [] = Inr ()"
| "validate_files iter_errors report ((name, text) # files) =
     (case json_loads text of
        None \<Rightarrow> Inl JSONDecodeError
      | Some payload \<Rightarrow>
          (case validate_candidates iter_errors report name (iter_event_candidates payload) of
             Inl e \<Rightarrow> Inl e
           | Inr _ \<Rightarrow> validate_files iter_errors report files))"

definition validate_event_examples ::
  "(json \<Rightarrow> 'e list) \<Rightarrow> ('e list \<Rightarrow> string) \<Rightarrow> (string \<times> string) list \<Rightarrow> protocol_error + unit" where
  "validate_event_examples iter_errors report examples = validate_files iter_errors report (sort_key fst examples)"

text \<open>\<open>key in value\<close> and \<open>value[key]\<close> for a value that came from YAML.\<close>

definition py_in :: "string \<Rightarrow> json \<Rightarrow> protocol_error + bool" where
  "py_in key container =
     (case container of
        JDict d \<Rightarrow> Inr (dict_get d key \<noteq> None)
      | JList items \<Rightarrow> Inr (JStr key \<in> set items)
      | JStr s \<Rightarrow> Inr (sublist key s)
      | _ \<Rightarrow> Inl NotSubscriptable)"

definition subscript :: "json \<Rightarrow> string \<Rightarrow> protocol_error + json" where
  "subscript container key =
     (case container of
        JDict d \<Rightarrow> (case dict_get d key of None \<Rightarrow> Inl (MissingKey key) | Some v \<Rightarrow> Inr v)
      | _ \<Rightarrow> Inl NotSubscriptable)"

fun require_all :: "string \<Rightarrow> json \<Rightarrow> string list \<Rightarrow> protocol_error + unit" where
  "require_all complaint container [] = Inr ()"
| "require_all complaint container (key # keys) =
     (case py_in key container of
        Inl e \<Rightarrow> Inl e
      | Inr present \<Rightarrow>
          (if present then require_all complaint container keys else Inl (AssertionError (complaint @ key))))"

definition openapi_sections :: "string list" where
  "openapi_sections = [''openapi'', ''info'', ''paths'', ''components'']"

definition openapi_paths :: "string list" where
  "openapi_paths = [''/api/v1/tasks'', ''/api/v1/tasks/{taskId}/events'', ''/api/v1/tasks/{taskId}/actions'',
     ''/api/v1/tasks/{taskId}/cancel'', ''/api/v1/tasks/ws'']"

definition openapi_schemas :: "string list" where
  "openapi_schemas = [''TaskClientActionRequest'', ''TaskClientActionResponse'', ''TaskActionAcceptedPayload'']"

definition validate_openapi_shape :: "json \<Rightarrow> protocol_error + unit" where
  "validate_openapi_shape spec =
     (case require_all ''Missing OpenAPI section: '' spec openapi_sections of Inl e \<Rightarrow> Inl e | Inr _ \<Rightarrow>
     (case subscript spec ''paths'' of Inl e \<Rightarrow> Inl e | Inr paths \<Rightarrow>
     (case require_all ''Missing required path: '' paths openapi_paths of Inl e \<Rightarrow> Inl e | Inr _ \<Rightarrow>
     (case subscript spec ''components'' of Inl e \<Rightarrow> Inl e | Inr components \<Rightarrow>
     (case subscript components ''schemas'' of Inl e \<Rightarrow> Inl e | Inr schemas \<Rightarrow>
        require_all ''Missing OpenAPI schema: '' schemas openapi_schemas)))))"

fun validate_action_schemas_exist ::
  "(json \<Rightarrow> protocol_error + unit) \<Rightarrow> (string \<times> string option) list \<Rightarrow> protocol_error + unit" where
  "validate_action_schemas_exist check_schema [] = Inr ()"
| "validate_action_schemas_exist check_schema ((name, file) # files) =
     (case file of
        None \<Rightarrow> Inl (AssertionError (''Missing protocol schema: '' @ name))
      | Some text \<Rightarrow>
          (case json_loads text of
             None \<Rightarrow> Inl JSONDecodeError
           | Some schema \<Rightarrow>
               (case check_schema schema of
                  Inl e \<Rightarrow> Inl e
                | Inr _ \<Rightarrow> validate_action_schemas_exist check_schema files)))"

text \<open>The script as a whole, given the texts of its files; what it prints at the end.\<close>

definition validate_protocol_main ::
  "(json \<Rightarrow> 'e list) \<Rightarrow> ('e list \<Rightarrow> string) \<Rightarrow> (json \<Rightarrow> protocol_error + unit)
    \<Rightarrow> (string \<times> string) list \<Rightarrow> (string \<times> string option) list \<Rightarrow> json \<Rightarrow> protocol_error + string" where
  "validate_protocol_main iter_errors report check_schema examples schema_files spec =
     (case validate_event_examples iter_errors report examples of Inl e \<Rightarrow> Inl e | Inr _ \<Rightarrow>
     (case validate_action_schemas_exist check_schema schema_files of Inl e \<Rightarrow> Inl e | Inr _ \<Rightarrow>
     (case validate_openapi_shape spec of Inl e \<Rightarrow> Inl e | Inr _ \<Rightarrow> Inr ''Protocol validation passed'')))"

lemma validate_candidates_ok:
  "validate_candidates iter_errors report name cs = Inr () \<longleftrightarrow> (\<forall>c \<in> set cs. iter_errors (JDict c) = [])"
  by (induction cs) auto

lemma seq_ok: "(case x of Inl e \<Rightarrow> Inl e | Inr _ \<Rightarrow> k) = Inr () \<longleftrightarrow> x = Inr () \<and> k = Inr ()"
  by (cases x) auto

lemma validate_files_ok:
  "validate_files iter_errors report files = Inr () \<longleftrightarrow>
    (\<forall>(name, text) \<in> set files. \<exists>doc. json_loads text = Some doc
       \<and> (\<forall>c \<in> set (iter_event_candidates doc). iter_errors (JDict c) = []))"
  by (induction iter_errors report files rule: validate_files.induct)
    (auto simp: seq_ok validate_candidates_ok split: option.splits)

text \<open>
  The script passes only if every event in the examples satisfies the schema, but a document is
  only looked at when it has all five members of an event, or a list of events.
\<close>

lemma validate_event_examples_ok:
  "validate_event_examples iter_errors report examples = Inr () \<longleftrightarrow>
    (\<forall>(name, text) \<in> set examples. \<exists>doc. json_loads text = Some doc
       \<and> (\<forall>c \<in> set (iter_event_candidates doc). iter_errors (JDict c) = []))"
  by (simp add: validate_event_examples_def validate_files_ok)

lemma incomplete_example_is_skipped:
  assumes "dict_get d k = None" "k \<in> {''type'', ''taskId'', ''eventId'', ''createdAt'', ''payload''}"
    and "dict_get d ''events'' = None" "json_loads text = Some (JDict d)"
  shows "validate_event_examples iter_errors report [(name, text)] = Inr ()"
proof -
  have "\<not> is_task_event_shape d" using assms(1,2) by (auto simp: is_task_event_shape_def)
  with assms(3) have "iter_event_candidates (JDict d) = []" by (simp add: iter_event_candidates_def)
  with assms(4) show ?thesis by (simp add: validate_event_examples_ok)
qed

end
