(* ===== verification/TemporalAdapter.thy ===== *)
theory TemporalAdapter
  imports ActionService
begin

text \<open>
  The Temporal adapter (\<open>backend/adapters/temporal/taskbridge_temporal\<close>) and what the FastAPI
  host puts around it: \<open>task_handlers.py\<close>, the workflows of \<open>temporal_workflows.py\<close> and the
  resume service of \<open>temporal_resume_service.py\<close>. The Temporal server and its client are not
  part of the repository: what a call does is the function \<open>te_call\<close> of the environment, and
  the calls made are kept in order. Workflow code is a function of what its awaits give.
\<close>

section \<open>The client\<close>

text \<open>The payload of the signal \<open>action_submitted\<close>.\<close>

record action_submitted =
  sg_suspend_id :: string
  sg_client_action_id :: string
  sg_action_type :: string
  sg_payload :: jdict
  sg_metadata :: jdict

datatype temporal_call =
    StartWorkflow string jdict string string "int option"
  | SignalWorkflow string string "action_submitted option"
  | CancelWorkflow string

record temporal_env =
  te_connect :: "exc + unit"
  te_call :: "temporal_call \<Rightarrow> temporal_call list \<Rightarrow> exc + unit"

definition is_already_started :: "exc \<Rightarrow> bool" where
  "is_already_started e \<longleftrightarrow> e = OtherError ''WorkflowAlreadyStartedError''"

definition temporal_call_result ::
  "temporal_env \<Rightarrow> temporal_call \<Rightarrow> temporal_call list \<Rightarrow> (exc + unit) \<times> temporal_call list" where
  "temporal_call_result env c calls = (te_call env c calls, calls @ [c])"

section \<open>Configuration\<close>

definition default_workflow_input :: "task_record \<Rightarrow> jdict" where
  "default_workflow_input task = [
     (''task_id'', JStr (tr_task_id task)), (''task_type'', JStr (tr_task_type task)),
     (''input_payload'', JDict (tr_input_payload task)), (''metadata'', JDict (tr_metadata task)),
     (''owner_id'', JStr (tr_owner_id task))]"

record temporal_executor_config =
  tc_task_queue :: string
  tc_workflow :: string
  tc_workflow_id_prefix :: string
  tc_namespace :: "string option"
  tc_cancellation_mode :: string
  tc_start_timeout_seconds :: "int option"
  tc_workflow_input_mapper :: "task_record \<Rightarrow> jdict"

definition temporal_config :: "string \<Rightarrow> string \<Rightarrow> (task_record \<Rightarrow> jdict) \<Rightarrow> temporal_executor_config" where
  "temporal_config task_queue workflow mapper = \<lparr>tc_task_queue = task_queue, tc_workflow = workflow,
     tc_workflow_id_prefix = ''taskbridge'', tc_namespace = None, tc_cancellation_mode = ''cancel'',
     tc_start_timeout_seconds = None, tc_workflow_input_mapper = mapper\<rparr>"

definition workflow_id_for :: "temporal_executor_config \<Rightarrow> task_record \<Rightarrow> string" where
  "workflow_id_for cfg task = tc_workflow_id_prefix cfg @ '':'' @ tr_task_id task"

section \<open>The executor of the adapter\<close>

definition temporal_submit_task ::
  "temporal_executor_config \<Rightarrow> temporal_env \<Rightarrow> task_record \<Rightarrow> temporal_call list
    \<Rightarrow> (exc + unit) \<times> temporal_call list" where
  "temporal_submit_task cfg env task calls =
     (case temporal_call_result env
             (StartWorkflow (tc_workflow cfg) (tc_workflow_input_mapper cfg task) (workflow_id_for cfg task)
                (tc_task_queue cfg) (tc_start_timeout_seconds cfg)) calls of
        (Inl e, calls1) \<Rightarrow> (if is_already_started e then (Inr (), calls1) else (Inl e, calls1))
      | (Inr _, calls1) \<Rightarrow> (Inr (), calls1))"

definition temporal_request_cancellation ::
  "temporal_executor_config \<Rightarrow> temporal_env \<Rightarrow> task_record \<Rightarrow> temporal_call list
    \<Rightarrow> (exc + unit) \<times> temporal_call list" where
  "temporal_request_cancellation cfg env task calls =
     (case temporal_call_result env
             (if tc_cancellation_mode cfg = ''signal''
              then SignalWorkflow (workflow_id_for cfg task) ''request_cancel'' None
              else CancelWorkflow (workflow_id_for cfg task)) calls of
        (Inl e, calls1) \<Rightarrow> (if is_exception e then (Inr (), calls1) else (Inl e, calls1))
      | (Inr _, calls1) \<Rightarrow> (Inr (), calls1))"

section \<open>Workflow updates as events\<close>

definition event_type_for_kind :: "string \<Rightarrow> exc + task_event_type" where
  "event_type_for_kind kind =
     (let normalized = lower kind in
      if normalized = ''progress'' then Inr TASK_PROGRESS
      else if normalized = ''message'' then Inr TASK_MESSAGE
      else if normalized = ''completed'' then Inr TASK_COMPLETED
      else if normalized = ''failed'' then Inr TASK_FAILED
      else if normalized = ''cancelled'' then Inr TASK_CANCELLED
      else Inl (ValueError (''Unsupported Temporal update kind: '' @ kind)))"

definition map_temporal_update_to_task_event ::
  "datetime \<Rightarrow> string \<Rightarrow> string \<Rightarrow> string \<Rightarrow> jdict \<Rightarrow> datetime option \<Rightarrow> exc + task_event" where
  "map_temporal_update_to_task_event now task_id event_id kind payload created_at =
     (case event_type_for_kind kind of
        Inl e \<Rightarrow> Inl e
      | Inr t \<Rightarrow> Inr \<lparr>ev_type = t, ev_task_id = task_id, ev_event_id = event_id,
                    ev_created_at = (case created_at of None \<Rightarrow> now | Some c \<Rightarrow> c), ev_payload = payload\<rparr>)"

section \<open>Task handlers of the host\<close>

definition attachment_summary :: "task_attachment \<Rightarrow> json" where
  "attachment_summary a = JDict [(''filename'', JStr (at_filename a)),
     (''content_type'', JStr (at_content_type a)), (''size_bytes'', JInt (at_size_bytes a))]"

definition to_workflow_input :: "task_record \<Rightarrow> jdict" where
  "to_workflow_input task = [
     (''task_id'', JStr (tr_task_id task)), (''task_type'', JStr (tr_task_type task)),
     (''input_payload'', JDict (tr_input_payload task)), (''metadata'', JDict (tr_metadata task)),
     (''attachments'', JList (map attachment_summary (tr_attachments task))),
     (''owner_id'', JStr (tr_owner_id task))]"

definition workflow_name_for_task :: "task_record \<Rightarrow> string" where
  "workflow_name_for_task task = ''demo_task_workflow''"

definition progress_step :: "int \<Rightarrow> string \<Rightarrow> jdict" where
  "progress_step p m = [(''progress'', JInt p), (''message'', JStr m)]"

definition progress_steps_for_task_type :: "string \<Rightarrow> jdict list" where
  "progress_steps_for_task_type task_type =
     (if task_type = ''demo.image.analyze''
      then [progress_step 15 ''queued image metadata extraction'', progress_step 45 ''running image feature scan'',
            progress_step 80 ''building classification summary'']
      else if task_type = ''demo.fail''
      then [progress_step 25 ''workflow started'', progress_step 60 ''failing demo on purpose'']
      else [progress_step 20 ''workflow started'', progress_step 60 ''performing demo work'',
            progress_step 90 ''finalizing result''])"

section \<open>Workflows\<close>

text \<open>\<open>d.get(key)\<close> and \<open>d.get(key) or default\<close>.\<close>

definition get_or_null :: "jdict \<Rightarrow> string \<Rightarrow> json" where
  "get_or_null d k = (case dict_get d k of None \<Rightarrow> JNull | Some v \<Rightarrow> v)"

definition truthy :: "json \<Rightarrow> bool" where
  "truthy v \<longleftrightarrow> v \<notin> {JNull, JBool False, JInt 0, JStr [], JList [], JDict []}"

text \<open>The attachments are a list of dicts, as \<open>to_workflow_input\<close> writes them.\<close>

definition run_demo_task_activity :: "jdict \<Rightarrow> exc + jdict" where
  "run_demo_task_activity payload =
     (let task_type = (case dict_get payload ''task_type'' of None \<Rightarrow> JStr ''demo.success'' | Some v \<Rightarrow> v);
          input_payload = (if truthy (get_or_null payload ''input_payload'')
                           then get_or_null payload ''input_payload'' else JDict []);
          attachments = (if truthy (get_or_null payload ''attachments'')
                         then get_or_null payload ''attachments'' else JList [])
      in if task_type = JStr ''demo.fail''
         then Inl (RuntimeError ''Intentional failure for demo.fail scenario'')
         else if task_type = JStr ''demo.image.analyze''
         then (let first = (case attachments of JList (JDict d # _) \<Rightarrow> d | _ \<Rightarrow> [])
               in Inr [(''kind'', JStr ''image_analysis''), (''summary'', JStr ''demo-analysis-complete''),
                       (''attachment'', JDict [(''filename'', get_or_null first ''filename''),
                          (''content_type'', get_or_null first ''content_type''),
                          (''size_bytes'', get_or_null first ''size_bytes'')]),
                       (''labels'', JList [JStr ''sample'', JStr ''preview'', JStr ''non-production'']),
                       (''input_echo'', input_payload)])
         else Inr [(''kind'', JStr ''success''), (''echo'', input_payload),
                   (''details'', JDict [(''note'', JStr ''Completed by Temporal demo workflow'')])])"

text \<open>
  A workflow is what its run gives when its activity is the function \<open>activity\<close>; the enterprise
  workflow waits (\<open>None\<close>) until the signal handler has stored an action.
\<close>

definition demo_task_workflow :: "(jdict \<Rightarrow> exc + jdict) \<Rightarrow> jdict \<Rightarrow> exc + jdict" where
  "demo_task_workflow activity payload = activity payload"

definition enterprise_signal :: "action_submitted \<Rightarrow> action_submitted option \<Rightarrow> action_submitted option" where
  "enterprise_signal payload submitted = Some payload"

definition enterprise_document_workflow ::
  "(jdict \<Rightarrow> exc + jdict) \<Rightarrow> jdict \<Rightarrow> action_submitted option \<Rightarrow> exc + jdict option" where
  "enterprise_document_workflow activity payload submitted =
     (case activity (dict_set payload ''step'' (JStr ''initial_analysis'')) of
        Inl e \<Rightarrow> Inl e
      | Inr _ \<Rightarrow>
          (case submitted of
             None \<Rightarrow> Inr None
           | Some signal \<Rightarrow>
               (let action = sg_action_type signal
                in Inr (Some [(''status'', JStr ''processed''), (''human_decision'', JStr action),
                         (''final_note'', JStr (''Document was '' @ action @ '' by user''))]))))"

end
