(* ===== verification/TemporalExecutor.thy ===== *)
theory TemporalExecutor
  imports TemporalAdapter HostStores EventStores
begin

text \<open>
  \<open>StreamingTemporalExecutor\<close> of \<open>examples/fastapi-host/app/temporal_streaming_executor.py\<close>
  and \<open>TemporalTaskResumeService\<close>. The monitor of a task is a coroutine: a program counter per
  task, and \<open>monitor_step\<close> runs it from one suspension point (a sleep, or the result of the
  workflow) to the next, with what the await gave. A store call that is cancelled raises
  \<open>CancelledError\<close> like any other error of the store. \<open>str\<close> of a workflow result is the
  parameter \<open>sx_str\<close>.
\<close>

section \<open>State and configuration\<close>

datatype monitor_pc =
    MonBegin
  | MonSleep jdict "jdict list"
  | MonSuspend
  | MonResult

datatype wake = Woken json | Raised exc

record temporal_state =
  tp_connected :: bool
  tp_calls :: "temporal_call list"
  tp_event_seq :: nat
  tp_monitors :: "(string, task_record \<times> monitor_pc) dict"

record ('r, 'v, 'p) streaming_config =
  sx_registry :: "'r task_registry_ops"
  sx_event_store :: "'v event_store_ops"
  sx_put_suspension :: "(task_suspension_record \<Rightarrow> 'p \<Rightarrow> 'p) option"
  sx_task_queue :: string
  sx_str :: "json \<Rightarrow> string"

definition streaming_init :: temporal_state where
  "streaming_init = \<lparr>tp_connected = False, tp_calls = [], tp_event_seq = 0, tp_monitors = []\<rparr>"

type_synonym ('r, 'v, 'p, 'c) temporal_world = "('r, 'v, 'p, 'c, temporal_state) world"

definition on_temporal ::
  "(temporal_state \<Rightarrow> temporal_state) \<Rightarrow> ('r, 'v, 'p, 'c) temporal_world \<Rightarrow> ('r, 'v, 'p, 'c) temporal_world" where
  "on_temporal f w = w\<lparr>w_host := f (w_host w)\<rparr>"

definition on_calls ::
  "(temporal_call list \<Rightarrow> (exc + unit) \<times> temporal_call list)
    \<Rightarrow> ('r, 'v, 'p, 'c) temporal_world \<Rightarrow> (exc + unit) \<times> ('r, 'v, 'p, 'c) temporal_world" where
  "on_calls f w = (case f (tp_calls (w_host w)) of (r, calls) \<Rightarrow>
     (r, on_temporal (\<lambda>h. h\<lparr>tp_calls := calls\<rparr>) w))"

definition get_client ::
  "temporal_env \<Rightarrow> ('r, 'v, 'p, 'c) temporal_world \<Rightarrow> (exc + unit) \<times> ('r, 'v, 'p, 'c) temporal_world" where
  "get_client env w =
     (if tp_connected (w_host w) then (Inr (), w)
      else (case te_connect env of
              Inl e \<Rightarrow> (Inl e, w)
            | Inr _ \<Rightarrow> (Inr (), on_temporal (\<lambda>h. h\<lparr>tp_connected := True\<rparr>) w)))"

definition streaming_workflow_id :: "string \<Rightarrow> string" where
  "streaming_workflow_id task_id = ''taskbridge'' @ '':'' @ task_id"

section \<open>Submission and cancellation\<close>

definition streaming_append_event ::
  "('r, 'v, 'p) streaming_config \<Rightarrow> datetime \<Rightarrow> string \<Rightarrow> task_event_type \<Rightarrow> jdict
    \<Rightarrow> ('r, 'v, 'p, 'c) temporal_world \<Rightarrow> (exc + task_event) \<times> ('r, 'v, 'p, 'c) temporal_world" where
  "streaming_append_event cfg now task_id event_type payload w =
     (let n = Suc (tp_event_seq (w_host w));
          w1 = on_temporal (\<lambda>h. h\<lparr>tp_event_seq := n\<rparr>) w
      in on_events (es_append_event (sx_event_store cfg)
           \<lparr>ev_type = event_type, ev_task_id = task_id, ev_event_id = ''local-'' @ show_nat n,
            ev_created_at = now, ev_payload = payload\<rparr>) w1)"

definition streaming_status ::
  "('r, 'v, 'p) streaming_config \<Rightarrow> datetime \<Rightarrow> string \<Rightarrow> task_status
    \<Rightarrow> ('r, 'v, 'p, 'c) temporal_world \<Rightarrow> (exc + task_record) \<times> ('r, 'v, 'p, 'c) temporal_world" where
  "streaming_status cfg now task_id status = on_registry (reg_update_task_status (sx_registry cfg) now task_id status)"

definition set_monitor ::
  "task_record \<Rightarrow> monitor_pc \<Rightarrow> ('r, 'v, 'p, 'c) temporal_world \<Rightarrow> ('r, 'v, 'p, 'c) temporal_world" where
  "set_monitor task pc = on_temporal (\<lambda>h. h\<lparr>tp_monitors := dict_set (tp_monitors h) (tr_task_id task) (task, pc)\<rparr>)"

definition pop_monitor :: "string \<Rightarrow> ('r, 'v, 'p, 'c) temporal_world \<Rightarrow> ('r, 'v, 'p, 'c) temporal_world" where
  "pop_monitor tid = on_temporal (\<lambda>h. h\<lparr>tp_monitors := dict_del (tp_monitors h) tid\<rparr>)"

definition is_enterprise :: "task_record \<Rightarrow> bool" where
  "is_enterprise task \<longleftrightarrow> tr_task_type task = ''enterprise.document.review''"

definition streaming_submit_task ::
  "('r, 'v, 'p) streaming_config \<Rightarrow> temporal_env \<Rightarrow> datetime \<Rightarrow> task_record
    \<Rightarrow> ('r, 'v, 'p, 'c) temporal_world \<Rightarrow> (exc + unit) \<times> ('r, 'v, 'p, 'c) temporal_world" where
  "streaming_submit_task cfg env now task w =
     and_then (get_client env w)
       (\<lambda>_ w1. and_then (on_calls (temporal_submit_task
            (temporal_config (sx_task_queue cfg)
               (if is_enterprise task then ''enterprise_document_workflow'' else ''demo_task_workflow'')
               to_workflow_input) env task) w1)
       (\<lambda>_ w2. and_then (streaming_status cfg now (tr_task_id task) RUNNING w2)
       (\<lambda>_ w3. and_then (streaming_append_event cfg now (tr_task_id task) TASK_STARTED
                  [(''source'', JStr ''temporal''), (''taskType'', JStr (tr_task_type task))] w3)
       (\<lambda>_ w4. (Inr (), set_monitor task MonBegin w4)))))"

definition streaming_request_cancellation ::
  "('r, 'v, 'p) streaming_config \<Rightarrow> temporal_env \<Rightarrow> task_record
    \<Rightarrow> ('r, 'v, 'p, 'c) temporal_world \<Rightarrow> (exc + unit) \<times> ('r, 'v, 'p, 'c) temporal_world" where
  "streaming_request_cancellation cfg env task w =
     and_then (get_client env w)
       (\<lambda>_ w1. on_calls (temporal_request_cancellation
            (temporal_config (sx_task_queue cfg) ''dummy'' to_workflow_input) env task) w1)"

definition streaming_executor ::
  "('r, 'v, 'p) streaming_config \<Rightarrow> temporal_env \<Rightarrow> datetime \<Rightarrow> ('r, 'v, 'p, 'c, temporal_state) task_executor" where
  "streaming_executor cfg env now = \<lparr>ex_submit_task = streaming_submit_task cfg env now,
     ex_request_cancellation = streaming_request_cancellation cfg env\<rparr>"

text \<open>\<open>check_health\<close>: whether connecting and asking the server for its system info both work.\<close>

definition streaming_check_health ::
  "temporal_env \<Rightarrow> exc + unit \<Rightarrow> ('r, 'v, 'p, 'c) temporal_world \<Rightarrow> (exc + bool) \<times> ('r, 'v, 'p, 'c) temporal_world" where
  "streaming_check_health env system_info w =
     (case get_client env w of
        (Inl e, w1) \<Rightarrow> (if is_exception e then (Inr False, w1) else (Inl e, w1))
      | (Inr _, w1) \<Rightarrow>
          (case system_info of
             Inl e \<Rightarrow> (if is_exception e then (Inr False, w1) else (Inl e, w1))
           | Inr _ \<Rightarrow> (Inr True, w1)))"

section \<open>The monitor\<close>

definition monitor_next :: "task_record \<Rightarrow> jdict list \<Rightarrow> monitor_pc" where
  "monitor_next task steps =
     (case steps of
        s # ss \<Rightarrow> MonSleep s ss
      | [] \<Rightarrow> (if is_enterprise task then MonSuspend else MonResult))"

definition review_suspend_id :: "task_record \<Rightarrow> string" where
  "review_suspend_id task = ''review-'' @ tr_task_id task"

definition review_suspension :: "datetime \<Rightarrow> task_record \<Rightarrow> task_suspension_record" where
  "review_suspension now task = \<lparr>su_task_id = tr_task_id task, su_suspend_id = review_suspend_id task,
     su_owner_id = tr_owner_id task, su_status = SUS_OPEN, su_kind = USER_ACTION_REQUIRED,
     su_reason_code = ''manual_review'', su_allowed_actions = [''approve'', ''reject''], su_schema_version = 1,
     su_interaction_payload = [], su_ui_hints = [], su_resume_token = None, su_successful_action_id = None,
     su_resume_handoff_status = RH_NONE, su_created_at = now, su_expires_at = None, su_resolved_at = None\<rparr>"

definition suspended_payload :: "task_record \<Rightarrow> jdict" where
  "suspended_payload task = [
     (''suspendId'', JStr (review_suspend_id task)), (''kind'', JStr ''USER_ACTION_REQUIRED''),
     (''reasonCode'', JStr ''manual_review''), (''schemaVersion'', JInt 1),
     (''message'', JStr ''Manual review required: Document content looks suspicious.''),
     (''allowedActions'', JList [JStr ''approve'', JStr ''reject''])]"

definition completion_payload :: "(json \<Rightarrow> string) \<Rightarrow> json \<Rightarrow> jdict" where
  "completion_payload str result =
     [(''result'', result),
      (''message'', case result of
          JDict d \<Rightarrow> (case dict_get d ''final_note'' of Some note \<Rightarrow> note | None \<Rightarrow> JStr (str result))
        | _ \<Rightarrow> JStr (str result))]"

definition put_suspension ::
  "('r, 'v, 'p) streaming_config \<Rightarrow> task_suspension_record \<Rightarrow> ('r, 'v, 'p, 'c) temporal_world
    \<Rightarrow> ('r, 'v, 'p, 'c) temporal_world" where
  "put_suspension cfg r w =
     (case sx_put_suspension cfg of None \<Rightarrow> w | Some put \<Rightarrow> w\<lparr>w_suspensions := put r (w_suspensions w)\<rparr>)"

text \<open>The body of the \<open>try\<close>, from one suspension point to the next; \<open>None\<close> at its end.\<close>

fun monitor_body ::
  "('r, 'v, 'p) streaming_config \<Rightarrow> datetime \<Rightarrow> task_record \<Rightarrow> monitor_pc \<Rightarrow> wake
    \<Rightarrow> ('r, 'v, 'p, 'c) temporal_world \<Rightarrow> (exc + monitor_pc option) \<times> ('r, 'v, 'p, 'c) temporal_world" where
  "monitor_body cfg now task pc (Raised e) w = (Inl e, w)"
| "monitor_body cfg now task MonBegin (Woken _) w =
     (Inr (Some (monitor_next task (progress_steps_for_task_type (tr_task_type task)))), w)"
| "monitor_body cfg now task (MonSleep s ss) (Woken _) w =
     and_then (streaming_append_event cfg now (tr_task_id task) TASK_PROGRESS s w)
       (\<lambda>_ w1. (Inr (Some (monitor_next task ss)), w1))"
| "monitor_body cfg now task MonSuspend (Woken _) w =
     and_then (streaming_append_event cfg now (tr_task_id task) TASK_SUSPENDED (suspended_payload task)
                 (put_suspension cfg (review_suspension now task) w))
       (\<lambda>_ w1. (Inr (Some MonResult), w1))"
| "monitor_body cfg now task MonResult (Woken result) w =
     and_then (streaming_status cfg now (tr_task_id task) COMPLETED w)
       (\<lambda>_ w1. and_then (streaming_append_event cfg now (tr_task_id task) TASK_COMPLETED
                           (completion_payload (sx_str cfg) result) w1)
       (\<lambda>_ w2. (Inr None, w2)))"

text \<open>The \<open>except\<close> clauses; what they raise in turn ends the coroutine as well.\<close>

definition monitor_except ::
  "('r, 'v, 'p) streaming_config \<Rightarrow> datetime \<Rightarrow> task_record \<Rightarrow> exc
    \<Rightarrow> ('r, 'v, 'p, 'c) temporal_world \<Rightarrow> (exc + unit) \<times> ('r, 'v, 'p, 'c) temporal_world" where
  "monitor_except cfg now task e w =
     (if e = CancelledError
      then and_then (streaming_status cfg now (tr_task_id task) CANCELLED w)
             (\<lambda>_ w1. and_then (streaming_append_event cfg now (tr_task_id task) TASK_CANCELLED
                                 [(''reason'', JStr ''monitor_cancelled'')] w1)
             (\<lambda>_ w2. (Inl e, w2)))
      else and_then (streaming_status cfg now (tr_task_id task) FAILED w)
             (\<lambda>_ w1. and_then (streaming_append_event cfg now (tr_task_id task) TASK_FAILED
                                 [(''message'', JStr (error_message e))] w1)
             (\<lambda>_ w2. (Inr (), w2))))"

text \<open>
  One step of the event loop. A coroutine cancelled before it first ran never enters its
  \<open>try\<close>; otherwise \<open>finally\<close> drops the monitor when the coroutine ends.
\<close>

definition monitor_step ::
  "('r, 'v, 'p) streaming_config \<Rightarrow> datetime \<Rightarrow> string \<Rightarrow> wake
    \<Rightarrow> ('r, 'v, 'p, 'c) temporal_world \<Rightarrow> ('r, 'v, 'p, 'c) temporal_world" where
  "monitor_step cfg now tid wake w =
     (case dict_get (tp_monitors (w_host w)) tid of
        None \<Rightarrow> w
      | Some (task, pc) \<Rightarrow>
          (case monitor_body cfg now task pc wake w of
             (Inr (Some pc'), w1) \<Rightarrow> set_monitor task pc' w1
           | (Inr None, w1) \<Rightarrow> pop_monitor tid w1
           | (Inl e, w1) \<Rightarrow>
               (if pc = MonBegin then pop_monitor tid w1
                else pop_monitor tid (snd (monitor_except cfg now task e w1)))))"

fun monitor_run ::
  "('r, 'v, 'p) streaming_config \<Rightarrow> string \<Rightarrow> (datetime \<times> wake) list
    \<Rightarrow> ('r, 'v, 'p, 'c) temporal_world \<Rightarrow> ('r, 'v, 'p, 'c) temporal_world" where
  "monitor_run cfg tid [] w = w"
| "monitor_run cfg tid ((now, wake) # inputs) w = monitor_run cfg tid inputs (monitor_step cfg now tid wake w)"

section \<open>Resuming a workflow\<close>

definition action_signal :: "submit_action_command \<Rightarrow> action_submitted" where
  "action_signal command = \<lparr>sg_suspend_id = sc_suspend_id command,
     sg_client_action_id = sc_client_action_id command, sg_action_type = sc_action_type command,
     sg_payload = sc_payload command, sg_metadata = sc_metadata command\<rparr>"

definition temporal_resume_task ::
  "temporal_env \<Rightarrow> submit_action_command \<Rightarrow> task_suspension_record
    \<Rightarrow> ('r, 'v, 'p, 'c) temporal_world \<Rightarrow> (exc + unit) \<times> ('r, 'v, 'p, 'c) temporal_world" where
  "temporal_resume_task env command suspension w =
     and_then (get_client env w)
       (\<lambda>_ w1. on_calls (temporal_call_result env
            (SignalWorkflow (streaming_workflow_id (sc_task_id command)) ''action_submitted''
               (Some (action_signal command)))) w1)"

end
