(* ===== verification/TemporalProperties.thy ===== *)
theory TemporalProperties
  imports TemporalExecutor ActionInterleaving
begin

text \<open>
  Properties of the Temporal executor of the host: the trace of a monitored task and its status
  in every interleaving, the end of the monitor, what becomes of a cancelled workflow, and the
  way of a review action through the suspension, the signal and the workflow to the completion
  event. The registry is the demo registry; the event store is the append-only demo store,
  whose list is the sequence of events appended.
\<close>

type_synonym ('p, 'c) host_world = "(task_dict, event_list, 'p, 'c) temporal_world"

type_synonym 'p host_config = "(task_dict, event_list, 'p) streaming_config"

definition demo_stores :: "'p host_config \<Rightarrow> bool" where
  "demo_stores cfg \<longleftrightarrow> sx_registry cfg = demo_registry \<and> sx_event_store cfg = demo_event_store"

section \<open>Effects of the parts\<close>

text \<open>
  The types of a task's events, without the \<open>TASK_ACTION_ACCEPTED\<close> that the action service adds.
\<close>

definition event_types_of :: "('p, 'c) host_world \<Rightarrow> string \<Rightarrow> task_event_type list" where
  "event_types_of w tid =
     filter (\<lambda>t. t \<noteq> TASK_ACTION_ACCEPTED) (map ev_type (task_events (w_events w) tid))"

definition status_of :: "('p, 'c) host_world \<Rightarrow> string \<Rightarrow> task_status option" where
  "status_of w tid = map_option tr_status (dict_get (w_registry w) tid)"

definition monitor_of :: "('p, 'c) host_world \<Rightarrow> string \<Rightarrow> (task_record \<times> monitor_pc) option" where
  "monitor_of w tid = dict_get (tp_monitors (w_host w)) tid"

lemmas view_defs = event_types_of_def status_of_def monitor_of_def

lemma view_set_monitor [simp]:
  "event_types_of (set_monitor task pc w) tid = event_types_of w tid"
  "status_of (set_monitor task pc w) tid = status_of w tid"
  "monitor_of (set_monitor task pc w) tid = (if tid = tr_task_id task then Some (task, pc) else monitor_of w tid)"
  "w_events (set_monitor task pc w) = w_events w"
  by (simp_all add: view_defs set_monitor_def on_temporal_def dict_simps)

lemma view_pop_monitor [simp]:
  "event_types_of (pop_monitor k w) tid = event_types_of w tid"
  "status_of (pop_monitor k w) tid = status_of w tid"
  "monitor_of (pop_monitor k w) tid = (if tid = k then None else monitor_of w tid)"
  "w_events (pop_monitor k w) = w_events w"
  by (simp_all add: view_defs pop_monitor_def on_temporal_def dict_simps)

lemma view_put_suspension [simp]:
  "event_types_of (put_suspension cfg r w) tid = event_types_of w tid"
  "status_of (put_suspension cfg r w) tid = status_of w tid"
  "monitor_of (put_suspension cfg r w) tid = monitor_of w tid"
  by (simp_all add: view_defs put_suspension_def split: option.splits)

lemma monitor_types:
  "TASK_PROGRESS \<noteq> TASK_ACTION_ACCEPTED" "TASK_SUSPENDED \<noteq> TASK_ACTION_ACCEPTED"
  "TASK_COMPLETED \<noteq> TASK_ACTION_ACCEPTED" "TASK_STARTED \<noteq> TASK_ACTION_ACCEPTED"
  "(if b then TASK_CANCELLED else TASK_FAILED) \<noteq> TASK_ACTION_ACCEPTED"
  by simp_all

lemma append_effect:
  assumes "demo_stores cfg" "ty \<noteq> TASK_ACTION_ACCEPTED"
  obtains e w' where "streaming_append_event cfg now tid ty payload w = (Inr e, w')"
    "event_types_of w' tid = event_types_of w tid @ [ty]"
    "status_of w' tid' = status_of w tid'" "monitor_of w' tid' = monitor_of w tid'"
    "w_events w' = w_events w @ [e]" "ev_type e = ty" "ev_task_id e = tid" "ev_payload e = payload"
proof -
  define e where "e = \<lparr>ev_type = ty, ev_task_id = tid,
    ev_event_id = ''local-'' @ show_nat (Suc (tp_event_seq (w_host w))), ev_created_at = now, ev_payload = payload\<rparr>"
  define w' where "w' = (on_temporal (\<lambda>h. h\<lparr>tp_event_seq := Suc (tp_event_seq (w_host w))\<rparr>) w)\<lparr>w_events := w_events w @ [e]\<rparr>"
  have "streaming_append_event cfg now tid ty payload w = (Inr e, w')"
    using assms by (simp add: streaming_append_event_def demo_stores_def demo_event_store_def demo_append_event_def
        on_events_def e_def w'_def on_temporal_def Let_def)
  then show thesis
    by (rule that) (use assms(2) in \<open>simp_all add: w'_def view_defs on_temporal_def task_events_append e_def\<close>)
qed

lemma status_effect:
  assumes "demo_stores cfg" "status_of w tid \<noteq> None"
  obtains t w' where "streaming_status cfg now tid st w = (Inr t, w')"
    "event_types_of w' tid = event_types_of w tid" "status_of w' tid = Some st"
    "monitor_of w' tid = monitor_of w tid" "w_events w' = w_events w"
proof -
  from assms(2) obtain t where t: "dict_get (w_registry w) tid = Some t" by (auto simp: status_of_def)
  define t' where "t' = t\<lparr>tr_status := st\<rparr>"
  define w' where "w' = w\<lparr>w_registry := dict_set (w_registry w) tid t'\<rparr>"
  have "streaming_status cfg now tid st w = (Inr t', w')"
    using assms(1) t by (simp add: streaming_status_def demo_stores_def demo_registry_def
        demo_update_task_status_def on_registry_def Let_def t'_def w'_def)
  then show thesis
    by (rule that) (simp_all add: w'_def view_defs dict_simps t'_def)
qed

section \<open>Reachable worlds\<close>

text \<open>
  What else may happen: anything that leaves the task's events, status and monitor alone (a
  cancellation request, an action, other tasks and their monitors).
\<close>

definition other_activity :: "string \<Rightarrow> ('p, 'c) host_world \<Rightarrow> ('p, 'c) host_world \<Rightarrow> bool" where
  "other_activity tid w w' \<longleftrightarrow> event_types_of w' tid = event_types_of w tid
     \<and> status_of w' tid = status_of w tid \<and> monitor_of w' tid = monitor_of w tid"

inductive monitored :: "'p host_config \<Rightarrow> temporal_env \<Rightarrow> task_record \<Rightarrow> ('p, 'c) host_world \<Rightarrow> bool"
  for cfg env task where
  submitted: "streaming_submit_task cfg env now task w = (Inr (), w') \<Longrightarrow>
      status_of w (tr_task_id task) \<noteq> None \<Longrightarrow> event_types_of w (tr_task_id task) = [] \<Longrightarrow>
      monitored cfg env task w'"
| woken: "monitored cfg env task w \<Longrightarrow> monitored cfg env task (monitor_step cfg now (tr_task_id task) wake w)"
| other: "monitored cfg env task w \<Longrightarrow> other_activity (tr_task_id task) w w' \<Longrightarrow> monitored cfg env task w'"

section \<open>The trace\<close>

definition step_count :: "task_record \<Rightarrow> nat" where
  "step_count task = length (progress_steps_for_task_type (tr_task_type task))"

fun end_events :: "task_status \<Rightarrow> task_event_type list" where
  "end_events COMPLETED = [TASK_COMPLETED]"
| "end_events FAILED = [TASK_FAILED]"
| "end_events CANCELLED = [TASK_CANCELLED]"
| "end_events _ = []"

definition trace_ok :: "task_record \<Rightarrow> task_status \<Rightarrow> task_event_type list \<Rightarrow> bool" where
  "trace_ok task st types \<longleftrightarrow> st \<noteq> ACCEPTED \<and>
     (\<exists>k suspended. types = TASK_STARTED # replicate k TASK_PROGRESS
            @ (if suspended then [TASK_SUSPENDED] else []) @ end_events st
        \<and> k \<le> step_count task
        \<and> (suspended \<longrightarrow> is_enterprise task \<and> k = step_count task)
        \<and> (st = COMPLETED \<longrightarrow> k = step_count task \<and> suspended = is_enterprise task))"

fun pc_trace :: "task_record \<Rightarrow> monitor_pc \<Rightarrow> task_event_type list \<Rightarrow> bool" where
  "pc_trace task MonBegin types = (types = [TASK_STARTED])"
| "pc_trace task (MonSleep s ss) types =
     (length ss < step_count task
      \<and> types = TASK_STARTED # replicate (step_count task - Suc (length ss)) TASK_PROGRESS)"
| "pc_trace task MonSuspend types =
     (is_enterprise task \<and> types = TASK_STARTED # replicate (step_count task) TASK_PROGRESS)"
| "pc_trace task MonResult types =
     (types = TASK_STARTED # replicate (step_count task) TASK_PROGRESS
        @ (if is_enterprise task then [TASK_SUSPENDED] else []))"

definition monitor_inv :: "task_record \<Rightarrow> ('p, 'c) host_world \<Rightarrow> bool" where
  "monitor_inv task w \<longleftrightarrow> (\<exists>st. status_of w (tr_task_id task) = Some st
     \<and> (case monitor_of w (tr_task_id task) of
          Some (task', pc) \<Rightarrow> task' = task \<and> st = RUNNING \<and> pc_trace task pc (event_types_of w (tr_task_id task))
        | None \<Rightarrow> trace_ok task st (event_types_of w (tr_task_id task))
            \<and> (st = RUNNING \<longrightarrow> event_types_of w (tr_task_id task) = [TASK_STARTED])))"

text \<open>The trace at a program counter, and what the next terminal event makes of it.\<close>

lemma pc_trace_ok: "pc_trace task pc types \<Longrightarrow> trace_ok task RUNNING types"
proof -
  assume t: "pc_trace task pc types"
  have "\<exists>k s. types = TASK_STARTED # replicate k TASK_PROGRESS @ (if s then [TASK_SUSPENDED] else [])
      \<and> k \<le> step_count task \<and> (s \<longrightarrow> is_enterprise task \<and> k = step_count task)"
  proof (cases pc)
    case MonBegin
    with t show ?thesis by (intro exI [of _ 0] exI [of _ False]) simp
  next
    case (MonSleep a as)
    with t show ?thesis by (intro exI [of _ "step_count task - Suc (length as)"] exI [of _ False]) simp
  next
    case MonSuspend
    with t show ?thesis by (intro exI [of _ "step_count task"] exI [of _ False]) simp
  next
    case MonResult
    with t show ?thesis by (intro exI [of _ "step_count task"] exI [of _ "is_enterprise task"]) simp
  qed
  then show ?thesis unfolding trace_ok_def by auto
qed

lemma pc_trace_end:
  assumes "pc_trace task pc types" "st \<in> {FAILED, CANCELLED}"
  shows "trace_ok task st (types @ end_events st)"
proof -
  from pc_trace_ok [OF assms(1)] obtain k s where k: "types = TASK_STARTED # replicate k TASK_PROGRESS
      @ (if s then [TASK_SUSPENDED] else [])" "k \<le> step_count task"
    "s \<longrightarrow> is_enterprise task \<and> k = step_count task" by (auto simp: trace_ok_def)
  then show ?thesis using assms(2) unfolding trace_ok_def by (intro conjI exI [of _ k] exI [of _ s]) auto
qed

lemma pc_trace_completed:
  "pc_trace task MonResult types \<Longrightarrow> trace_ok task COMPLETED (types @ [TASK_COMPLETED])"
  unfolding trace_ok_def by (intro conjI exI [of _ "step_count task"] exI [of _ "is_enterprise task"]) auto

lemma pc_trace_next:
  assumes "types = TASK_STARTED # replicate (step_count task - length steps) TASK_PROGRESS"
    and "length steps \<le> step_count task"
    and "is_enterprise task \<Longrightarrow> steps = [] \<Longrightarrow> True"
  shows "pc_trace task (monitor_next task steps) types"
  using assms by (cases steps) (auto simp: monitor_next_def)

lemma step_count_pos: "0 < step_count task" "step_count task \<le> 3"
  by (simp_all add: step_count_def progress_steps_for_task_type_def)

section \<open>The invariant\<close>

lemma monitor_except_effect:
  assumes "demo_stores cfg" "status_of w (tr_task_id task) \<noteq> None"
  obtains r w' where "monitor_except cfg now task e w = (r, w')"
    "status_of w' (tr_task_id task) = Some (if e = CancelledError then CANCELLED else FAILED)"
    "event_types_of w' (tr_task_id task) = event_types_of w (tr_task_id task)
       @ end_events (if e = CancelledError then CANCELLED else FAILED)"
    "\<exists>ev. w_events w' = w_events w @ [ev] \<and> ev_task_id ev = tr_task_id task
       \<and> [ev_type ev] = end_events (if e = CancelledError then CANCELLED else FAILED)
       \<and> ev_payload ev = (if e = CancelledError then [(''reason'', JStr ''monitor_cancelled'')]
                          else [(''message'', JStr (error_message e))])"
proof -
  let ?st = "if e = CancelledError then CANCELLED else FAILED"
  let ?ty = "if e = CancelledError then TASK_CANCELLED else TASK_FAILED"
  let ?p = "if e = CancelledError then [(''reason'', JStr ''monitor_cancelled'')] else [(''message'', JStr (error_message e))]"
  from assms obtain t w1 where 1: "streaming_status cfg now (tr_task_id task) ?st w = (Inr t, w1)"
    "event_types_of w1 (tr_task_id task) = event_types_of w (tr_task_id task)"
    "status_of w1 (tr_task_id task) = Some ?st" "monitor_of w1 (tr_task_id task) = monitor_of w (tr_task_id task)"
    "w_events w1 = w_events w" by (rule status_effect)
  from assms(1) monitor_types(5) obtain ev w2 where 2: "streaming_append_event cfg now (tr_task_id task) ?ty ?p w1 = (Inr ev, w2)"
    "event_types_of w2 (tr_task_id task) = event_types_of w1 (tr_task_id task) @ [?ty]"
    "status_of w2 (tr_task_id task) = status_of w1 (tr_task_id task)"
    "monitor_of w2 (tr_task_id task) = monitor_of w1 (tr_task_id task)"
    "w_events w2 = w_events w1 @ [ev]" "ev_type ev = ?ty" "ev_task_id ev = tr_task_id task" "ev_payload ev = ?p"
    by (rule append_effect)
  have "monitor_except cfg now task e w = (if e = CancelledError then Inl e else Inr (), w2)"
    using 1(1) 2(1) by (cases "e = CancelledError") (simp_all add: monitor_except_def)
  then show thesis
    by (rule that) (use 1 2 in auto)
qed

lemma monitor_inv_step:
  assumes cfg: "demo_stores cfg" and inv: "monitor_inv task w"
  shows "monitor_inv task (monitor_step cfg now (tr_task_id task) wake w)"
proof (cases "monitor_of w (tr_task_id task)")
  case None
  then show ?thesis using inv by (simp add: monitor_step_def monitor_of_def [symmetric])
next
  case (Some m)
  let ?tid = "tr_task_id task"
  obtain pc where m: "m = (task, pc)" and st: "status_of w ?tid = Some RUNNING"
    and tr: "pc_trace task pc (event_types_of w ?tid)"
    using inv Some by (auto simp: monitor_inv_def)
  have step: "monitor_step cfg now ?tid wake w =
      (case monitor_body cfg now task pc wake w of
         (Inr (Some pc'), w1) \<Rightarrow> set_monitor task pc' w1
       | (Inr None, w1) \<Rightarrow> pop_monitor ?tid w1
       | (Inl e, w1) \<Rightarrow> (if pc = MonBegin then pop_monitor ?tid w1
                        else pop_monitor ?tid (snd (monitor_except cfg now task e w1))))"
    using Some m by (simp add: monitor_step_def monitor_of_def)
  show ?thesis
  proof (cases wake)
    case (Raised e)
    show ?thesis
    proof (cases "pc = MonBegin")
      case True
      then show ?thesis
        using step Raised tr st pc_trace_ok [OF tr] by (simp add: monitor_inv_def)
    next
      case False
      from cfg st obtain r w' where x: "monitor_except cfg now task e w = (r, w')"
        "status_of w' ?tid = Some (if e = CancelledError then CANCELLED else FAILED)"
        "event_types_of w' ?tid = event_types_of w ?tid @ end_events (if e = CancelledError then CANCELLED else FAILED)"
        using monitor_except_effect [of cfg w task now e] by (metis option.distinct(1))
      then show ?thesis
        using step Raised False pc_trace_end [OF tr] by (auto simp: monitor_inv_def)
    qed
  next
    case (Woken v)
    show ?thesis
    proof (cases pc)
      case MonBegin
      have "pc_trace task (monitor_next task (progress_steps_for_task_type (tr_task_type task))) (event_types_of w ?tid)"
        by (rule pc_trace_next) (use tr MonBegin in \<open>simp_all add: step_count_def\<close>)
      then show ?thesis using step Woken MonBegin st by (simp add: monitor_inv_def)
    next
      case (MonSleep s ss)
      from cfg monitor_types(1) obtain ev w' where a: "streaming_append_event cfg now ?tid TASK_PROGRESS s w = (Inr ev, w')"
        "event_types_of w' ?tid = event_types_of w ?tid @ [TASK_PROGRESS]"
        "status_of w' ?tid = status_of w ?tid" by (rule append_effect [where tid' = ?tid])
      have "pc_trace task (monitor_next task ss) (event_types_of w' ?tid)"
      proof (rule pc_trace_next)
        have "step_count task - length ss = Suc (step_count task - Suc (length ss))"
          using tr MonSleep by auto
        then show "event_types_of w' ?tid = TASK_STARTED # replicate (step_count task - length ss) TASK_PROGRESS"
          using tr MonSleep a(2) by (simp add: replicate_append_same)
      qed (use tr MonSleep in simp_all)
      then show ?thesis using step Woken MonSleep a st by (simp add: monitor_inv_def)
    next
      case MonSuspend
      from cfg monitor_types(2) obtain ev w' where a: "streaming_append_event cfg now ?tid TASK_SUSPENDED (suspended_payload task)
          (put_suspension cfg (review_suspension now task) w) = (Inr ev, w')"
        "event_types_of w' ?tid = event_types_of (put_suspension cfg (review_suspension now task) w) ?tid @ [TASK_SUSPENDED]"
        "status_of w' ?tid = status_of (put_suspension cfg (review_suspension now task) w) ?tid"
        by (rule append_effect [where tid' = ?tid])
      then show ?thesis using step Woken MonSuspend st tr by (simp add: monitor_inv_def)
    next
      case MonResult
      have "status_of w ?tid \<noteq> None" using st by simp
      with cfg obtain t w1 where 1: "streaming_status cfg now ?tid COMPLETED w = (Inr t, w1)"
        "event_types_of w1 ?tid = event_types_of w ?tid" "status_of w1 ?tid = Some COMPLETED"
        by (rule status_effect)
      from cfg monitor_types(3) obtain ev w2 where 2: "streaming_append_event cfg now ?tid TASK_COMPLETED
          (completion_payload (sx_str cfg) v) w1 = (Inr ev, w2)"
        "event_types_of w2 ?tid = event_types_of w1 ?tid @ [TASK_COMPLETED]"
        "status_of w2 ?tid = status_of w1 ?tid" by (rule append_effect [where tid' = ?tid])
      then show ?thesis
        using step Woken MonResult 1 pc_trace_completed [OF tr [unfolded MonResult]] by (simp add: monitor_inv_def)
    qed
  qed
qed

lemma submit_effect:
  assumes "demo_stores cfg" "streaming_submit_task cfg env now task w = (Inr (), w')"
    and "status_of w (tr_task_id task) \<noteq> None"
  shows "event_types_of w' (tr_task_id task) = event_types_of w (tr_task_id task) @ [TASK_STARTED]
    \<and> status_of w' (tr_task_id task) = Some RUNNING \<and> monitor_of w' (tr_task_id task) = Some (task, MonBegin)"
proof -
  let ?tid = "tr_task_id task"
  from assms(2) obtain w1 w2 t w3 ev w4 where s: "get_client env w = (Inr (), w1)"
    "on_calls (temporal_submit_task (temporal_config (sx_task_queue cfg)
        (if is_enterprise task then ''enterprise_document_workflow'' else ''demo_task_workflow'')
        to_workflow_input) env task) w1 = (Inr (), w2)"
    "streaming_status cfg now ?tid RUNNING w2 = (Inr t, w3)"
    "streaming_append_event cfg now ?tid TASK_STARTED
        [(''source'', JStr ''temporal''), (''taskType'', JStr (tr_task_type task))] w3 = (Inr ev, w4)"
    "w' = set_monitor task MonBegin w4"
    by (auto simp: streaming_submit_task_def and_then_eq_Inr_iff)
  have 1: "event_types_of w1 ?tid = event_types_of w ?tid \<and> status_of w1 ?tid = status_of w ?tid"
    using s(1) by (auto simp: get_client_def on_temporal_def view_defs split: if_splits sum.splits)
  have 2: "event_types_of w2 ?tid = event_types_of w1 ?tid \<and> status_of w2 ?tid = status_of w1 ?tid"
    using s(2) by (auto simp: on_calls_def on_temporal_def view_defs split: prod.splits)
  have "status_of w2 ?tid \<noteq> None" using 1 2 assms(3) by simp
  from status_effect [OF assms(1) this, where now = now and st = RUNNING] s(3)
  have 3: "event_types_of w3 ?tid = event_types_of w2 ?tid \<and> status_of w3 ?tid = Some RUNNING" by force
  from append_effect [OF assms(1) monitor_types(4), where now = now and tid = ?tid and tid' = ?tid
      and payload = "[(''source'', JStr ''temporal''), (''taskType'', JStr (tr_task_type task))]" and w = w3] s(4)
  have "event_types_of w4 ?tid = event_types_of w3 ?tid @ [TASK_STARTED] \<and> status_of w4 ?tid = status_of w3 ?tid"
    by force
  with 1 2 3 show ?thesis by (simp add: s(5))
qed

lemma monitored_inv: "monitored cfg env task w \<Longrightarrow> demo_stores cfg \<Longrightarrow> monitor_inv task w"
proof (induction rule: monitored.induct)
  case (submitted now w w')
  from submit_effect [OF submitted(4,1,2)] submitted(3) show ?case by (simp add: monitor_inv_def)
next
  case (woken w now wake)
  then show ?case by (simp add: monitor_inv_step)
next
  case (other w w')
  then show ?case by (simp only: monitor_inv_def other_activity_def)
qed

section \<open>The end of the monitor\<close>

definition review_steps :: "task_record \<Rightarrow> nat" where
  "review_steps task = (if is_enterprise task then 1 else 0)"

text \<open>How many awaits the monitor still has in front of it.\<close>

fun awaits_left :: "task_record \<Rightarrow> monitor_pc \<Rightarrow> nat" where
  "awaits_left task MonBegin = step_count task + review_steps task + 2"
| "awaits_left task (MonSleep s ss) = length ss + review_steps task + 2"
| "awaits_left task MonSuspend = 2"
| "awaits_left task MonResult = 1"

definition monitor_left :: "string \<Rightarrow> ('p, 'c) host_world \<Rightarrow> nat" where
  "monitor_left tid w = (case monitor_of w tid of None \<Rightarrow> 0 | Some (task, pc) \<Rightarrow> awaits_left task pc)"

lemma awaits_left_next: "awaits_left task (monitor_next task ss) = length ss + review_steps task + 1"
  by (cases ss) (simp_all add: monitor_next_def review_steps_def)

lemma monitor_body_left:
  assumes "monitor_body cfg now task pc wake w = (Inr (Some pc'), w')"
  shows "awaits_left task pc' < awaits_left task pc"
  using assms
  by (cases "(cfg, now, task, pc, wake, w)" rule: monitor_body.cases)
    (auto simp: awaits_left_next step_count_def and_then_eq_Inr_iff)

lemma monitor_left_step:
  assumes "\<And>task pc. monitor_of w tid = Some (task, pc) \<Longrightarrow> tr_task_id task = tid"
  shows "monitor_left tid (monitor_step cfg now tid wake w) \<le> monitor_left tid w - 1"
proof (cases "monitor_of w tid")
  case None
  then show ?thesis by (simp add: monitor_left_def monitor_step_def monitor_of_def)
next
  case (Some m)
  obtain task pc where m: "m = (task, pc)" by (cases m)
  have tid: "tr_task_id task = tid" using assms Some m by simp
  obtain r w1 where b: "monitor_body cfg now task pc wake w = (r, w1)" by (cases "monitor_body cfg now task pc wake w")
  have st: "dict_get (tp_monitors (w_host w)) tid = Some (task, pc)" using Some m by (simp add: monitor_of_def)
  show ?thesis
  proof (cases r)
    case (Inl e)
    then show ?thesis using st b by (simp add: monitor_step_def monitor_left_def)
  next
    case (Inr next_pc)
    show ?thesis
    proof (cases next_pc)
      case None
      then show ?thesis using st b Inr by (simp add: monitor_step_def monitor_left_def)
    next
      case (Some pc')
      then have "awaits_left task pc' < awaits_left task pc" using b Inr monitor_body_left by blast
      then show ?thesis using st b Inr Some tid \<open>monitor_of w tid = Some m\<close> m
        by (simp add: monitor_step_def monitor_left_def)
    qed
  qed
qed

lemma monitor_run_left:
  assumes "demo_stores cfg" "monitored cfg env task w"
  shows "monitored cfg env task (monitor_run cfg (tr_task_id task) inputs w)
    \<and> monitor_left (tr_task_id task) (monitor_run cfg (tr_task_id task) inputs w)
        \<le> monitor_left (tr_task_id task) w - length inputs"
  using assms(2)
proof (induction inputs arbitrary: w)
  case Nil
  then show ?case by simp
next
  case (Cons i inputs)
  obtain now wake where i: "i = (now, wake)" by (cases i)
  let ?w = "monitor_step cfg now (tr_task_id task) wake w"
  have "tr_task_id t = tr_task_id task" if "monitor_of w (tr_task_id task) = Some (t, pc)" for t pc
    using monitored_inv [OF Cons.prems assms(1)] that by (auto simp: monitor_inv_def)
  then have "monitor_left (tr_task_id task) ?w \<le> monitor_left (tr_task_id task) w - 1"
    by (intro monitor_left_step) blast
  then show ?case
    using Cons.IH [OF monitored.woken [OF Cons.prems, where now = now and wake = wake]] by (auto simp: i)
qed

section \<open>An action on the way to the workflow\<close>

lemma accepted_resumes:
  assumes "submit_action svc accept_now now command w = (Inr r, w')" "sr_status r = SA_ACCEPTED"
  obtains granted w1 x w2 where "resume_task (as_resume_service svc) command granted w1 = (x, w2)"
    "w_host w1 = w_host w" "w_registry w1 = w_registry w"
    "\<exists>s ev. es_append_event (as_event_store svc) (accepted_event now command) (w_events w) = (Inr ev, s) \<and> w_events w1 = s"
    "w_host w' = w_host w2" "w_registry w' = w_registry w2" "w_events w' = w_events w2"
proof -
  have "\<nexists>r'. submit_checks svc command w = Inr (Some r') \<and> sr_status r' = SA_ACCEPTED"
    using early_not_accepted(1) by (fastforce simp: submit_checks_def split: sum.splits)
  moreover have "\<nexists>r'. lost_race svc command v = Inr r' \<and> sr_status r' = SA_ACCEPTED" for v
    using early_not_accepted(2,3) by (fastforce simp: lost_race_def split: sum.splits if_splits)
  ultimately obtain granted w1 where acc:
    "on_suspensions (ss_accept_action_if_open (as_suspension_store svc) accept_now
        (sc_task_id command) (sc_suspend_id command) (sc_client_action_id command)) w = (Inr (Some granted), w1)"
    "finish_accept svc now command granted w1 = (Inr r, w')"
    using assms by (fastforce simp: submit_action_def and_then_eq_Inr_iff split: sum.splits option.splits)
  from acc(2) obtain c w2 ev w3 where fin:
    "on_receipts (rs_save_receipt (as_receipt_store svc) (accepted_receipt now command)) w1 = (Inr c, w2)"
    "on_events (es_append_event (as_event_store svc) (accepted_event now command)) w2 = (Inr ev, w3)"
    and rest: "(case resume_task (as_resume_service svc) command granted w3 of
        (Inl e, v) \<Rightarrow> (if is_exception e then (Inr (action_result command SA_ACCEPTED),
             increment_counter ''actions_accepted_total'' (increment_counter ''actions_resume_pending_total'' v))
           else (Inl e, v))
      | (Inr _, v) \<Rightarrow> and_then (on_suspensions (ss_mark_resume_dispatched (as_suspension_store svc)
                          (sc_task_id command) (sc_suspend_id command)) v)
                (\<lambda>_ w4. (Inr (action_result command SA_ACCEPTED), increment_counter ''actions_accepted_total'' w4)))
      = (Inr r, w')"
    unfolding finish_accept_def and_then_eq_Inr_iff by blast
  obtain x w4 where x: "resume_task (as_resume_service svc) command granted w3 = (x, w4)"
    by (cases "resume_task (as_resume_service svc) command granted w3")
  have "w_host w' = w_host w4 \<and> w_registry w' = w_registry w4 \<and> w_events w' = w_events w4"
    using rest unfolding x
    by (cases x) (auto simp: and_then_eq_Inr_iff on_suspensions_def split: prod.splits if_splits)
  note fin = fin x this
  have "w_host w3 = w_host w" "w_registry w3 = w_registry w"
    "\<exists>s. es_append_event (as_event_store svc) (accepted_event now command) (w_events w) = (Inr ev, s) \<and> w_events w3 = s"
    using acc(1) fin(1,2) by (auto simp: on_store_defs split: prod.splits)
  then show thesis using that [OF fin(3)] fin(4) by blast
qed

lemma temporal_resume_effect:
  assumes "temporal_resume_task env command suspension w = (x, w')"
  shows "w_registry w' = w_registry w \<and> w_events w' = w_events w \<and> tp_monitors (w_host w') = tp_monitors (w_host w)
    \<and> (te_connect env = Inr () \<longrightarrow> tp_calls (w_host w') = tp_calls (w_host w)
         @ [SignalWorkflow (''taskbridge:'' @ sc_task_id command) ''action_submitted'' (Some (action_signal command))])"
  using assms
  by (auto simp: temporal_resume_task_def get_client_def on_calls_def on_temporal_def temporal_call_result_def
      streaming_workflow_id_def split: if_splits sum.splits)

lemma temporal_action_effect:
  fixes w w' :: "('p, 'c) host_world"
  assumes run: "submit_action svc accept_now now command w = (Inr r, w')" "sr_status r = SA_ACCEPTED"
    and svc: "as_event_store svc = demo_event_store" "as_resume_service svc = HostResume (temporal_resume_task env)"
  shows "other_activity tid w w'"
    "te_connect env = Inr () \<Longrightarrow> tp_calls (w_host w') = tp_calls (w_host w)
         @ [SignalWorkflow (''taskbridge:'' @ sc_task_id command) ''action_submitted'' (Some (action_signal command))]"
proof -
  from run obtain granted w1 x w2 where a: "resume_task (as_resume_service svc) command granted w1 = (x, w2)"
    "w_host w1 = w_host w" "w_registry w1 = w_registry w"
    "\<exists>s ev. es_append_event (as_event_store svc) (accepted_event now command) (w_events w) = (Inr ev, s) \<and> w_events w1 = s"
    "w_host w' = w_host w2" "w_registry w' = w_registry w2" "w_events w' = w_events w2"
    by (rule accepted_resumes)
  from a(1) svc(2) have "temporal_resume_task env command granted w1 = (x, w2)" by simp
  note eff = temporal_resume_effect [OF this]
  have ev: "w_events w' = w_events w @ [accepted_event now command]"
    using a(4,7) eff svc(1) by (auto simp: demo_event_store_def demo_append_event_def)
  show "other_activity tid w w'"
    using a(2,3,5,6) eff
    by (simp add: other_activity_def view_defs ev task_events_append accepted_event_def)
  show "te_connect env = Inr () \<Longrightarrow> tp_calls (w_host w') = tp_calls (w_host w)
         @ [SignalWorkflow (''taskbridge:'' @ sc_task_id command) ''action_submitted'' (Some (action_signal command))]"
    using a(2,5) eff by simp
qed

lemma monitor_result_step:
  fixes w :: "('p, 'c) host_world"
  assumes cfg: "demo_stores cfg" and m: "monitored cfg env task w"
    and pc: "monitor_of w (tr_task_id task) = Some (task, MonResult)"
    and w'_def: "w' = monitor_step cfg now (tr_task_id task) wake w"
  shows "\<exists>ev. w_events w' = w_events w @ [ev] \<and> ev_task_id ev = tr_task_id task
    \<and> monitor_of w' (tr_task_id task) = None
    \<and> (case wake of
         Woken v \<Rightarrow> status_of w' (tr_task_id task) = Some COMPLETED \<and> ev_type ev = TASK_COMPLETED
           \<and> ev_payload ev = completion_payload (sx_str cfg) v
       | Raised e \<Rightarrow>
           if e = CancelledError
           then status_of w' (tr_task_id task) = Some CANCELLED \<and> ev_type ev = TASK_CANCELLED
           else status_of w' (tr_task_id task) = Some FAILED \<and> ev_type ev = TASK_FAILED
             \<and> ev_payload ev = [(''message'', JStr (error_message e))])"
proof -
  let ?tid = "tr_task_id task"
  have st: "status_of w ?tid \<noteq> None" using monitored_inv [OF m cfg] by (auto simp: monitor_inv_def)
  have mon: "dict_get (tp_monitors (w_host w)) ?tid = Some (task, MonResult)" using pc by (simp add: monitor_of_def)
  show ?thesis
  proof (cases wake)
    case (Raised e)
    from cfg st obtain r v where x: "monitor_except cfg now task e w = (r, v)"
      "status_of v ?tid = Some (if e = CancelledError then CANCELLED else FAILED)"
      "\<exists>ev. w_events v = w_events w @ [ev] \<and> ev_task_id ev = ?tid
       \<and> [ev_type ev] = end_events (if e = CancelledError then CANCELLED else FAILED)
       \<and> ev_payload ev = (if e = CancelledError then [(''reason'', JStr ''monitor_cancelled'')]
                          else [(''message'', JStr (error_message e))])"
      using monitor_except_effect [of cfg w task now e] by blast
    have "w' = pop_monitor ?tid v" using mon Raised x(1) by (simp add: w'_def monitor_step_def)
    then show ?thesis using x Raised by (auto split: if_splits)
  next
    case (Woken v)
    from cfg st obtain t w1 where 1: "streaming_status cfg now ?tid COMPLETED w = (Inr t, w1)"
      "status_of w1 ?tid = Some COMPLETED" "w_events w1 = w_events w" by (rule status_effect)
    from cfg monitor_types(3) obtain ev w2 where 2: "streaming_append_event cfg now ?tid TASK_COMPLETED
        (completion_payload (sx_str cfg) v) w1 = (Inr ev, w2)" "status_of w2 ?tid = status_of w1 ?tid"
      "w_events w2 = w_events w1 @ [ev]" "ev_type ev = TASK_COMPLETED" "ev_task_id ev = ?tid"
      "ev_payload ev = completion_payload (sx_str cfg) v" by (rule append_effect [where tid' = ?tid])
    have "w' = pop_monitor ?tid w2" using mon Woken 1(1) 2(1) by (simp add: w'_def monitor_step_def)
    then show ?thesis using 1 2 Woken by simp
  qed
qed

section \<open>Properties\<close>

text \<open>
  C7. Whatever else the host does meanwhile, the events of a task the Temporal executor has
  started are TASK_STARTED, at most the progress events of its task type, a TASK_SUSPENDED only
  for a document review and after all of these, and the one terminal event its status calls
  for; a completed task has them all. While the monitor runs the task is RUNNING, and without
  one it is terminal, unless the monitor was cancelled before it first ran.
\<close>

theorem temporal_task_trace:
  assumes "demo_stores cfg" "monitored cfg env task w"
  shows "\<exists>st. status_of w (tr_task_id task) = Some st \<and> trace_ok task st (event_types_of w (tr_task_id task))
    \<and> (monitor_of w (tr_task_id task) \<noteq> None \<longrightarrow> st = RUNNING)
    \<and> (monitor_of w (tr_task_id task) = None \<longrightarrow>
         is_terminal st \<or> event_types_of w (tr_task_id task) = [TASK_STARTED])"
proof -
  from monitored_inv [OF assms(2,1)] obtain st where st: "status_of w (tr_task_id task) = Some st"
    "case monitor_of w (tr_task_id task) of
       Some (task', pc) \<Rightarrow> task' = task \<and> st = RUNNING \<and> pc_trace task pc (event_types_of w (tr_task_id task))
     | None \<Rightarrow> trace_ok task st (event_types_of w (tr_task_id task))
            \<and> (st = RUNNING \<longrightarrow> event_types_of w (tr_task_id task) = [TASK_STARTED])"
    by (auto simp: monitor_inv_def)
  show ?thesis
  proof (cases "monitor_of w (tr_task_id task)")
    case None
    with st have "st \<noteq> ACCEPTED" by (simp add: trace_ok_def)
    with None st show ?thesis by (cases st) (auto simp: is_terminal_def)
  next
    case (Some m)
    with st pc_trace_ok show ?thesis by (cases m) auto
  qed
qed

text \<open>
  C18. The monitor terminates: after six awaits, whatever they give, it is over, and the task is
  in a terminal status, unless the first of them cancelled a monitor that had not run yet.
\<close>

theorem temporal_monitor_ends:
  assumes "demo_stores cfg" "monitored cfg env task w" "6 \<le> length inputs"
  shows "monitor_of (monitor_run cfg (tr_task_id task) inputs w) (tr_task_id task) = None
    \<and> (\<exists>st. status_of (monitor_run cfg (tr_task_id task) inputs w) (tr_task_id task) = Some st
         \<and> (is_terminal st
             \<or> event_types_of (monitor_run cfg (tr_task_id task) inputs w) (tr_task_id task) = [TASK_STARTED]))"
proof -
  let ?w = "monitor_run cfg (tr_task_id task) inputs w"
  from monitor_run_left [OF assms(1,2)] have m: "monitored cfg env task ?w"
    and left: "monitor_left (tr_task_id task) ?w \<le> monitor_left (tr_task_id task) w - length inputs" by auto
  have bound: "awaits_left task pc \<le> 6" if "pc_trace task pc types" for pc types
    using that step_count_pos(2) [of task] by (cases pc) (auto simp: review_steps_def)
  have "monitor_left (tr_task_id task) w \<le> 6"
    using monitored_inv [OF assms(2,1)] bound
    by (auto simp: monitor_inv_def monitor_left_def split: option.splits)
  with left assms(3) have "monitor_left (tr_task_id task) ?w = 0" by simp
  have pos: "awaits_left t pc \<noteq> 0" for t pc by (cases pc) simp_all
  have none: "monitor_of ?w (tr_task_id task) = None"
  proof (rule ccontr)
    assume "monitor_of ?w (tr_task_id task) \<noteq> None"
    then obtain t pc where "monitor_of ?w (tr_task_id task) = Some (t, pc)" by auto
    with \<open>monitor_left (tr_task_id task) ?w = 0\<close> pos show False by (simp add: monitor_left_def)
  qed
  from monitored_inv [OF m assms(1)] none obtain st where st: "status_of ?w (tr_task_id task) = Some st"
    "trace_ok task st (event_types_of ?w (tr_task_id task))"
    "st = RUNNING \<longrightarrow> event_types_of ?w (tr_task_id task) = [TASK_STARTED]" by (auto simp: monitor_inv_def)
  from st(2) have "st \<noteq> ACCEPTED" by (simp add: trace_ok_def)
  with st none show ?thesis by (cases st) (auto simp: is_terminal_def)
qed

text \<open>
  A cancelled workflow is reported as a failed task. Cancelling passes the request to the
  server and leaves the monitor waiting for the result; when the result is then an exception,
  which is how a cancelled workflow ends, the task becomes FAILED with a TASK_FAILED event. The
  status CANCELLED is only given to a task whose monitor is itself cancelled.
\<close>

theorem temporal_cancel_ends_failed:
  fixes w w1 :: "('p, 'c) host_world"
  assumes "demo_stores cfg" "monitored cfg env task w"
    and "monitor_of w (tr_task_id task) = Some (task, MonResult)"
    and "streaming_request_cancellation cfg env task w = (Inr (), w1)"
    and "is_exception e"
  shows "\<exists>ev. w_events (monitor_step cfg now (tr_task_id task) (Raised e) w1) = w_events w @ [ev]
    \<and> ev_type ev = TASK_FAILED \<and> ev_payload ev = [(''message'', JStr (error_message e))]
    \<and> status_of (monitor_step cfg now (tr_task_id task) (Raised e) w1) (tr_task_id task) = Some FAILED
    \<and> tp_calls (w_host w1) = tp_calls (w_host w) @ [CancelWorkflow (''taskbridge:'' @ tr_task_id task)]"
proof -
  have eff: "w_registry w1 = w_registry w" "w_events w1 = w_events w" "tp_monitors (w_host w1) = tp_monitors (w_host w)"
    "tp_calls (w_host w1) = tp_calls (w_host w) @ [CancelWorkflow (''taskbridge:'' @ tr_task_id task)]"
    using assms(4)
    by (auto simp: streaming_request_cancellation_def get_client_def on_calls_def on_temporal_def
        temporal_request_cancellation_def temporal_call_result_def temporal_config_def workflow_id_for_def
        split: if_splits sum.splits)
  then have "other_activity (tr_task_id task) w w1" by (simp add: other_activity_def view_defs)
  with assms(2) have "monitored cfg env task w1" by (rule monitored.other)
  from monitor_result_step [OF assms(1) this _ refl, where wake = "Raised e" and now = now] assms(3,5) eff
  show ?thesis by (auto simp: monitor_of_def is_exception_def)
qed


end
