(* ===== verification/ProtocolConformance.thy ===== *)
theory ProtocolConformance
  imports Protocol FakeSystem TemporalProperties
begin

text \<open>
  Which events of the repository's executors and of the action service have the shape the wire
  protocol asks for.
\<close>

section \<open>The fake executor\<close>

text \<open>What it appends, if anything: a message, or one of the numbered progress events.\<close>

definition fake_written :: "nat \<Rightarrow> task_event \<Rightarrow> bool" where
  "fake_written ticks e \<longleftrightarrow> ev_payload e \<in> range message_payload \<and> ev_type e \<noteq> TASK_PROGRESS \<and> ev_type e \<noteq> TASK_SUSPENDED
       \<and> ev_type e \<noteq> TASK_MESSAGE \<and> ev_type e \<noteq> TASK_ACTION_ACCEPTED
     \<or> ev_type e = TASK_PROGRESS
       \<and> (\<exists>k < ticks. ev_payload e = [(''progress'', JInt (int k + 1)), (''message'', JStr ''tick'')])"

lemma fake_step_appends:
  assumes cfg: "fc_registry cfg = demo_registry" "fc_event_store cfg = demo_event_store"
    and inv: "fake_inv cfg w"
  obtains evs where "w_events (fake_step cfg now tid w) = w_events w @ evs"
    "\<And>e. e \<in> set evs \<Longrightarrow> fake_written (fc_progress_ticks cfg) e"
proof (cases "dict_get (fx_tasks (w_host w)) tid")
  case None
  then show thesis using that [of "[]"] by (simp add: fake_step_idle)
next
  case (Some pc)
  then have "task_inv (fc_progress_ticks cfg) (dict_get (w_registry w) tid)
      (task_events (w_events w) tid) (fake_seq w tid) (Some pc)"
    using inv unfolding fake_inv_def by metis
  then obtain t where t: "dict_get (w_registry w) tid = Some t" "pc_ok (fc_progress_ticks cfg) pc"
    by (auto simp: task_inv_def split: option.splits)
  define evs where "evs = drop (length (w_events w)) (w_events (fake_step cfg now tid w))"
  have "w_events (fake_step cfg now tid w) = w_events w @ evs"
    "e \<in> set evs \<Longrightarrow> fake_written (fc_progress_ticks cfg) e" for e
    using Some t unfolding evs_def fake_written_def
    by (cases pc; auto simp: fake_step_demo cfg fake_status_demo [OF cfg(1) t(1)] Let_def split: option.splits if_splits)+
  then show thesis by (rule that)
qed

text \<open>Every event of the log, in every reachable world.\<close>

lemma create_keeps_events:
  assumes svc: "cs_registry svc = demo_registry" "cs_executor svc = fake_executor"
    and inv: "fake_inv cfg w" and new: "dict_get (w_registry w) uuid = None"
    and run: "create_task svc now nowf uuid command w = (res, w')"
  shows "w_events w' = w_events w"
  using create_task_demo_cases [OF svc(1) run]
proof
  assume sub: "create_task_submit svc now nowf uuid command w = (res, w')"
  from inv new have none: "dict_get (fx_tasks (w_host w)) uuid = None"
    by (auto simp: fake_inv_def task_inv_def dest!: spec [of _ uuid])
  from create_task_submit_fake [OF svc none sub] show ?thesis by simp
qed simp

lemma fake_log_written:
  assumes "fake_reachable cfg svc w"
    and "fc_registry cfg = demo_registry" "fc_event_store cfg = demo_event_store"
    and "cs_registry svc = demo_registry" "cs_executor svc = fake_executor"
  shows "\<forall>e \<in> set (w_events w). fake_written (fc_progress_ticks cfg) e"
  using assms(1)
proof (induction rule: fake_reachable.induct)
  case (start w)
  then show ?case by simp
next
  case (create w uuid now nowf command res w')
  then show ?case using create_keeps_events [OF assms(4,5) fake_reachable_inv [OF create(1) assms(2-5)]] by metis
next
  case (cancel w command res w')
  have "tasks_valid (w_registry w)" using fake_reachable_inv [OF cancel(1) assms(2-5)] by (simp add: fake_inv_def)
  from cancel_task_fake [OF assms(4,5) this cancel(2)] cancel.IH show ?case by auto
next
  case (run w now tid)
  from fake_step_appends [OF assms(2,3) fake_reachable_inv [OF run(1) assms(2-5)]] obtain evs
    where "w_events (fake_step cfg now tid w) = w_events w @ evs" "\<And>e. e \<in> set evs \<Longrightarrow> fake_written (fc_progress_ticks cfg) e"
    by blast
  with run.IH show ?case by auto
qed

lemma fake_written_conforms:
  assumes "fake_written ticks e" "ticks \<le> 100"
  shows "payload_conforms (ev_type e) (ev_payload e) \<longleftrightarrow> ev_type e \<in> {TASK_STARTED, TASK_PROGRESS}"
  using assms by (cases "ev_type e") (auto simp: fake_written_def message_payload_def schema_simps dict_get_def)

section \<open>The Temporal executor\<close>

text \<open>The progress payloads a monitor still has in front of it are those of its task type.\<close>

fun steps_ok :: "task_record \<Rightarrow> monitor_pc \<Rightarrow> bool" where
  "steps_ok task (MonSleep s ss) \<longleftrightarrow> set (s # ss) \<subseteq> set (progress_steps_for_task_type (tr_task_type task))"
| "steps_ok task _ \<longleftrightarrow> True"

lemma steps_ok_next:
  "set ss \<subseteq> set (progress_steps_for_task_type (tr_task_type task)) \<Longrightarrow> steps_ok task (monitor_next task ss)"
  by (cases ss) (auto simp: monitor_next_def)

lemma monitor_body_steps:
  assumes "monitor_body cfg now task pc wake w = (Inr (Some pc'), w')" "steps_ok task pc"
  shows "steps_ok task pc'"
  using assms
  by (cases "(cfg, now, task, pc, wake, w)" rule: monitor_body.cases)
    (auto simp: steps_ok_next and_then_eq_Inr_iff)

lemma monitor_step_continues:
  assumes "monitor_of w (tr_task_id task) = Some (task, pc)"
    and "monitor_of (monitor_step cfg now (tr_task_id task) wake w) (tr_task_id task) = Some (t, pc')"
  shows "t = task \<and> (\<exists>w1. monitor_body cfg now task pc wake w = (Inr (Some pc'), w1))"
proof -
  obtain r w1 where b: "monitor_body cfg now task pc wake w = (r, w1)" by (cases "monitor_body cfg now task pc wake w")
  show ?thesis
    using assms b
    by (cases r) (auto simp: monitor_step_def monitor_of_def [symmetric] split: option.splits if_splits)
qed

lemma monitored_steps:
  assumes "monitored cfg env task w" "demo_stores cfg"
  shows "monitor_of w (tr_task_id task) = Some (t, pc) \<Longrightarrow> steps_ok task pc"
  using assms(1)
proof (induction arbitrary: t pc rule: monitored.induct)
  case (submitted now w w')
  with submit_effect [OF assms(2) submitted(1,2)] show ?case by simp
next
  case (woken w now wake)
  note inv = monitored_inv [OF woken(1) assms(2)]
  show ?case
  proof (cases "monitor_of w (tr_task_id task)")
    case None
    then show ?thesis using woken(3) by (simp add: monitor_step_def monitor_of_def)
  next
    case (Some m)
    then obtain pc0 where m: "monitor_of w (tr_task_id task) = Some (task, pc0)"
      using inv by (auto simp: monitor_inv_def)
    with monitor_step_continues [OF m woken(3)] woken.IH monitor_body_steps show ?thesis by blast
  qed
next
  case (other w w')
  then have "monitor_of w (tr_task_id task) = Some (t, pc)" by (simp add: other_activity_def)
  then show ?case by (rule other.IH)
qed

text \<open>The event a step of the monitor writes.\<close>

definition monitor_writes :: "('r, 'v, 'p) streaming_config \<Rightarrow> task_record \<Rightarrow> task_event \<Rightarrow> bool" where
  "monitor_writes cfg task e \<longleftrightarrow>
     ev_type e = TASK_PROGRESS \<and> ev_payload e \<in> set (progress_steps_for_task_type (tr_task_type task))
   \<or> ev_type e = TASK_SUSPENDED \<and> ev_payload e = suspended_payload task
   \<or> ev_type e = TASK_COMPLETED \<and> (\<exists>v. ev_payload e = completion_payload (sx_str cfg) v)
   \<or> ev_type e = TASK_CANCELLED \<and> ev_payload e = [(''reason'', JStr ''monitor_cancelled'')]
   \<or> ev_type e = TASK_FAILED \<and> (\<exists>m. ev_payload e = [(''message'', JStr m)])"

lemma monitor_except_writes:
  assumes "demo_stores cfg" "status_of w (tr_task_id task) \<noteq> None"
  obtains e where "w_events (snd (monitor_except cfg now task x w)) = w_events w @ [e]" "monitor_writes cfg task e"
proof -
  from monitor_except_effect [OF assms, of now x] obtain r w' ev where "monitor_except cfg now task x w = (r, w')"
    "w_events w' = w_events w @ [ev]" "[ev_type ev] = end_events (if x = CancelledError then CANCELLED else FAILED)"
    "ev_payload ev = (if x = CancelledError then [(''reason'', JStr ''monitor_cancelled'')]
                      else [(''message'', JStr (error_message x))])" by metis
  then show thesis by (intro that [of ev]) (auto simp: monitor_writes_def split: if_splits)
qed

lemma put_suspension_events [simp]: "w_events (put_suspension cfg r w) = w_events w"
  by (simp add: put_suspension_def split: option.splits)

lemma monitor_body_writes:
  assumes cfg: "demo_stores cfg" and st: "status_of w (tr_task_id task) \<noteq> None" and ok: "steps_ok task pc"
  obtains r w' evs where "monitor_body cfg now task pc (Woken v) w = (Inr r, w')" "w_events w' = w_events w @ evs"
    "length evs \<le> 1" "list_all (monitor_writes cfg task) evs"
proof (cases pc)
  case MonBegin
  then show thesis using that [of _ w "[]"] by simp
next
  case (MonSleep s ss)
  from append_effect [OF cfg monitor_types(1), of now "tr_task_id task" s w] obtain e w1
    where "streaming_append_event cfg now (tr_task_id task) TASK_PROGRESS s w = (Inr e, w1)"
      "w_events w1 = w_events w @ [e]" "ev_type e = TASK_PROGRESS" "ev_payload e = s" by metis
  then show thesis using that [of _ w1 "[e]"] MonSleep ok by (simp add: monitor_writes_def)
next
  case MonSuspend
  from append_effect [OF cfg monitor_types(2), of now "tr_task_id task" "suspended_payload task"
      "put_suspension cfg (review_suspension now task) w"] obtain e w1
    where "streaming_append_event cfg now (tr_task_id task) TASK_SUSPENDED (suspended_payload task)
        (put_suspension cfg (review_suspension now task) w) = (Inr e, w1)"
      "w_events w1 = w_events w @ [e]" "ev_type e = TASK_SUSPENDED" "ev_payload e = suspended_payload task" by (metis put_suspension_events)
  then show thesis using that [of _ w1 "[e]"] MonSuspend by (simp add: monitor_writes_def)
next
  case MonResult
  from status_effect [OF cfg st, of now COMPLETED] obtain t w1
    where 1: "streaming_status cfg now (tr_task_id task) COMPLETED w = (Inr t, w1)" "w_events w1 = w_events w" by metis
  from append_effect [OF cfg monitor_types(3), of now "tr_task_id task" "completion_payload (sx_str cfg) v" w1] obtain e w2
    where "streaming_append_event cfg now (tr_task_id task) TASK_COMPLETED (completion_payload (sx_str cfg) v) w1 = (Inr e, w2)"
      "w_events w2 = w_events w1 @ [e]" "ev_type e = TASK_COMPLETED" "ev_payload e = completion_payload (sx_str cfg) v" by metis
  then show thesis using that [of _ w2 "[e]"] MonResult 1 by (auto simp: monitor_writes_def)
qed

lemma monitor_step_writes:
  assumes cfg: "demo_stores cfg" and mon: "monitored cfg env task w"
  obtains evs where "w_events (monitor_step cfg now (tr_task_id task) wake w) = w_events w @ evs"
    "length evs \<le> 1" "list_all (monitor_writes cfg task) evs"
proof (cases "monitor_of w (tr_task_id task)")
  case None
  then show thesis using that [of "[]"] by (simp add: monitor_step_def monitor_of_def)
next
  case (Some m)
  with monitored_inv [OF mon cfg] obtain pc where pc: "monitor_of w (tr_task_id task) = Some (task, pc)"
    and st: "status_of w (tr_task_id task) \<noteq> None" by (auto simp: monitor_inv_def)
  note ok = monitored_steps [OF mon cfg pc]
  show thesis
  proof (cases wake)
    case (Woken v)
    from monitor_body_writes [OF cfg st ok] obtain r w' evs where
      "monitor_body cfg now task pc (Woken v) w = (Inr r, w')" "w_events w' = w_events w @ evs"
      "length evs \<le> 1" "list_all (monitor_writes cfg task) evs" by metis
    then show thesis using that [of evs] pc Woken
      by (cases r) (simp_all add: monitor_step_def monitor_of_def)
  next
    case (Raised x)
    from monitor_except_writes [OF cfg st] obtain e where
      "w_events (snd (monitor_except cfg now task x w)) = w_events w @ [e]" "monitor_writes cfg task e" by metis
    then show thesis using that [of "[]"] that [of "[e]"] pc Raised
      by (cases "pc = MonBegin") (simp_all add: monitor_step_def monitor_of_def)
  qed
qed

lemma progress_steps_conform:
  "p \<in> set (progress_steps_for_task_type ty) \<Longrightarrow> payload_conforms TASK_PROGRESS p"
  by (auto simp: progress_steps_for_task_type_def progress_step_def schema_simps dict_get_def split: if_splits)

lemma monitor_writes_conforms:
  "monitor_writes cfg task e \<Longrightarrow> payload_conforms (ev_type e) (ev_payload e)
    \<longleftrightarrow> ev_type e \<in> {TASK_PROGRESS, TASK_COMPLETED, TASK_CANCELLED}"
  using progress_steps_conform [of "ev_payload e" "tr_task_type task"]
  by (auto simp: monitor_writes_def completion_payload_def suspended_payload_def schema_simps dict_get_def)

text \<open>The acknowledgement of an action, which the action service appends, is always right.\<close>

lemma accepted_event_conforms: "conforms_task_event (event_json dump_time (accepted_event now command))"
  by (simp add: conforms_event_json accepted_event_def schema_simps dict_get_def)

lemma submit_writes_started:
  assumes "streaming_submit_task cfg env now task w = (Inr (), w')" "demo_stores cfg"
  obtains e where "w_events w' = w_events w @ [e]" "ev_type e = TASK_STARTED"
    "ev_payload e = [(''source'', JStr ''temporal''), (''taskType'', JStr (tr_task_type task))]"
proof -
  let ?p = "[(''source'', JStr ''temporal''), (''taskType'', JStr (tr_task_type task))]"
  from assms(1) obtain w1 w2 t w3 ev w4 where s: "get_client env w = (Inr (), w1)"
    "on_calls (temporal_submit_task (temporal_config (sx_task_queue cfg)
        (if is_enterprise task then ''enterprise_document_workflow'' else ''demo_task_workflow'')
        to_workflow_input) env task) w1 = (Inr (), w2)"
    "streaming_status cfg now (tr_task_id task) RUNNING w2 = (Inr t, w3)"
    "streaming_append_event cfg now (tr_task_id task) TASK_STARTED ?p w3 = (Inr ev, w4)"
    "w' = set_monitor task MonBegin w4"
    by (auto simp: streaming_submit_task_def and_then_eq_Inr_iff)
  have "w_events w1 = w_events w"
    using s(1) by (auto simp: get_client_def on_temporal_def split: if_splits sum.splits)
  moreover have "w_events w2 = w_events w1"
    using s(2) by (auto simp: on_calls_def on_temporal_def split: prod.splits)
  moreover have "w_events w3 = w_events w2"
    using s(3) by (auto simp: streaming_status_def on_registry_def split: prod.splits)
  moreover from append_effect [OF assms(2) monitor_types(4), of now "tr_task_id task" ?p w3] obtain e w'
    where "streaming_append_event cfg now (tr_task_id task) TASK_STARTED ?p w3 = (Inr e, w')"
      "w_events w' = w_events w3 @ [e]" "ev_type e = TASK_STARTED" "ev_payload e = ?p" by metis
  ultimately show thesis using that [of ev] s(4,5) by simp
qed

section \<open>Properties\<close>

lemma fake_written_progress:
  assumes "fake_written ticks e" "ev_type e = TASK_PROGRESS" "ticks \<le> 100" "\<And>n. lax_float (JInt n) = Some n"
  shows "\<exists>k < ticks. event_progress lax_float e
    = Inr (Some \<lparr>pp_progress = int k + 1, pp_stage = None, pp_message = Some ''tick''\<rparr>)"
  using assms by (auto simp: fake_written_def event_progress_def validate_progress_payload_def optional_text_def
      only_properties_def dict_get_def)

lemma fake_written_failure:
  "fake_written ticks e \<Longrightarrow> ev_type e = TASK_FAILED \<Longrightarrow> \<exists>x. event_failure lax_bool e = Inl x"
  using failure_needs_members [of e "''code''" lax_bool]
  by (auto simp: fake_written_def message_payload_def dict_get_def)

text \<open>
  C34. Which events of the fake executor a client that checks the protocol's schema accepts: on a
  host whose tasks have at most 100 ticks, in every reachable world, exactly the TASK_STARTED and
  TASK_PROGRESS events of the log. Every terminal event lacks members the schema requires. The
  typed accessors of the library agree: the progress of a TASK_PROGRESS event is read as the
  number of its tick, the failure of a TASK_FAILED event raises a validation error.
\<close>

theorem fake_events_conform:
  assumes "fake_host cfg svc" "fake_reachable cfg svc w" "fc_progress_ticks cfg \<le> 100" "e \<in> set (w_events w)"
    and "\<And>n. lax_float (JInt n) = Some n"
  shows "(conforms_task_event (event_json dump_time e) \<longleftrightarrow> ev_type e \<in> {TASK_STARTED, TASK_PROGRESS})
    \<and> (ev_type e = TASK_PROGRESS \<longrightarrow> (\<exists>k < fc_progress_ticks cfg. event_progress lax_float e
          = Inr (Some \<lparr>pp_progress = int k + 1, pp_stage = None, pp_message = Some ''tick''\<rparr>)))
    \<and> (ev_type e = TASK_FAILED \<longrightarrow> (\<exists>x. event_failure lax_bool e = Inl x))"
proof -
  from assms(1,2,4) have w: "fake_written (fc_progress_ticks cfg) e"
    using fake_log_written [of cfg svc w] by (auto simp: fake_host_def)
  have "conforms_task_event (event_json dump_time e) \<longleftrightarrow> ev_type e \<in> {TASK_STARTED, TASK_PROGRESS}"
    using w assms(3) by (simp add: conforms_event_json fake_written_conforms)
  with fake_written_progress [OF w _ assms(3,5)] fake_written_failure [OF w] show ?thesis by blast
qed

text \<open>
  C35. The same for the Temporal executor: submitting a task writes one event, TASK_STARTED, which
  the schema rejects, and every step of its monitor writes at most one event, which the schema
  accepts if it is TASK_PROGRESS, TASK_COMPLETED or TASK_CANCELLED and rejects otherwise.
\<close>

theorem temporal_events_conform:
  assumes "demo_stores cfg" "monitored cfg env task w"
    and "streaming_submit_task cfg env now0 task0 w0 = (Inr (), w1)"
  shows "(\<exists>e. w_events w1 = w_events w0 @ [e] \<and> ev_type e = TASK_STARTED
          \<and> \<not> conforms_task_event (event_json dump_time e))
    \<and> (\<exists>evs. w_events (monitor_step cfg now (tr_task_id task) wake w) = w_events w @ evs \<and> length evs \<le> 1
        \<and> list_all (\<lambda>e. conforms_task_event (event_json dump_time e)
              = (ev_type e \<in> {TASK_PROGRESS, TASK_COMPLETED, TASK_CANCELLED})) evs)"
proof
  obtain e where "w_events w1 = w_events w0 @ [e]" "ev_type e = TASK_STARTED"
    "ev_payload e = [(''source'', JStr ''temporal''), (''taskType'', JStr (tr_task_type task0))]"
    by (rule submit_writes_started [OF assms(3,1)])
  then show "\<exists>e. w_events w1 = w_events w0 @ [e] \<and> ev_type e = TASK_STARTED
      \<and> \<not> conforms_task_event (event_json dump_time e)"
    by (intro exI [of _ e]) (simp add: conforms_event_json schema_simps)
  from monitor_step_writes [OF assms(1,2)] obtain evs
    where evs: "w_events (monitor_step cfg now (tr_task_id task) wake w) = w_events w @ evs" "length evs \<le> 1"
      "list_all (monitor_writes cfg task) evs" by metis
  then have "list_all (\<lambda>e. conforms_task_event (event_json dump_time e)
      = (ev_type e \<in> {TASK_PROGRESS, TASK_COMPLETED, TASK_CANCELLED})) evs"
    using monitor_writes_conforms by (auto simp: list_all_iff conforms_event_json)
  with evs show "\<exists>evs. w_events (monitor_step cfg now (tr_task_id task) wake w) = w_events w @ evs \<and> length evs \<le> 1
        \<and> list_all (\<lambda>e. conforms_task_event (event_json dump_time e)
              = (ev_type e \<in> {TASK_PROGRESS, TASK_COMPLETED, TASK_CANCELLED})) evs" by blast
qed

end
