(* ===== verification/TemporalWitnesses.thy ===== *)
theory TemporalWitnesses
  imports TemporalProperties Samples JsonCodec
begin

text \<open>
  A document review on the example host, with a Temporal server that accepts every call: the
  task is submitted, its monitor runs up to the wait for the result, and the reviewer approves.
\<close>

definition review_task :: task_record where
  "review_task = from_command sample_time ''t9''
     (sample_command\<lparr>cc_task_type := ''enterprise.document.review''\<rparr>)"

definition review_config :: "suspension_dict host_config" where
  "review_config = \<lparr>sx_registry = demo_registry, sx_event_store = demo_event_store,
     sx_put_suspension = Some (\<lambda>r d. dict_set d (su_task_id r, su_suspend_id r) r),
     sx_task_queue = ''taskbridge-demo'', sx_str = render\<rparr>"

definition willing_env :: temporal_env where
  "willing_env = \<lparr>te_connect = Inr (), te_call = (\<lambda>_ _. Inr ())\<rparr>"

definition review_start :: "(suspension_dict, receipt_dict) host_world" where
  "review_start = \<lparr>w_registry = [(''t9'', review_task)], w_events = [], w_suspensions = [], w_receipts = [],
     w_host = streaming_init, w_metrics = []\<rparr>"

definition review_started :: "(suspension_dict, receipt_dict) host_world" where
  "review_started = snd (streaming_submit_task review_config willing_env sample_time review_task review_start)"

definition review_waiting :: "(suspension_dict, receipt_dict) host_world" where
  "review_waiting = monitor_run review_config ''t9'' (replicate 5 (sample_time, Woken JNull)) review_started"

lemma review_stores: "demo_stores review_config"
  by (simp add: demo_stores_def review_config_def)

lemma review_id: "tr_task_id review_task = ''t9''"
  by (simp add: review_task_def from_command_def)

lemma review_started_monitored: "monitored review_config willing_env review_task review_started"
proof (rule monitored.submitted)
  have "fst (streaming_submit_task review_config willing_env sample_time review_task review_start) = Inr ()"
    by code_simp
  then show "streaming_submit_task review_config willing_env sample_time review_task review_start = (Inr (), review_started)"
    by (simp add: review_started_def prod_eq_iff)
  show "status_of review_start (tr_task_id review_task) \<noteq> None" by code_simp
  show "event_types_of review_start (tr_task_id review_task) = []" by code_simp
qed

lemma review_waiting_monitored: "monitored review_config willing_env review_task review_waiting"
  using monitor_run_left [OF review_stores review_started_monitored]
  by (simp add: review_waiting_def review_id)

lemma review_waiting_pc: "monitor_of review_waiting (tr_task_id review_task) = Some (review_task, MonResult)"
  by code_simp

theorem temporal_task_trace_witness:
  "trace_ok review_task RUNNING (event_types_of review_waiting ''t9'')"
proof -
  have "status_of review_waiting ''t9'' = Some RUNNING" by code_simp
  with temporal_task_trace [OF review_stores review_waiting_monitored] show ?thesis by (simp add: review_id)
qed

theorem temporal_monitor_ends_witness:
  "monitor_of (monitor_run review_config ''t9'' (replicate 6 (sample_time, Woken JNull)) review_started) ''t9'' = None"
  using temporal_monitor_ends [OF review_stores review_started_monitored,
      of "replicate 6 (sample_time, Woken JNull)"]
  by (simp add: review_id)

definition review_cancelled :: "(suspension_dict, receipt_dict) host_world" where
  "review_cancelled = snd (streaming_request_cancellation review_config willing_env review_task review_waiting)"

theorem temporal_cancel_ends_failed_witness:
  "status_of (monitor_step review_config sample_time ''t9''
      (Raised (OtherError ''Workflow execution failed'')) review_cancelled) ''t9'' = Some FAILED"
proof -
  have "fst (streaming_request_cancellation review_config willing_env review_task review_waiting) = Inr ()"
    by code_simp
  then have "streaming_request_cancellation review_config willing_env review_task review_waiting = (Inr (), review_cancelled)"
    by (simp add: review_cancelled_def prod_eq_iff)
  from temporal_cancel_ends_failed [OF review_stores review_waiting_monitored review_waiting_pc this,
      where e = "OtherError ''Workflow execution failed''" and now = sample_time]
  show ?thesis by (auto simp: is_exception_def review_id)
qed

definition review_service :: "(task_dict, event_list, suspension_dict, receipt_dict, temporal_state) action_service" where
  "review_service = \<lparr>as_registry = demo_registry, as_suspension_store = mem_suspension_store,
     as_receipt_store = mem_receipt_store, as_event_store = demo_event_store,
     as_ownership_policy = demo_ownership_policy,
     as_resume_service = HostResume (temporal_resume_task willing_env), as_action_validation_policy = None\<rparr>"

definition approve_command :: submit_action_command where
  "approve_command = \<lparr>sc_task_id = ''t9'', sc_client_action_id = ''a1'', sc_suspend_id = ''review-t9'',
     sc_action_type = ''approve'', sc_payload = [], sc_metadata = [], sc_auth_context = demo_auth_context\<rparr>"


end
