(* ===== verification/ProtocolWitnesses.thy ===== *)
theory ProtocolWitnesses
  imports ProtocolConformance TemporalWitnesses
begin

text \<open>
  The conformance properties at work: the completed task of the fake executor's example, and the
  document review of the Temporal executor's.
\<close>

lemma sample_ticks: "fc_progress_ticks sample_config \<le> 100"
  by code_simp

lemma completed_events: "w_events completed_world \<noteq> []"
  "ev_type (hd (w_events completed_world)) = TASK_STARTED"
  "ev_type (last (w_events completed_world)) = TASK_COMPLETED"
  by code_simp+

theorem fake_events_conform_witness:
  "conforms_task_event (event_json isoformat (hd (w_events completed_world)))
   \<and> \<not> conforms_task_event (event_json isoformat (last (w_events completed_world)))"
  using fake_events_conform [OF sample_host completed_reachable sample_ticks, where dump_time = isoformat
      and lax_float = "\<lambda>v. case v of JInt n \<Rightarrow> Some n | _ \<Rightarrow> None" and lax_bool = "\<lambda>_. None"]
    completed_events by simp

theorem temporal_events_conform_witness:
  "(\<exists>e. w_events review_started = [e] \<and> \<not> conforms_task_event (event_json isoformat e))
   \<and> (\<exists>e. w_events (monitor_step review_config sample_time ''t9'' (Woken JNull) review_waiting)
             = w_events review_waiting @ [e]
          \<and> conforms_task_event (event_json isoformat e))"
proof -
  let ?w = "monitor_step review_config sample_time ''t9'' (Woken JNull) review_waiting"
  have "fst (streaming_submit_task review_config willing_env sample_time review_task review_start) = Inr ()"
    by code_simp
  then have "streaming_submit_task review_config willing_env sample_time review_task review_start = (Inr (), review_started)"
    by (simp add: review_started_def prod_eq_iff)
  from temporal_events_conform [OF review_stores review_waiting_monitored this,
      where dump_time = isoformat and now = sample_time and wake = "Woken JNull"]
  obtain e evs where 1: "w_events review_started = w_events review_start @ [e]"
      "\<not> conforms_task_event (event_json isoformat e)"
    and 2: "w_events ?w = w_events review_waiting @ evs" "length evs \<le> 1"
      "list_all (\<lambda>e. conforms_task_event (event_json isoformat e)
          = (ev_type e \<in> {TASK_PROGRESS, TASK_COMPLETED, TASK_CANCELLED})) evs"
    by (auto simp: review_id)
  have len: "length (w_events ?w) = Suc (length (w_events review_waiting))" by code_simp
  have ty: "ev_type (last (w_events ?w)) = TASK_COMPLETED" by code_simp
  from len 2(1) obtain f where f: "evs = [f]" by (auto simp: length_Suc_conv)
  with 2 ty have "conforms_task_event (event_json isoformat f)" by simp
  moreover have "w_events review_start = []" by (simp add: review_start_def)
  ultimately show ?thesis using 1 2(1) f by auto
qed

end
