(* ===== verification/PyFloat.thy ===== *)
theory PyFloat
  imports Main
begin

text \<open>
  Python floats, as far as the code computes with them: a positive double is a mantissa times a
  power of two, \<open>/\<close> and \<open>*\<close> on positive operands give the double next to the exact result (ties
  to even), \<open>int\<close> drops the fraction. The exponents are not bounded: the code only forms
  quotients of small counters, far from overflow and from subnormal numbers.
\<close>

section \<open>Rounding\<close>

text \<open>\<open>a / b\<close> to the nearest integer, ties to even.\<close>

definition round_half_even :: "nat \<Rightarrow> nat \<Rightarrow> nat" where
  "round_half_even a b =
     (let q = a div b; r = a mod b
      in if 2 * r < b \<or> (2 * r = b \<and> even q) then q else q + 1)"

text \<open>How often to double the numerator, or the denominator, for a quotient of 53 bits.\<close>

function scale_up :: "nat \<Rightarrow> nat \<Rightarrow> nat" where
  "scale_up a b = (if a = 0 \<or> 2 ^ 52 * b \<le> a then 0 else Suc (scale_up (2 * a) b))"
  by auto
termination by (relation "measure (\<lambda>(a, b). 2 ^ 52 * b - a)") auto

function scale_down :: "nat \<Rightarrow> nat \<Rightarrow> nat" where
  "scale_down a b = (if b = 0 \<or> a < 2 ^ 53 * b then 0 else Suc (scale_down a (2 * b)))"
  by auto
termination by (relation "measure (\<lambda>(a, b). a - b)") auto

declare scale_up.simps [simp del] scale_down.simps [simp del]

text \<open>The double next to \<open>a / b\<close>: mantissa and exponent.\<close>

definition to_double :: "nat \<Rightarrow> nat \<Rightarrow> nat \<times> int" where
  "to_double a b =
     (let u = scale_up a b; d = scale_down a b
      in (round_half_even (a * 2 ^ u) (b * 2 ^ d), int d - int u))"

definition float_times :: "nat \<times> int \<Rightarrow> nat \<Rightarrow> nat \<times> int" where
  "float_times x n = (case x of (m, e) \<Rightarrow> (case to_double (m * n) 1 of (m', e') \<Rightarrow> (m', e + e')))"

definition float_to_int :: "nat \<times> int \<Rightarrow> int" where
  "float_to_int x =
     (case x of (m, e) \<Rightarrow> if 0 \<le> e then int (m * 2 ^ nat e) else int (m div 2 ^ nat (- e)))"

section \<open>Facts\<close>

lemma round_half_even_exact: "0 < b \<Longrightarrow> round_half_even (c * b) b = c"
  by (simp add: round_half_even_def)

lemma round_half_even_le:
  assumes "a \<le> c * b" "0 < b"
  shows "round_half_even a b \<le> c"
proof (cases "a = c * b")
  case True
  then show ?thesis using assms(2) by (simp add: round_half_even_exact)
next
  case False
  with assms have "a div b < c" by (simp add: less_mult_imp_div_less)
  then show ?thesis by (simp add: round_half_even_def Let_def)
qed

lemma round_half_even_ge:
  assumes "c * b \<le> a" "0 < b"
  shows "c \<le> round_half_even a b"
proof -
  have "c \<le> a div b" using assms by (simp add: less_eq_div_iff_mult_less_eq)
  then show ?thesis by (simp add: round_half_even_def Let_def)
qed

lemma scale_up_reaches: "0 < a \<Longrightarrow> 2 ^ 52 * b \<le> a * 2 ^ scale_up a b"
proof (induction a b rule: scale_up.induct)
  case (1 a b)
  show ?case
  proof (cases "2 ^ 52 * b \<le> a")
    case True
    then show ?thesis by (simp add: scale_up.simps)
  next
    case False
    with 1 have "2 ^ 52 * b \<le> 2 * a * 2 ^ scale_up (2 * a) b" by simp
    moreover have "scale_up a b = Suc (scale_up (2 * a) b)" using False 1(2) by (subst scale_up.simps) simp
    ultimately show ?thesis by (simp add: mult_ac)
  qed
qed

lemma scale_up_bound: "a < 2 ^ 53 * b \<Longrightarrow> a * 2 ^ scale_up a b < 2 ^ 53 * b"
proof (induction a b rule: scale_up.induct)
  case (1 a b)
  show ?case
  proof (cases "a = 0 \<or> 2 ^ 52 * b \<le> a")
    case True
    then show ?thesis using 1(2) by (subst scale_up.simps) simp
  next
    case False
    then have "2 * a * 2 ^ scale_up (2 * a) b < 2 ^ 53 * b" using 1(1) by simp
    moreover have "scale_up a b = Suc (scale_up (2 * a) b)" using False by (subst scale_up.simps) simp
    ultimately show ?thesis by (simp add: mult_ac)
  qed
qed

lemma scale_up_none: "2 ^ 52 * b \<le> a \<Longrightarrow> scale_up a b = 0"
  by (simp add: scale_up.simps)

lemma scale_down_none: "a < 2 ^ 53 * b \<Longrightarrow> scale_down a b = 0"
  by (simp add: scale_down.simps)

lemma scale_down_le: "a < 2 ^ 53 * (b * 2 ^ k) \<Longrightarrow> scale_down a b \<le> k"
proof (induction a b arbitrary: k rule: scale_down.induct)
  case (1 a b)
  show ?case
  proof (cases "b = 0 \<or> a < 2 ^ 53 * b")
    case True
    then show ?thesis by (subst scale_down.simps) auto
  next
    case False
    then obtain k' where k: "k = Suc k'" using 1(2) by (cases k) auto
    with 1 False have "scale_down a (2 * b) \<le> k'" by (simp add: mult_ac)
    then show ?thesis using False k by (subst scale_down.simps) auto
  qed
qed

lemma scale_up_self: "0 < n \<Longrightarrow> scale_up n n = 52"
proof -
  have "k \<le> 52 \<Longrightarrow> 0 < n \<Longrightarrow> scale_up (2 ^ (52 - k) * n) n = k" for k :: nat
  proof (induction k)
    case 0
    then show ?case by (simp add: scale_up_none)
  next
    case (Suc k)
    have "(2::nat) ^ (52 - Suc k) < 2 ^ 52" by (rule power_strict_increasing) simp_all
    then have "2 ^ (52 - Suc k) * n < 2 ^ 52 * n" using Suc.prems by simp
    then have "scale_up (2 ^ (52 - Suc k) * n) n = Suc (scale_up (2 * (2 ^ (52 - Suc k) * n)) n)"
      using Suc.prems by (subst scale_up.simps) simp
    also have "2 * (2 ^ (52 - Suc k) * n) = 2 ^ (52 - k) * n"
      using Suc.prems by (simp add: power_Suc [symmetric] Suc_diff_Suc mult.assoc [symmetric] del: power_Suc)
    finally have "scale_up (2 ^ (52 - Suc k) * n) n = Suc (scale_up (2 ^ (52 - k) * n) n)" .
    with Suc show ?case by simp
  qed
  from this [of 52] show "0 < n \<Longrightarrow> scale_up n n = 52" by simp
qed

section \<open>A part of a whole in percent\<close>

text \<open>\<open>int(i / n * 100)\<close>.\<close>

definition percent :: "nat \<Rightarrow> nat \<Rightarrow> int" where
  "percent i n = float_to_int (float_times (to_double i n) 100)"

text \<open>
  The mantissa of \<open>i / n\<close> after scaling by \<open>u\<close>, the shift of the product, and the result.
\<close>

lemma percent_eq:
  assumes "0 < i" "i \<le> n"
  obtains u m d where "52 \<le> u" "m \<le> 2 ^ u" "2 ^ 52 \<le> m" "d \<le> 7" "i = n \<longrightarrow> u = 52 \<and> m = 2 ^ 52"
    "percent i n = int (round_half_even (m * 100) (2 ^ d) div 2 ^ (u - d))"
proof -
  define u where "u = scale_up i n"
  define m where "m = round_half_even (i * 2 ^ u) n"
  define d where "d = scale_down (m * 100) 1"
  have n: "0 < n" using assms by simp
  have reach: "2 ^ 52 * n \<le> i * 2 ^ u" unfolding u_def using assms by (intro scale_up_reaches)
  have "i < 2 ^ 53 * n" using assms by simp
  then have x: "to_double i n = (m, - int u)"
    by (simp add: to_double_def scale_down_none u_def m_def Let_def)
  have mu: "m \<le> 2 ^ u" unfolding m_def using assms n by (intro round_half_even_le) auto
  have ml: "2 ^ 52 \<le> m" unfolding m_def using reach n by (intro round_half_even_ge) auto
  have "(2::nat) ^ 52 \<le> 2 ^ u" using ml mu by linarith
  then have u52: "52 \<le> u" by (rule power_le_imp_le_exp [rotated]) simp
  have m53: "m \<le> 2 ^ 53"
    unfolding m_def using scale_up_bound [OF \<open>i < 2 ^ 53 * n\<close>] n by (intro round_half_even_le) (auto simp: u_def)
  then have d7: "d \<le> 7" unfolding d_def by (intro scale_down_le) simp
  have self: "i = n \<longrightarrow> u = 52 \<and> m = 2 ^ 52"
    using n by (simp add: u_def m_def scale_up_self mult.commute [of n] round_half_even_exact)
  have "to_double (m * 100) 1 = (round_half_even (m * 100) (2 ^ d), int d)"
    using ml by (simp add: to_double_def scale_up_none d_def Let_def)
  then have "percent i n = float_to_int (round_half_even (m * 100) (2 ^ d), int d - int u)"
    by (simp add: percent_def float_times_def x)
  moreover have "int d - int u < 0" "nat (int u - int d) = u - d" using d7 u52 by auto
  ultimately have "percent i n = int (round_half_even (m * 100) (2 ^ d) div 2 ^ (u - d))"
    by (simp add: float_to_int_def)
  then show thesis using that u52 mu ml d7 self by blast
qed

lemma percent_bounds: "0 < i \<Longrightarrow> i \<le> n \<Longrightarrow> 0 \<le> percent i n \<and> percent i n \<le> 100"
proof -
  assume "0 < i" "i \<le> n"
  then obtain u m d where f: "52 \<le> u" "m \<le> 2 ^ u" "d \<le> 7"
    "percent i n = int (round_half_even (m * 100) (2 ^ d) div 2 ^ (u - d))" by (rule percent_eq)
  have "(2::nat) ^ u = 2 ^ (u - d) * 2 ^ d" using f by (simp add: power_add [symmetric])
  then have "m * 100 \<le> 100 * 2 ^ (u - d) * 2 ^ d" using f(2) by simp
  then have "round_half_even (m * 100) (2 ^ d) \<le> 100 * 2 ^ (u - d)" by (rule round_half_even_le) simp
  then have "round_half_even (m * 100) (2 ^ d) div 2 ^ (u - d) \<le> 100"
    by (metis div_le_mono nonzero_mult_div_cancel_right power_not_zero zero_neq_numeral)
  with f(4) show ?thesis by simp
qed

lemma percent_all: "0 < n \<Longrightarrow> percent n n = 100"
proof -
  assume "0 < n"
  then obtain u m d where f: "d \<le> 7" "n = n \<longrightarrow> u = 52 \<and> m = 2 ^ 52"
    "percent n n = int (round_half_even (m * 100) (2 ^ d) div 2 ^ (u - d))"
    by (rule percent_eq [of n n]) simp_all
  then have f23: "u = 52" "m = 2 ^ 52" by auto
  have "(2::nat) ^ 52 = 2 ^ (52 - d) * 2 ^ d" using f(1) by (simp add: power_add [symmetric])
  then have "m * 100 = 100 * 2 ^ (52 - d) * 2 ^ d" using f23 by (simp add: mult_ac)
  then have "round_half_even (m * 100) (2 ^ d) = 100 * 2 ^ (u - d)"
    unfolding f23(1) by (simp only: round_half_even_exact zero_less_power zero_less_numeral)
  with f(3) show ?thesis by simp
qed

end
