(* ===== verification/Greeter.thy ===== *)
theory Greeter
  imports FakeExecutor HttpApi PyFloat
begin

text \<open>
  The minimal greeter (\<open>examples/01-minimal-greeter/app.py\<close>): \<open>GreeterExecutor\<close>, which derives
  from the fake executor and has a \<open>_run\<close> of its own, its two routes and its wiring. The tables,
  \<open>submit_task\<close>, \<open>request_cancellation\<close> and \<open>_emit\<close> are those of theory FakeExecutor. \<open>str_of\<close>
  is Python's \<open>str\<close> on values that are no strings.
\<close>

section \<open>The coroutine\<close>

text \<open>The program counter holds the local variables \<open>name\<close> and \<open>i\<close>.\<close>

datatype greeter_pc =
    GP_Begin
  | GP_Status json
  | GP_EmitStarted json
  | GP_Loop json nat
  | GP_Sleep json nat
  | GP_CancelStatus nat
  | GP_CancelEmit nat
  | GP_CompleteStatus json
  | GP_CompleteEmit json

type_synonym ('r, 'v, 'p, 'c) greeter_world = "('r, 'v, 'p, 'c, greeter_pc executor_state) world"

definition format_value :: "(json \<Rightarrow> string) \<Rightarrow> json \<Rightarrow> string" where
  "format_value str_of v = (case v of JStr s \<Rightarrow> s | _ \<Rightarrow> str_of v)"

definition greeting_name :: "task_record \<Rightarrow> json" where
  "greeting_name task =
     (case dict_get (tr_input_payload task) ''name'' of None \<Rightarrow> JStr ''Stranger'' | Some v \<Rightarrow> v)"

definition started_payload :: "string \<Rightarrow> jdict" where
  "started_payload name = message_payload (''Starting to greet '' @ name @ ''...'')"

definition warm_words_payload :: "nat \<Rightarrow> nat \<Rightarrow> string \<Rightarrow> jdict" where
  "warm_words_payload i ticks name =
     [(''progress'', JInt (percent (i + 1) ticks)),
      (''message'', JStr (''Preparing warm words for '' @ name @ ''...''))]"

definition hello_payload :: "string \<Rightarrow> jdict" where
  "hello_payload name = message_payload (''Hello, '' @ name @ ''! Have a great day with TaskBridge!'')"

fun greeter_await ::
  "('r, 'v) fake_config \<Rightarrow> (json \<Rightarrow> string) \<Rightarrow> datetime \<Rightarrow> string \<Rightarrow> greeter_pc
    \<Rightarrow> ('r, 'v, 'p, 'c) greeter_world \<Rightarrow> (exc + greeter_pc option) \<times> ('r, 'v, 'p, 'c) greeter_world" where
  "greeter_await cfg str_of now tid GP_Begin w =
     (case reg_get_task (fc_registry cfg) tid (w_registry w) of
        Inl e \<Rightarrow> (Inl e, w)
      | Inr task \<Rightarrow> (Inr (Some (GP_Status (greeting_name task))), w))"
| "greeter_await cfg str_of now tid (GP_Status name) w =
     and_then (fake_status cfg now tid RUNNING w) (\<lambda>_ w1. (Inr (Some (GP_EmitStarted name)), w1))"
| "greeter_await cfg str_of now tid (GP_EmitStarted name) w =
     and_then (fake_emit cfg now tid TASK_STARTED (started_payload (format_value str_of name)) w)
       (\<lambda>_ w1. (Inr (Some (GP_Loop name 0)), w1))"
| "greeter_await cfg str_of now tid (GP_Loop name i) w =
     (if i < fc_progress_ticks cfg
      then if tid \<in> set (fx_cancel_requested (w_host w))
           then (Inr (Some (GP_CancelStatus i)), w)
           else (Inr (Some (GP_Sleep name i)), w)
      else (Inr (Some (GP_CompleteStatus name)), w))"
| "greeter_await cfg str_of now tid (GP_Sleep name i) w =
     and_then (fake_emit cfg now tid TASK_PROGRESS
                 (warm_words_payload i (fc_progress_ticks cfg) (format_value str_of name)) w)
       (\<lambda>_ w1. (Inr (Some (GP_Loop name (Suc i))), w1))"
| "greeter_await cfg str_of now tid (GP_CancelStatus i) w =
     and_then (fake_status cfg now tid CANCELLED w) (\<lambda>_ w1. (Inr (Some (GP_CancelEmit i)), w1))"
| "greeter_await cfg str_of now tid (GP_CancelEmit i) w =
     and_then (fake_emit cfg now tid TASK_CANCELLED (message_payload ''cancelled'') w)
       (\<lambda>_ w1. (Inr None, w1))"
| "greeter_await cfg str_of now tid (GP_CompleteStatus name) w =
     and_then (fake_status cfg now tid COMPLETED w) (\<lambda>_ w1. (Inr (Some (GP_CompleteEmit name)), w1))"
| "greeter_await cfg str_of now tid (GP_CompleteEmit name) w =
     and_then (fake_emit cfg now tid TASK_COMPLETED (hello_payload (format_value str_of name)) w)
       (\<lambda>_ w1. (Inr None, w1))"

definition greeter_step ::
  "('r, 'v) fake_config \<Rightarrow> (json \<Rightarrow> string) \<Rightarrow> datetime \<Rightarrow> string
    \<Rightarrow> ('r, 'v, 'p, 'c) greeter_world \<Rightarrow> ('r, 'v, 'p, 'c) greeter_world" where
  "greeter_step cfg str_of now tid w =
     (case dict_get (fx_tasks (w_host w)) tid of
        None \<Rightarrow> w
      | Some pc \<Rightarrow>
          (case greeter_await cfg str_of now tid pc w of
             (Inr (Some pc'), w1) \<Rightarrow> set_pc tid pc' w1
           | (_, w1) \<Rightarrow> pop_task tid w1))"

fun greeter_run ::
  "('r, 'v) fake_config \<Rightarrow> (json \<Rightarrow> string) \<Rightarrow> datetime \<Rightarrow> string \<Rightarrow> nat
    \<Rightarrow> ('r, 'v, 'p, 'c) greeter_world \<Rightarrow> ('r, 'v, 'p, 'c) greeter_world" where
  "greeter_run cfg str_of now tid 0 w = w"
| "greeter_run cfg str_of now tid (Suc n) w =
     greeter_run cfg str_of now tid n (greeter_step cfg str_of now tid w)"

definition greeter_executor :: "('r, 'v, 'p, 'c, greeter_pc executor_state) task_executor" where
  "greeter_executor = \<lparr>ex_submit_task = submit_coroutine GP_Begin,
                        ex_request_cancellation = fake_request_cancellation\<rparr>"

section \<open>Wiring and routes\<close>

definition static_auth_context :: auth_context where
  "static_auth_context = \<lparr>ac_subject = ''tester'', ac_scopes = {''tasks:all''}, ac_app_id = None, ac_attributes = []\<rparr>"

text \<open>The caller both routes take, and the services they build over the global stores.\<close>

definition route_auth_context :: auth_context where
  "route_auth_context = \<lparr>ac_subject = ''tester'', ac_scopes = {}, ac_app_id = None, ac_attributes = []\<rparr>"

definition greeter_config :: "(task_dict, event_list) fake_config" where
  "greeter_config = \<lparr>fc_registry = greeter_registry, fc_event_store = greeter_event_store,
     fc_progress_ticks = 3, fc_fail_after = None\<rparr>"

definition greeter_creation ::
  "(task_dict, event_list, 'p, 'c, greeter_pc executor_state) task_command_service" where
  "greeter_creation = \<lparr>cs_registry = greeter_registry, cs_executor = greeter_executor,
     cs_ownership_policy = free_for_all_policy\<rparr>"

definition greeter_polling :: "(task_dict, event_list) task_stream_service" where
  "greeter_polling = \<lparr>ps_registry = greeter_registry, ps_event_store = greeter_event_store,
     ps_ownership_policy = free_for_all_policy\<rparr>"

definition greeter_start :: "'p \<Rightarrow> 'c \<Rightarrow> (task_dict, event_list, 'p, 'c) greeter_world" where
  "greeter_start suspensions receipts = \<lparr>w_registry = [], w_events = [], w_suspensions = suspensions,
     w_receipts = receipts, w_host = \<lparr>fx_cancel_requested = [], fx_event_seq = [], fx_tasks = []\<rparr>, w_metrics = []\<rparr>"

definition greeter_command :: "http_task_create_request \<Rightarrow> auth_context \<Rightarrow> task_create_command" where
  "greeter_command request auth = \<lparr>cc_client_request_id = hc_client_request_id request,
     cc_task_type = hc_task_type request, cc_input_payload = hc_input_payload request,
     cc_metadata = hc_metadata request, cc_attachments = [], cc_auth_context = auth\<rparr>"

definition greeter_create_task ::
  "datetime \<Rightarrow> datetime \<Rightarrow> string \<Rightarrow> http_task_create_request \<Rightarrow> (task_dict, event_list, 'p, 'c) greeter_world
    \<Rightarrow> (exc + task_created_result) \<times> (task_dict, event_list, 'p, 'c) greeter_world" where
  "greeter_create_task now now_failed uuid request w =
     create_task greeter_creation now now_failed uuid (greeter_command request route_auth_context) w"

definition greeter_poll_events ::
  "string \<Rightarrow> string option \<Rightarrow> int \<Rightarrow> int \<Rightarrow> (task_dict, event_list, 'p, 'c) greeter_world
    \<Rightarrow> (exc + poll_events_result) \<times> (task_dict, event_list, 'p, 'c) greeter_world" where
  "greeter_poll_events task_id after_event_id limit wait_timeout_ms w =
     handle_http_polling greeter_polling task_id route_auth_context after_event_id limit wait_timeout_ms w"

end
