(* ===== verification/GreeterProperties.thy ===== *)
theory GreeterProperties
  imports Greeter FakeSystem
begin

text \<open>
  The greeter as a system: what its routes and its coroutines can reach in any interleaving, the
  log of a greeted task in every such world, and what a client that polls it receives.
\<close>

section \<open>Reachable worlds\<close>

text \<open>The wired host, with any number of ticks; \<open>uuid4\<close> returns ids that are not in use.\<close>

definition greeter_host :: "nat \<Rightarrow> (task_dict, event_list) fake_config" where
  "greeter_host ticks = greeter_config\<lparr>fc_progress_ticks := ticks\<rparr>"

type_synonym ('p, 'c) wired_world = "(task_dict, event_list, 'p, 'c) greeter_world"

inductive greeter_reachable :: "nat \<Rightarrow> (json \<Rightarrow> string) \<Rightarrow> ('p, 'c) wired_world \<Rightarrow> bool" for ticks str_of where
  start: "greeter_reachable ticks str_of (greeter_start suspensions receipts)"
| create: "greeter_reachable ticks str_of w \<Longrightarrow> dict_get (w_registry w) uuid = None
    \<Longrightarrow> greeter_create_task now nowf uuid request w = (res, w') \<Longrightarrow> greeter_reachable ticks str_of w'"
| poll: "greeter_reachable ticks str_of w \<Longrightarrow> greeter_poll_events tid after limit timeout w = (polled, w')
    \<Longrightarrow> greeter_reachable ticks str_of w'"
| cancel: "greeter_reachable ticks str_of w \<Longrightarrow> fake_request_cancellation task w = (r, w')
    \<Longrightarrow> greeter_reachable ticks str_of w'"
| run: "greeter_reachable ticks str_of w
    \<Longrightarrow> greeter_reachable ticks str_of (greeter_step (greeter_host ticks) str_of now tid w)"

section \<open>The log of a task\<close>

definition entry :: "task_event \<Rightarrow> task_event_type \<times> jdict" where
  "entry e = (ev_type e, ev_payload e)"

definition said :: "nat \<Rightarrow> string \<Rightarrow> nat \<Rightarrow> (task_event_type \<times> jdict) list" where
  "said ticks name k = (TASK_STARTED, started_payload name)
     # map (\<lambda>i. (TASK_PROGRESS, warm_words_payload i ticks name)) [0..<k]"

text \<open>The events, the status and the name that go with a program counter.\<close>

fun pc_said :: "nat \<Rightarrow> string \<Rightarrow> greeter_pc \<Rightarrow> (task_event_type \<times> jdict) list" where
  "pc_said ticks name (GP_Loop _ k) = said ticks name k"
| "pc_said ticks name (GP_Sleep _ k) = said ticks name k"
| "pc_said ticks name (GP_CancelStatus k) = said ticks name k"
| "pc_said ticks name (GP_CancelEmit k) = said ticks name k"
| "pc_said ticks name (GP_CompleteStatus _) = said ticks name ticks"
| "pc_said ticks name (GP_CompleteEmit _) = said ticks name ticks"
| "pc_said ticks name _ = []"

fun greeter_status :: "greeter_pc \<Rightarrow> task_status" where
  "greeter_status GP_Begin = ACCEPTED"
| "greeter_status (GP_Status _) = ACCEPTED"
| "greeter_status (GP_CancelEmit _) = CANCELLED"
| "greeter_status (GP_CompleteEmit _) = COMPLETED"
| "greeter_status _ = RUNNING"

fun greeter_pc_ok :: "nat \<Rightarrow> json \<Rightarrow> greeter_pc \<Rightarrow> bool" where
  "greeter_pc_ok ticks name (GP_Status n) \<longleftrightarrow> n = name"
| "greeter_pc_ok ticks name (GP_EmitStarted n) \<longleftrightarrow> n = name"
| "greeter_pc_ok ticks name (GP_Loop n k) \<longleftrightarrow> n = name \<and> k \<le> ticks"
| "greeter_pc_ok ticks name (GP_Sleep n k) \<longleftrightarrow> n = name \<and> k < ticks"
| "greeter_pc_ok ticks name (GP_CancelStatus k) \<longleftrightarrow> k < ticks"
| "greeter_pc_ok ticks name (GP_CancelEmit k) \<longleftrightarrow> k < ticks"
| "greeter_pc_ok ticks name (GP_CompleteStatus n) \<longleftrightarrow> n = name"
| "greeter_pc_ok ticks name (GP_CompleteEmit n) \<longleftrightarrow> n = name"
| "greeter_pc_ok ticks name GP_Begin \<longleftrightarrow> True"

definition greeted :: "nat \<Rightarrow> string \<Rightarrow> task_status \<Rightarrow> (task_event_type \<times> jdict) list \<Rightarrow> bool" where
  "greeted ticks name st evs \<longleftrightarrow>
     st = COMPLETED \<and> evs = said ticks name ticks @ [(TASK_COMPLETED, hello_payload name)]
   \<or> st = CANCELLED \<and> (\<exists>k < ticks. evs = said ticks name k @ [(TASK_CANCELLED, message_payload ''cancelled'')])"

definition greeter_task_inv ::
  "nat \<Rightarrow> (json \<Rightarrow> string) \<Rightarrow> task_record option \<Rightarrow> task_event list \<Rightarrow> nat \<Rightarrow> greeter_pc option \<Rightarrow> bool" where
  "greeter_task_inv ticks str_of task evs seq pc \<longleftrightarrow>
     ids_consecutive evs \<and> seq = length evs
     \<and> (case task of
          None \<Rightarrow> evs = [] \<and> pc = None
        | Some t \<Rightarrow>
            (case pc of
               Some q \<Rightarrow> greeter_pc_ok ticks (greeting_name t) q \<and> tr_status t = greeter_status q
                 \<and> map entry evs = pc_said ticks (format_value str_of (greeting_name t)) q
             | None \<Rightarrow> greeted ticks (format_value str_of (greeting_name t)) (tr_status t) (map entry evs)))"

definition greeter_inv :: "nat \<Rightarrow> (json \<Rightarrow> string) \<Rightarrow> ('p, 'c) wired_world \<Rightarrow> bool" where
  "greeter_inv ticks str_of w \<longleftrightarrow> tasks_valid (w_registry w)
     \<and> (\<forall>tid. greeter_task_inv ticks str_of (dict_get (w_registry w) tid) (task_events (w_events w) tid)
                (fake_seq w tid) (dict_get (fx_tasks (w_host w)) tid))"

section \<open>One step\<close>

lemma greeter_emit:
  "fake_emit (greeter_host ticks) now tid ty p w =
    (let e = \<lparr>ev_type = ty, ev_task_id = tid, ev_event_id = seq_event_id (Suc (fake_seq w tid)),
              ev_created_at = now, ev_payload = p\<rparr>
     in (Inr e, w\<lparr>w_host := (w_host w)\<lparr>fx_event_seq :=
                     dict_set (fx_event_seq (w_host w)) tid (Suc (fake_seq w tid))\<rparr>,
                  w_events := w_events w @ [e]\<rparr>))"
  by (simp add: fake_emit_def fake_seq_def seq_event_id_def on_events_def greeter_host_def greeter_config_def
      greeter_event_store_def greeter_append_event_def Let_def)

lemma greeter_set_status:
  "dict_get (w_registry w) tid = Some t \<Longrightarrow>
    fake_status (greeter_host ticks) now tid st w =
      (Inr (t\<lparr>tr_status := st, tr_updated_at := now\<rparr>),
       w\<lparr>w_registry := dict_set (w_registry w) tid (t\<lparr>tr_status := st, tr_updated_at := now\<rparr>)\<rparr>)"
  by (simp add: fake_status_def on_registry_def greeter_host_def greeter_config_def greeter_registry_def
      greeter_update_task_status_def Let_def)

lemma greeter_lookup:
  "dict_get (w_registry w) tid = Some t \<Longrightarrow> reg_get_task (fc_registry (greeter_host ticks)) tid (w_registry w) = Inr t"
  by (simp add: greeter_host_def greeter_config_def greeter_registry_def demo_get_task_def)

lemma greeter_ticks [simp]: "fc_progress_ticks (greeter_host ticks) = ticks"
  by (simp add: greeter_host_def)

lemma greeting_name_update [simp]: "greeting_name (t\<lparr>tr_status := st, tr_updated_at := now\<rparr>) = greeting_name t"
  by (simp add: greeting_name_def)

lemma said_Suc: "said ticks name k @ [(TASK_PROGRESS, warm_words_payload k ticks name)] = said ticks name (Suc k)"
  by (simp add: said_def)

lemma said_zero: "said ticks name 0 = [(TASK_STARTED, started_payload name)]"
  by (simp add: said_def)

lemmas greeter_step_simps = greeter_step_def greeter_emit set_pc_def pop_task_def fake_seq_def dict_simps
  task_events_append Let_def

lemma greeter_step_other:
  assumes "tid' \<noteq> tid" "dict_get (fx_tasks (w_host w)) tid = Some pc" "dict_get (w_registry w) tid = Some t"
  shows "dict_get (w_registry (greeter_step (greeter_host ticks) str_of now tid w)) tid' = dict_get (w_registry w) tid'
    \<and> task_events (w_events (greeter_step (greeter_host ticks) str_of now tid w)) tid' = task_events (w_events w) tid'
    \<and> fake_seq (greeter_step (greeter_host ticks) str_of now tid w) tid' = fake_seq w tid'
    \<and> dict_get (fx_tasks (w_host (greeter_step (greeter_host ticks) str_of now tid w))) tid'
      = dict_get (fx_tasks (w_host w)) tid'"
  using assms(1,2)
  by (cases pc)
    (simp_all add: greeter_step_simps greeter_set_status [OF assms(3)] greeter_lookup [OF assms(3)] split: if_splits)

lemma greeter_step_self:
  assumes pc: "dict_get (fx_tasks (w_host w)) tid = Some pc"
    and inv: "greeter_task_inv ticks str_of (dict_get (w_registry w) tid) (task_events (w_events w) tid)
      (fake_seq w tid) (Some pc)"
  shows "greeter_task_inv ticks str_of (dict_get (w_registry (greeter_step (greeter_host ticks) str_of now tid w)) tid)
    (task_events (w_events (greeter_step (greeter_host ticks) str_of now tid w)) tid)
    (fake_seq (greeter_step (greeter_host ticks) str_of now tid w) tid)
    (dict_get (fx_tasks (w_host (greeter_step (greeter_host ticks) str_of now tid w))) tid)"
proof -
  from inv obtain t where t: "dict_get (w_registry w) tid = Some t"
    "greeter_pc_ok ticks (greeting_name t) pc" "tr_status t = greeter_status pc"
    "map entry (task_events (w_events w) tid) = pc_said ticks (format_value str_of (greeting_name t)) pc"
    "ids_consecutive (task_events (w_events w) tid)"
    "fake_seq w tid = length (task_events (w_events w) tid)"
    by (auto simp: greeter_task_inv_def split: option.splits)
  show ?thesis
    using t(2-) pc
    by (cases pc)
      (auto simp: greeter_step_simps greeter_set_status [OF t(1)] greeter_lookup [OF t(1)] greeter_task_inv_def t(1)
        ids_consecutive_append ids_consecutive_single greeted_def said_Suc entry_def said_zero
        split: if_splits)
qed

section \<open>The invariant holds in every reachable world\<close>

lemma greeter_inv_task:
  "greeter_inv ticks str_of w \<Longrightarrow> greeter_task_inv ticks str_of (dict_get (w_registry w) tid)
    (task_events (w_events w) tid) (fake_seq w tid) (dict_get (fx_tasks (w_host w)) tid)"
  by (simp add: greeter_inv_def)

lemma greeter_step_valid:
  assumes "tasks_valid (w_registry w)" "dict_get (w_registry w) tid = Some t"
    and "dict_get (fx_tasks (w_host w)) tid = Some pc"
  shows "tasks_valid (w_registry (greeter_step (greeter_host ticks) str_of now tid w))"
proof -
  have "tr_task_id t = tid" using assms(1,2) by (simp add: tasks_valid_def)
  then have "tasks_valid (dict_set (w_registry w) tid (t\<lparr>tr_status := st, tr_updated_at := now\<rparr>))" for st
    using assms(1) by (intro tasks_valid_set) simp_all
  with assms(1,3) show ?thesis
    by (cases pc)
      (auto simp: greeter_step_simps greeter_set_status [OF assms(2)] greeter_lookup [OF assms(2)] split: if_splits)
qed

lemma greeter_inv_run:
  assumes inv: "greeter_inv ticks str_of w"
  shows "greeter_inv ticks str_of (greeter_step (greeter_host ticks) str_of now tid w)"
proof (cases "dict_get (fx_tasks (w_host w)) tid")
  case None
  then show ?thesis using inv by (simp add: greeter_step_def)
next
  case (Some pc)
  note self = greeter_inv_task [OF inv, of tid, unfolded Some]
  then obtain t where t: "dict_get (w_registry w) tid = Some t"
    by (auto simp: greeter_task_inv_def split: option.splits)
  have "greeter_task_inv ticks str_of (dict_get (w_registry (greeter_step (greeter_host ticks) str_of now tid w)) tid')
    (task_events (w_events (greeter_step (greeter_host ticks) str_of now tid w)) tid')
    (fake_seq (greeter_step (greeter_host ticks) str_of now tid w) tid')
    (dict_get (fx_tasks (w_host (greeter_step (greeter_host ticks) str_of now tid w))) tid')" for tid'
  proof (cases "tid' = tid")
    case True
    with greeter_step_self [OF Some self] show ?thesis by simp
  next
    case False
    from greeter_step_other [OF this Some t, of ticks str_of now] greeter_inv_task [OF inv] show ?thesis by simp
  qed
  then show ?thesis
    using greeter_step_valid [OF _ t Some] inv by (simp add: greeter_inv_def)
qed

text \<open>Creating and polling a task: the stores and the tables after the routes.\<close>

lemma greeter_create_effect:
  assumes "greeter_create_task now nowf uuid request w = (res, w')"
    and "dict_get (fx_tasks (w_host w)) uuid = None"
  shows "(w_registry w' = w_registry w \<and> w_events w' = w_events w \<and> w_host w' = w_host w)
    \<or> (w_registry w' = dict_set (w_registry w) uuid (from_command now uuid (greeter_command request route_auth_context))
      \<and> w_events w' = w_events w
      \<and> w_host w' = (w_host w)\<lparr>fx_tasks := dict_set (fx_tasks (w_host w)) uuid GP_Begin\<rparr>)"
proof -
  let ?c = "greeter_command request route_auth_context"
  have "create_task greeter_creation now nowf uuid ?c w = (res, w')" using assms(1) by (simp add: greeter_create_task_def)
  then have "(w_registry w' = w_registry w \<and> w_events w' = w_events w \<and> w_host w' = w_host w)
      \<or> create_task_submit greeter_creation now nowf uuid ?c w = (res, w')"
    by (auto simp: create_task_def create_task_check_def split: sum.splits option.splits if_splits effect_splits)
  then show ?thesis
  proof
    assume "create_task_submit greeter_creation now nowf uuid ?c w = (res, w')"
    with assms(2) show ?thesis
      by (auto simp: create_task_submit_def greeter_creation_def on_registry_def greeter_registry_def demo_create_task_def
        greeter_executor_def submit_coroutine_def set_pc_def from_command_def increment_counter_def)
  qed simp
qed

lemma poll_keeps: "greeter_poll_events tid after limit timeout w = (polled, w') \<Longrightarrow>
    w_registry w' = w_registry w \<and> w_events w' = w_events w \<and> w_host w' = w_host w"
  by (auto simp: greeter_poll_events_def handle_http_polling_def poll_events_def increment_counter_def
      split: sum.splits option.splits if_splits effect_splits)

lemma greeter_inv_same:
  "greeter_inv ticks str_of w \<Longrightarrow> w_registry w' = w_registry w \<Longrightarrow> w_events w' = w_events w \<Longrightarrow>
    fx_event_seq (w_host w') = fx_event_seq (w_host w) \<Longrightarrow> fx_tasks (w_host w') = fx_tasks (w_host w)
    \<Longrightarrow> greeter_inv ticks str_of w'"
  by (simp add: greeter_inv_def fake_seq_def)

lemma greeter_reachable_inv: "greeter_reachable ticks str_of w \<Longrightarrow> greeter_inv ticks str_of w"
proof (induction rule: greeter_reachable.induct)
  case (start suspensions receipts)
  show ?case
    by (simp add: greeter_inv_def greeter_start_def tasks_valid_empty greeter_task_inv_def ids_consecutive_def
        fake_seq_def task_events_def dict_simps)
next
  case (create w uuid now nowf request res w')
  note inv = greeter_inv_task [OF create.IH, of uuid]
  from inv create(2) have none: "dict_get (fx_tasks (w_host w)) uuid = None" "task_events (w_events w) uuid = []"
    by (simp_all add: greeter_task_inv_def)
  from greeter_create_effect [OF create(3) none(1)] show ?case
  proof (elim disjE conjE)
    assume "w_registry w' = w_registry w" "w_events w' = w_events w" "w_host w' = w_host w"
    with create.IH show ?thesis by (auto intro: greeter_inv_same)
  next
    assume "w_registry w' = dict_set (w_registry w) uuid (from_command now uuid (greeter_command request route_auth_context))"
      "w_events w' = w_events w" "w_host w' = (w_host w)\<lparr>fx_tasks := dict_set (fx_tasks (w_host w)) uuid GP_Begin\<rparr>"
    with create.IH none(2) show ?thesis
      by (auto simp: greeter_inv_def fake_seq_def dict_simps greeter_task_inv_def from_command_def
          intro!: tasks_valid_set)
  qed
next
  case (poll w tid after limit timeout polled w')
  from poll_keeps [OF poll(2)] poll.IH show ?case by (auto intro: greeter_inv_same)
next
  case (cancel w task r w')
  then have "w' = w\<lparr>w_host := (w_host w)\<lparr>fx_cancel_requested :=
      List.insert (tr_task_id task) (fx_cancel_requested (w_host w))\<rparr>\<rparr>" by (simp add: fake_request_cancellation_def)
  with cancel.IH show ?case by (auto intro: greeter_inv_same)
next
  case (run w now tid)
  then show ?case by (intro greeter_inv_run)
qed

section \<open>What the log holds\<close>

text \<open>Every list of entries a log can be has few entries, and its progress is that of a tick.\<close>

definition log_shape :: "nat \<Rightarrow> (task_event_type \<times> jdict) list \<Rightarrow> bool" where
  "log_shape ticks L \<longleftrightarrow> length L \<le> ticks + 2
     \<and> (\<forall>p. (TASK_PROGRESS, p) \<in> set L \<longrightarrow> (\<exists>i < ticks. \<exists>name. p = warm_words_payload i ticks name))"

lemma log_shapes:
  "log_shape ticks []"
  "k \<le> ticks \<Longrightarrow> log_shape ticks (said ticks name k)"
  "k \<le> ticks \<Longrightarrow> ty \<noteq> TASK_PROGRESS \<Longrightarrow> log_shape ticks (said ticks name k @ [(ty, q)])"
  using order_less_le_trans [of _ k ticks] by (auto simp: log_shape_def said_def; blast)+

lemma greeted_shape: "greeted ticks name st L \<Longrightarrow> log_shape ticks L"
  unfolding greeted_def by (elim disjE conjE exE) (simp_all add: log_shapes)

lemma pc_said_shape: "greeter_pc_ok ticks n pc \<Longrightarrow> log_shape ticks (pc_said ticks name pc)"
  by (cases pc) (simp_all add: log_shapes)

lemma greeter_log:
  assumes "greeter_inv ticks str_of w"
  shows "ids_consecutive (task_events (w_events w) tid)"
    and "log_shape ticks (map entry (task_events (w_events w) tid))"
  using greeter_inv_task [OF assms, of tid]
  by (auto simp: greeter_task_inv_def log_shapes greeted_shape intro: pc_said_shape split: option.splits)

text \<open>Up to nine events the ids compare as strings as they do as numbers.\<close>

lemma seq_ids_textual:
  assumes "m < n" "n < 10"
  shows "seq_event_id n > seq_event_id m"
proof -
  have "\<forall>n \<in> set [0..<10]. \<forall>m \<in> set [0..<n]. seq_event_id n > seq_event_id m" by code_simp
  with assms show ?thesis by simp
qed

lemma greeter_ordered:
  assumes "greeter_inv ticks str_of w" "ticks \<le> 7"
  shows "ordered_by (\<lambda>a b. a > b) (\<lambda>a. True) (w_events w)"
proof -
  have "sorted_wrt (\<lambda>e f. ev_event_id f > ev_event_id e) (task_events (w_events w) tid)" for tid
  proof -
    let ?evs = "task_events (w_events w) tid"
    have "map ev_event_id ?evs = map seq_event_id [1..<Suc (length ?evs)]" and "length ?evs \<le> 9"
      using greeter_log [OF assms(1), of tid] assms(2) by (simp_all add: ids_consecutive_def log_shape_def)
    moreover have "sorted_wrt (\<lambda>m n. seq_event_id n > seq_event_id m) [1..<Suc k]" if "k \<le> 9" for k
      using that by (intro sorted_wrt_mono_rel [OF _ sorted_wrt_upt] seq_ids_textual) auto
    ultimately have "sorted_wrt (\<lambda>a b. b > a) (map ev_event_id ?evs)" by (simp only: sorted_wrt_map)
    then show ?thesis by (simp add: sorted_wrt_map)
  qed
  then show ?thesis by (simp add: ordered_by_def)
qed

section \<open>A run ends\<close>

text \<open>How many awaits a coroutine that is not cancelled has left.\<close>

fun greeter_left :: "nat \<Rightarrow> greeter_pc \<Rightarrow> nat" where
  "greeter_left ticks GP_Begin = 2 * ticks + 6"
| "greeter_left ticks (GP_Status _) = 2 * ticks + 5"
| "greeter_left ticks (GP_EmitStarted _) = 2 * ticks + 4"
| "greeter_left ticks (GP_Loop _ k) = 2 * (ticks - k) + 3"
| "greeter_left ticks (GP_Sleep _ k) = 2 * (ticks - k) + 2"
| "greeter_left ticks (GP_CompleteStatus _) = 2"
| "greeter_left ticks (GP_CompleteEmit _) = 1"
| "greeter_left ticks _ = 0"

definition greeting :: "nat \<Rightarrow> string \<Rightarrow> json \<Rightarrow> nat \<Rightarrow> ('p, 'c) wired_world \<Rightarrow> bool" where
  "greeting ticks tid name n w \<longleftrightarrow> tid \<notin> set (fx_cancel_requested (w_host w))
     \<and> (\<exists>t. dict_get (w_registry w) tid = Some t \<and> greeting_name t = name
         \<and> (case dict_get (fx_tasks (w_host w)) tid of
              Some pc \<Rightarrow> greeter_pc_ok ticks name pc \<and> tr_status t = greeter_status pc
                \<and> 0 < greeter_left ticks pc \<and> greeter_left ticks pc \<le> n
            | None \<Rightarrow> tr_status t = COMPLETED))"

lemma greeting_step: "greeting ticks tid name (Suc n) w \<Longrightarrow> greeting ticks tid name n (greeter_step (greeter_host ticks) str_of now tid w)"
proof -
  assume g: "greeting ticks tid name (Suc n) w"
  then obtain t where t: "tid \<notin> set (fx_cancel_requested (w_host w))" "dict_get (w_registry w) tid = Some t"
    "greeting_name t = name" "case dict_get (fx_tasks (w_host w)) tid of
       Some pc \<Rightarrow> greeter_pc_ok ticks name pc \<and> tr_status t = greeter_status pc
         \<and> 0 < greeter_left ticks pc \<and> greeter_left ticks pc \<le> Suc n
     | None \<Rightarrow> tr_status t = COMPLETED" by (auto simp: greeting_def)
  show ?thesis
  proof (cases "dict_get (fx_tasks (w_host w)) tid")
    case None
    with t show ?thesis by (simp add: greeting_def greeter_step_def)
  next
    case (Some pc)
    with t show ?thesis
      by (cases pc)
        (auto simp: greeter_step_simps greeter_set_status [OF t(2)] greeter_lookup [OF t(2)] greeting_def split: if_splits)
  qed
qed

lemma greeting_run: "greeting ticks tid name n w \<Longrightarrow> greeting ticks tid name 0 (greeter_run (greeter_host ticks) str_of now tid n w)"
  by (induction n arbitrary: w) (simp_all add: greeting_step)

section \<open>Properties\<close>

text \<open>
  C37. The greeter greets: in every interleaving of its routes, cancellations and coroutines, a
  task whose coroutine has ended is COMPLETED, and its events are the announcement, one progress
  event per tick and the greeting, all with the name of its input or Stranger; or it is CANCELLED
  after fewer ticks. The ids count from 1, and every progress, rounded as Python floats are, is
  between 0 and 100, the last one 100.
\<close>

theorem greeter_greets:
  assumes "greeter_reachable ticks str_of w" "dict_get (w_registry w) tid = Some t"
    and "dict_get (fx_tasks (w_host w)) tid = None"
    and "evs = task_events (w_events w) tid" "name = format_value str_of (greeting_name t)"
    and "progress_events = (\<lambda>k. map (\<lambda>i. (TASK_PROGRESS, warm_words_payload i ticks name)) [0..<k])"
  shows "(tr_status t = COMPLETED \<and> map (\<lambda>e. (ev_type e, ev_payload e)) evs =
            (TASK_STARTED, started_payload name) # progress_events ticks @ [(TASK_COMPLETED, hello_payload name)]
        \<or> tr_status t = CANCELLED \<and> (\<exists>k < ticks. map (\<lambda>e. (ev_type e, ev_payload e)) evs =
            (TASK_STARTED, started_payload name) # progress_events k @ [(TASK_CANCELLED, message_payload ''cancelled'')]))
    \<and> map ev_event_id evs = map seq_event_id [1..<Suc (length evs)]
    \<and> (\<forall>i < ticks. \<exists>p. dict_get (warm_words_payload i ticks name) ''progress'' = Some (JInt p)
          \<and> 0 \<le> p \<and> p \<le> 100 \<and> (Suc i = ticks \<longrightarrow> p = 100))"
proof (intro conjI)
  note inv = greeter_reachable_inv [OF assms(1)]
  have e: "entry = (\<lambda>e. (ev_type e, ev_payload e))" by (auto simp: entry_def)
  from greeter_inv_task [OF inv, of tid] assms(2,3)
  have "greeted ticks name (tr_status t) (map entry evs)" by (simp add: greeter_task_inv_def assms(4,5))
  then show "tr_status t = COMPLETED \<and> map (\<lambda>e. (ev_type e, ev_payload e)) evs =
            (TASK_STARTED, started_payload name) # progress_events ticks @ [(TASK_COMPLETED, hello_payload name)]
        \<or> tr_status t = CANCELLED \<and> (\<exists>k < ticks. map (\<lambda>e. (ev_type e, ev_payload e)) evs =
            (TASK_STARTED, started_payload name) # progress_events k @ [(TASK_CANCELLED, message_payload ''cancelled'')])"
    unfolding greeted_def e assms(6) said_def by simp
  show "map ev_event_id evs = map seq_event_id [1..<Suc (length evs)]"
    using greeter_log(1) [OF inv, of tid] by (simp add: ids_consecutive_def assms(4))
  show "\<forall>i < ticks. \<exists>p. dict_get (warm_words_payload i ticks name) ''progress'' = Some (JInt p)
          \<and> 0 \<le> p \<and> p \<le> 100 \<and> (Suc i = ticks \<longrightarrow> p = 100)"
    using percent_bounds percent_all by (auto simp: warm_words_payload_def dict_get_def)
qed


text \<open>
  C39. A task nobody cancels is greeted: from any reachable world in which its coroutine is at its
  start, 2 * ticks + 6 awaits of the coroutine later, the task is COMPLETED and the coroutine gone.
\<close>

theorem greeter_completes:
  assumes "greeter_reachable ticks str_of w" "dict_get (fx_tasks (w_host w)) tid = Some GP_Begin"
    and "tid \<notin> set (fx_cancel_requested (w_host w))" "dict_get (w_registry w) tid = Some t"
    and "w' = greeter_run (greeter_host ticks) str_of now tid (2 * ticks + 6) w"
  shows "dict_get (fx_tasks (w_host w')) tid = None
    \<and> (\<exists>t'. dict_get (w_registry w') tid = Some t' \<and> tr_status t' = COMPLETED \<and> greeting_name t' = greeting_name t)"
proof -
  from greeter_inv_task [OF greeter_reachable_inv [OF assms(1)], of tid] assms(2,3,4)
  have "greeting ticks tid (greeting_name t) (2 * ticks + 6) w"
    by (simp add: greeting_def greeter_task_inv_def)
  then have "greeting ticks tid (greeting_name t) 0 w'" unfolding assms(5) by (rule greeting_run)
  then show ?thesis by (cases "dict_get (fx_tasks (w_host w')) tid") (auto simp: greeting_def)
qed

end
