(* ===== verification/GreeterWitnesses.thy ===== *)
theory GreeterWitnesses
  imports GreeterProperties
begin

text \<open>
  The greeter at work: a task for Ada with the three ticks of the wiring, run to its end.
\<close>

definition greet_request :: http_task_create_request where
  "greet_request = \<lparr>hc_client_request_id = ''r1'', hc_task_type = ''greet'',
     hc_input_payload = [(''name'', JStr ''Ada'')], hc_metadata = []\<rparr>"

definition greeter_created :: "(suspension_dict, receipt_dict) wired_world" where
  "greeter_created = snd (greeter_create_task sample_time sample_time ''g1'' greet_request (greeter_start [] []))"

definition greeter_done :: "(suspension_dict, receipt_dict) wired_world" where
  "greeter_done = greeter_run (greeter_host 3) (\<lambda>_. []) sample_time ''g1'' 12 greeter_created"

lemma greeter_reachable_run:
  "greeter_reachable ticks str_of w \<Longrightarrow> greeter_reachable ticks str_of (greeter_run (greeter_host ticks) str_of now tid n w)"
  by (induction n arbitrary: w) (auto intro: greeter_reachable.run)

lemma greeter_created_reachable: "greeter_reachable 3 (\<lambda>_. []) greeter_created"
  unfolding greeter_created_def
  by (rule greeter_reachable.create [OF greeter_reachable.start])
    (simp add: greeter_start_def dict_get_def, rule prod.collapse [symmetric])

lemma greeter_done_reachable: "greeter_reachable 3 (\<lambda>_. []) greeter_done"
  unfolding greeter_done_def by (rule greeter_reachable_run [OF greeter_created_reachable])

definition greeter_task :: task_record where
  "greeter_task = from_command sample_time ''g1'' (greeter_command greet_request route_auth_context)"

lemma greeter_created_facts:
  "dict_get (fx_tasks (w_host greeter_created)) ''g1'' = Some GP_Begin"
  "''g1'' \<notin> set (fx_cancel_requested (w_host greeter_created))"
  "dict_get (w_registry greeter_created) ''g1'' = Some greeter_task"
  by code_simp+

theorem greeter_completes_witness:
  "dict_get (fx_tasks (w_host greeter_done)) ''g1'' = None
   \<and> (\<exists>t. dict_get (w_registry greeter_done) ''g1'' = Some t \<and> tr_status t = COMPLETED
        \<and> greeting_name t = JStr ''Ada'')"
proof -
  have "greeter_done = greeter_run (greeter_host 3) (\<lambda>_. []) sample_time ''g1'' (2 * 3 + 6) greeter_created"
    by (simp add: greeter_done_def)
  from greeter_completes [OF greeter_created_reachable greeter_created_facts this]
  have "dict_get (fx_tasks (w_host greeter_done)) ''g1'' = None
    \<and> (\<exists>t. dict_get (w_registry greeter_done) ''g1'' = Some t \<and> tr_status t = COMPLETED
         \<and> greeting_name t = greeting_name greeter_task)" .
  moreover have "greeting_name greeter_task = JStr ''Ada''" by code_simp
  ultimately show ?thesis by simp
qed

lemma greeter_done_facts:
  obtains t where "dict_get (w_registry greeter_done) ''g1'' = Some t" "tr_status t = COMPLETED"
    "greeting_name t = JStr ''Ada''" "dict_get (fx_tasks (w_host greeter_done)) ''g1'' = None"
proof -
  have "greeting 3 ''g1'' (greeting_name greeter_task) 12 greeter_created"
    using greeter_inv_task [OF greeter_reachable_inv [OF greeter_created_reachable], of "''g1''"] greeter_created_facts
    by (simp add: greeting_def greeter_task_inv_def)
  from greeting_run [OF this, of "\<lambda>_. []" sample_time]
  have "greeting 3 ''g1'' (greeting_name greeter_task) 0 greeter_done" by (simp add: greeter_done_def)
  moreover have "greeting_name greeter_task = JStr ''Ada''" by code_simp
  ultimately show thesis
    by (cases "dict_get (fx_tasks (w_host greeter_done)) ''g1''") (auto simp: greeting_def intro: that)
qed

theorem greeter_greets_witness:
  "map (\<lambda>e. (ev_type e, ev_payload e)) (task_events (w_events greeter_done) ''g1'') =
     [(TASK_STARTED, started_payload ''Ada''),
      (TASK_PROGRESS, warm_words_payload 0 3 ''Ada''), (TASK_PROGRESS, warm_words_payload 1 3 ''Ada''),
      (TASK_PROGRESS, warm_words_payload 2 3 ''Ada''), (TASK_COMPLETED, hello_payload ''Ada'')]"
proof -
  obtain t where t: "dict_get (w_registry greeter_done) ''g1'' = Some t" "tr_status t = COMPLETED"
    "greeting_name t = JStr ''Ada''" "dict_get (fx_tasks (w_host greeter_done)) ''g1'' = None"
    by (rule greeter_done_facts)
  have "[0..<3] = [0, 1, 2]" by (simp add: upt_rec)
  with greeter_greets [OF greeter_done_reachable t(1,4) refl refl refl] t(2,3) show ?thesis
    by (simp add: format_value_def)
qed


end
