(* ===== verification/FirebaseAuth.thy ===== *)
theory FirebaseAuth
  imports TaskProperties
begin

text \<open>
  \<open>FirebaseAuthResolver\<close> and \<open>FirebaseOwnershipPolicy\<close> of the FastAPI host
  (\<open>app/firebase_adapters.py\<close>). The token check of the Firebase SDK is the parameter \<open>verify\<close>.
\<close>

section \<open>Resolving the caller\<close>

text \<open>
  What the resolver is given: an HTTP request, of which it reads the \<open>Authorization\<close> header, or
  something else (the WebSocket of a streaming session is not a \<open>Request\<close>).
\<close>

datatype request_context = HttpRequest "string option" | OtherContext

datatype http_exception = HTTPException int string

definition anonymous :: auth_context where
  "anonymous = \<lparr>ac_subject = ''anonymous'', ac_scopes = {}, ac_app_id = None, ac_attributes = []\<rparr>"

text \<open>\<open>header.split("Bearer ")[1]\<close> for a header that starts with it: up to the next one.\<close>

fun until_text :: "string \<Rightarrow> string \<Rightarrow> string" where
  "until_text p [] = []"
| "until_text p (c # s) = (if startswith (c # s) p then [] else c # until_text p s)"

definition bearer_token :: "string \<Rightarrow> string" where
  "bearer_token header = until_text ''Bearer '' (drop 7 header)"

definition firebase_resolve_auth_context ::
  "(string \<Rightarrow> exc + jdict) \<Rightarrow> request_context \<Rightarrow> http_exception + auth_context" where
  "firebase_resolve_auth_context verify context =
     (case context of
        OtherContext \<Rightarrow> Inr anonymous
      | HttpRequest None \<Rightarrow> Inr anonymous
      | HttpRequest (Some header) \<Rightarrow>
          (if \<not> startswith header ''Bearer '' then Inr anonymous
           else (case verify (bearer_token header) of
                   Inl e \<Rightarrow> Inl (HTTPException 401 ''Invalid Firebase token'')
                 | Inr decoded \<Rightarrow>
                     (case dict_get decoded ''uid'' of
                        Some (JStr uid) \<Rightarrow> Inr \<lparr>ac_subject = uid, ac_scopes = {''tasks:all''},
                                              ac_app_id = None, ac_attributes = decoded\<rparr>
                      | _ \<Rightarrow> Inl (HTTPException 401 ''Invalid Firebase token'')))))"

definition firebase_ownership_policy :: ownership_policy where
  "firebase_ownership_policy = \<lparr>
     op_assert_task_create = (\<lambda>auth.
       if ac_subject auth = ''anonymous'' then Inl (PermissionError ''Anonymous users cannot create tasks'')
       else Inr ()),
     op_assert_task_access = (\<lambda>auth task.
       if ac_subject auth = ''anonymous'' then Inl (PermissionError ''Anonymous access denied'')
       else if tr_owner_id task \<noteq> ac_subject auth
       then Inl (PermissionError (''Access to task '' @ tr_task_id task @ '' denied''))
       else Inr ())\<rparr>"

section \<open>A WebSocket caller owns nothing\<close>

text \<open>
  Under the Firebase resolver a WebSocket caller is anonymous whatever token it brings, and an
  anonymous caller is refused every task, its own included: in this mode no streaming session
  over a WebSocket gets past its subscription.
\<close>

lemma firebase_websocket_owns_nothing:
  assumes "tasks_valid s"
  shows "firebase_resolve_auth_context verify OtherContext = Inr anonymous
    \<and> get_owned_task_or_raise_not_found demo_registry firebase_ownership_policy tid anonymous s
        = Inl (TaskNotFoundError tid)"
  using demo_reg.get_owned_hidden [OF assms, of tid firebase_ownership_policy anonymous]
  by (simp add: firebase_resolve_auth_context_def firebase_ownership_policy_def anonymous_def)

end
