(* ===== verification/HostWiring.thy ===== *)
theory HostWiring
  imports Readiness RedisStore TemporalExecutor FirebaseAuth FakeExecutor
begin

text \<open>
  How the FastAPI host is put together: \<open>build_demo_services\<close> of \<open>app/wiring.py\<close> chooses the
  adapters from the environment, \<open>create_app\<close> of \<open>app/main.py\<close> overrides the dependency
  providers of \<open>taskbridge/dependencies.py\<close> with them. The environment is a function from names
  to values; connecting to Redis is a parameter that answers or raises. \<open>str_of\<close> is Python's
  \<open>str\<close> and \<open>parse\<close> Python's \<open>datetime.fromisoformat\<close>, as in the components that use them.
\<close>

section \<open>Services\<close>

type_synonym environment = "string \<Rightarrow> string option"

definition getenv :: "environment \<Rightarrow> string \<Rightarrow> string \<Rightarrow> string" where
  "getenv env name fallback = (case env name of None \<Rightarrow> fallback | Some v \<Rightarrow> v)"

datatype wired_auth = DemoAuth | FirebaseAuth

definition wired_auth_mode :: "environment \<Rightarrow> wired_auth" where
  "wired_auth_mode env = (if env ''TB_AUTH_MODE'' = Some ''firebase'' then FirebaseAuth else DemoAuth)"

definition wired_ownership :: "wired_auth \<Rightarrow> ownership_policy" where
  "wired_ownership a = (case a of DemoAuth \<Rightarrow> demo_ownership_policy | FirebaseAuth \<Rightarrow> firebase_ownership_policy)"

definition wired_resolver ::
  "wired_auth \<Rightarrow> (string \<Rightarrow> exc + jdict) \<Rightarrow> request_context \<Rightarrow> http_exception + auth_context" where
  "wired_resolver a verify context =
     (case a of DemoAuth \<Rightarrow> Inr demo_auth_context | FirebaseAuth \<Rightarrow> firebase_resolve_auth_context verify context)"

text \<open>
  The fields of \<open>DemoServices\<close>: creation and cancellation share one record of collaborators,
  polling and the WebSocket subscription another.
\<close>

record ('v, 'h) demo_services =
  ds_commands :: "(task_dict, 'v, suspension_dict, receipt_dict, 'h) task_command_service"
  ds_streams :: "(task_dict, 'v) task_stream_service"
  ds_action :: "(task_dict, 'v, suspension_dict, receipt_dict, 'h) action_service"
  ds_auth :: wired_auth

definition demo_services ::
  "'v event_store_ops \<Rightarrow> (task_dict, 'v, suspension_dict, receipt_dict, 'h) task_executor
    \<Rightarrow> (task_dict, 'v, suspension_dict, receipt_dict, 'h) resume_service \<Rightarrow> wired_auth \<Rightarrow> ('v, 'h) demo_services" where
  "demo_services store executor resume a = \<lparr>
     ds_commands = \<lparr>cs_registry = demo_registry, cs_executor = executor, cs_ownership_policy = wired_ownership a\<rparr>,
     ds_streams = \<lparr>ps_registry = demo_registry, ps_event_store = store, ps_ownership_policy = wired_ownership a\<rparr>,
     ds_action = \<lparr>as_registry = demo_registry, as_suspension_store = mem_suspension_store,
       as_receipt_store = mem_receipt_store, as_event_store = store, as_ownership_policy = wired_ownership a,
       as_resume_service = resume, as_action_validation_policy = None\<rparr>,
     ds_auth = a\<rparr>"

section \<open>The two modes\<close>

text \<open>
  The fake mode runs everything in memory. The other mode keeps the events in Redis and runs the
  tasks on Temporal; its target, namespace and queue are read from the environment.
\<close>

datatype 'k wired_host =
    FakeHost "(task_dict, event_list) fake_config" "(event_list, fake_state) demo_services"
  | TemporalHost "(task_dict, 'k, suspension_dict) streaming_config" "temporal_env \<Rightarrow> datetime \<Rightarrow> ('k, temporal_state) demo_services"
      string string

definition wired_mode :: "environment \<Rightarrow> string" where
  "wired_mode env = lower (strip (getenv env ''TB_EXECUTOR_MODE'' ''temporal''))"

definition wired_redis_settings :: "environment \<Rightarrow> exc + redis_settings" where
  "wired_redis_settings env =
     (case py_int (getenv env ''TB_STREAM_TTL_SECONDS'' ''86400'') of
        None \<Rightarrow> Inl (ValueError ''invalid literal for int()'')
      | Some ttl \<Rightarrow>
          (case py_int (getenv env ''TB_STREAM_MAXLEN'' ''1000'') of
             None \<Rightarrow> Inl (ValueError ''invalid literal for int()'')
           | Some maxlen \<Rightarrow> Inr (default_redis_settings\<lparr>
               se_stream_key_prefix := getenv env ''TB_STREAM_PREFIX'' ''taskbridge:examples'',
               se_stream_ttl_seconds := Some ttl, se_max_stream_length := Some maxlen\<rparr>)))"

definition put_in_memory :: "task_suspension_record \<Rightarrow> suspension_dict \<Rightarrow> suspension_dict" where
  "put_in_memory r d = dict_set d (su_task_id r, su_suspend_id r) r"

definition build_demo_services ::
  "(string \<Rightarrow> exc + 'k redis_client) \<Rightarrow> (string \<Rightarrow> datetime option) \<Rightarrow> (json \<Rightarrow> string)
    \<Rightarrow> environment \<Rightarrow> int \<Rightarrow> exc + 'k wired_host" where
  "build_demo_services redis_from_url parse str_of env progress_ticks =
     (if wired_mode env = ''fake''
      then (case fake_init demo_registry demo_event_store progress_ticks None of
              Inl e \<Rightarrow> Inl e
            | Inr (cfg, _) \<Rightarrow>
                Inr (FakeHost cfg (demo_services demo_event_store fake_executor DefaultResume (wired_auth_mode env))))
      else (case redis_from_url (getenv env ''REDIS_URL'' ''redis://127.0.0.1:6379/0'') of
              Inl e \<Rightarrow> Inl e
            | Inr client \<Rightarrow>
                (case wired_redis_settings env of
                   Inl e \<Rightarrow> Inl e
                 | Inr settings \<Rightarrow>
                     (let store = redis_event_store client settings parse;
                          cfg = \<lparr>sx_registry = demo_registry, sx_event_store = store,
                                 sx_put_suspension = Some put_in_memory,
                                 sx_task_queue = getenv env ''TEMPORAL_TASK_QUEUE'' ''taskbridge-demo'', sx_str = str_of\<rparr>
                      in Inr (TemporalHost cfg
                           (\<lambda>te now. demo_services store (streaming_executor cfg te now)
                              (HostResume (temporal_resume_task te)) (wired_auth_mode env))
                           (getenv env ''TEMPORAL_ADDRESS'' ''127.0.0.1:7233'')
                           (getenv env ''TEMPORAL_NAMESPACE'' ''default''))))))"

text \<open>The readiness probe: of the Redis client and of the executor, given what they answer now.\<close>

definition wired_probe :: "'k wired_host \<Rightarrow> exc + bool \<Rightarrow> exc + health \<Rightarrow> readiness" where
  "wired_probe host ping executor_health =
     (case host of
        FakeHost _ _ \<Rightarrow> always_ready
      | TemporalHost _ _ _ _ \<Rightarrow>
          composite_check [(''redis'', redis_check ping),
                           (''executor'', executor_check ''check_health'' (Some executor_health))])"

section \<open>Dependencies\<close>

datatype dependency =
    CreationService | PollingService | CancellationService | ActionService | SubscriptionService
  | ContextResolver | OwnershipPolicyOf | UploadPolicyOf | MetricsSinkOf | DiagnosticsSinkOf | ReadinessProbeOf

text \<open>What a provider gives when nothing overrides it: an error, or the default of the library.\<close>

datatype provided = HostProvided | LibraryDefault

definition missing_override :: "string \<Rightarrow> exc + provided" where
  "missing_override name = Inl (RuntimeError (name @ '' dependency must be overrideable by the host application''))"

fun default_provider :: "dependency \<Rightarrow> exc + provided" where
  "default_provider CreationService = missing_override ''task creation service''"
| "default_provider PollingService = missing_override ''task polling service''"
| "default_provider CancellationService = missing_override ''task cancellation service''"
| "default_provider ActionService = missing_override ''task action service''"
| "default_provider SubscriptionService = missing_override ''websocket subscription service''"
| "default_provider ContextResolver = missing_override ''auth context resolver''"
| "default_provider OwnershipPolicyOf = missing_override ''ownership policy''"
| "default_provider UploadPolicyOf = Inr LibraryDefault"
| "default_provider MetricsSinkOf = Inr LibraryDefault"
| "default_provider DiagnosticsSinkOf = Inr LibraryDefault"
| "default_provider ReadinessProbeOf = Inr LibraryDefault"

definition app_overrides :: "dependency list" where
  "app_overrides = [ContextResolver, CreationService, PollingService, CancellationService,
     SubscriptionService, ActionService, ReadinessProbeOf]"

definition provide :: "dependency list \<Rightarrow> dependency \<Rightarrow> exc + provided" where
  "provide overrides d = (if d \<in> set overrides then Inr HostProvided else default_provider d)"

text \<open>What each route asks for.\<close>

datatype route = CreateRoute | PollRoute | StreamRoute | CancelRoute | ActionRoute | HealthRoute | ReadyRoute | WebSocketRoute

fun route_dependencies :: "route \<Rightarrow> dependency list" where
  "route_dependencies CreateRoute = [ContextResolver, CreationService, UploadPolicyOf]"
| "route_dependencies PollRoute = [ContextResolver, PollingService, MetricsSinkOf]"
| "route_dependencies StreamRoute = [ContextResolver, SubscriptionService, DiagnosticsSinkOf]"
| "route_dependencies CancelRoute = [ContextResolver, CancellationService, MetricsSinkOf]"
| "route_dependencies ActionRoute = [ContextResolver, ActionService, MetricsSinkOf]"
| "route_dependencies HealthRoute = []"
| "route_dependencies ReadyRoute = [ReadinessProbeOf]"
| "route_dependencies WebSocketRoute = [ContextResolver, SubscriptionService, MetricsSinkOf]"

definition route_error :: "dependency list \<Rightarrow> route \<Rightarrow> exc option" where
  "route_error overrides r =
     (case find (\<lambda>d. isl (provide overrides d)) (route_dependencies r) of
        None \<Rightarrow> None
      | Some d \<Rightarrow> (case provide overrides d of Inl e \<Rightarrow> Some e | Inr _ \<Rightarrow> None))"

end
