(* ===== verification/HostProperties.thy ===== *)
theory HostProperties
  imports HostWiring FakeSystem
begin

text \<open>
  The wired FastAPI host: in the fake mode it is the system the properties of the services and of
  the fake executor are about, every dependency of every route is provided, and in neither mode
  an A2UI action is ever accepted.
\<close>

section \<open>Dependencies\<close>

lemma app_routes_resolve: "route_error app_overrides r = None"
  by (cases r) (simp_all add: route_error_def provide_def app_overrides_def)

lemma bare_routes_fail: "route_error [] r = None \<longleftrightarrow> r \<in> {HealthRoute, ReadyRoute}"
  by (cases r) (simp_all add: route_error_def provide_def missing_override_def)

section \<open>Actions\<close>

lemma no_policy_no_a2ui:
  assumes "as_action_validation_policy svc = None" "is_a2ui (sc_action_type command)"
    and "submit_action svc accept_now now command w = (Inr r, w')"
  shows "sr_status r \<noteq> SA_ACCEPTED"
proof -
  have "submit_checks svc command w \<noteq> Inr None"
    using assms(1,2) by (auto simp: submit_checks_def check_receipt_def split: sum.splits option.splits if_splits)
  with assms(3) obtain res where "submit_checks svc command w = Inr (Some res)" "r = res"
    by (auto simp: submit_action_def split: sum.splits option.splits)
  then show ?thesis
    by (auto simp: submit_checks_def check_receipt_def action_result_def split: sum.splits option.splits if_splits)
qed

lemma demo_services_action:
  "as_action_validation_policy (ds_action (demo_services store ex res a)) = None"
  by (simp add: demo_services_def)

section \<open>The fake mode\<close>

lemma build_fake:
  assumes "wired_mode env = ''fake''" "0 \<le> ticks"
  shows "build_demo_services redis_from_url parse str_of env ticks =
    Inr (FakeHost \<lparr>fc_registry = demo_registry, fc_event_store = demo_event_store,
           fc_progress_ticks = nat ticks, fc_fail_after = None\<rparr>
         (demo_services demo_event_store fake_executor DefaultResume (wired_auth_mode env)))"
  using assms by (simp add: build_demo_services_def fake_init_def)

text \<open>
  C36. The host wired in the fake mode works from end to end: it is built for every number of
  ticks that is not negative, and in every world its services and coroutines reach a finished
  task is terminal with the trace of its status, a caller the wired policy lets see a task gets by
  polling the first n * limit of its events, and no A2UI action is accepted.
\<close>

theorem wired_fake_host:
  fixes w :: "(suspension_dict, receipt_dict) fake_world"
  assumes "wired_mode env = ''fake''" "0 \<le> ticks"
  shows "\<exists>cfg ds. build_demo_services redis_from_url parse str_of env ticks = Inr (FakeHost cfg ds)
    \<and> (fake_reachable cfg (ds_commands ds) w \<longrightarrow>
        (\<forall>tid t. dict_get (w_registry w) tid = Some t \<longrightarrow>
            (dict_get (fx_tasks (w_host w)) tid = None \<longrightarrow>
               finished_trace (nat ticks) (tr_status t) (map ev_type (task_events (w_events w) tid)))
          \<and> (\<forall>auth limit n. op_assert_task_access (wired_ownership (ds_auth ds)) auth t = Inr () \<and> 0 \<le> limit \<longrightarrow>
               (\<exists>nxt. poll_pages (ds_streams ds) tid auth None limit (replicate n w)
                  = Inr (take (n * nat limit) (task_events (w_events w) tid), nxt)))))
    \<and> (\<forall>accept_now now command r w'. is_a2ui (sc_action_type command) \<and>
          submit_action (ds_action ds) accept_now now command w = (Inr r, w') \<longrightarrow> sr_status r \<noteq> SA_ACCEPTED)"
proof -
  let ?cfg = "\<lparr>fc_registry = demo_registry, fc_event_store = demo_event_store,
     fc_progress_ticks = nat ticks, fc_fail_after = None\<rparr> :: (task_dict, event_list) fake_config"
  define ds :: "(event_list, fake_state) demo_services" where
    "ds = demo_services demo_event_store fake_executor DefaultResume (wired_auth_mode env)"
  have host: "fake_host ?cfg (ds_commands ds)" by (simp add: fake_host_def ds_def demo_services_def)
  have ps: "ps_registry (ds_streams ds) = demo_registry" "ps_event_store (ds_streams ds) = demo_event_store"
    "ps_ownership_policy (ds_streams ds) = wired_ownership (ds_auth ds)" by (simp_all add: ds_def demo_services_def)
  have "finished_trace (nat ticks) (tr_status t) (map ev_type (task_events (w_events w) tid))"
    if "fake_reachable ?cfg (ds_commands ds) w" "dict_get (w_registry w) tid = Some t"
      "dict_get (fx_tasks (w_host w)) tid = None" for tid t
    using fake_inv_finished [OF fake_host_inv [OF host that(1)] that(2,3)] by simp
  moreover have "\<exists>nxt. poll_pages (ds_streams ds) tid auth None limit (replicate n w)
      = Inr (take (n * nat limit) (task_events (w_events w) tid), nxt)"
    if "fake_reachable ?cfg (ds_commands ds) w" "dict_get (w_registry w) tid = Some t"
      "op_assert_task_access (wired_ownership (ds_auth ds)) auth t = Inr ()" "0 \<le> limit" for tid t auth limit n
    using fake_inv_polls [OF fake_host_inv [OF host that(1)] that(4) ps(1,2) that(2)] that(3) by (simp add: ps(3))
  moreover have "sr_status r \<noteq> SA_ACCEPTED"
    if "is_a2ui (sc_action_type command)" "submit_action (ds_action ds) accept_now now command w = (Inr r, w')"
    for accept_now now command r w'
    using no_policy_no_a2ui [OF _ that] by (simp add: ds_def demo_services_action)
  ultimately show ?thesis
    using build_fake [OF assms] unfolding ds_def [symmetric] by blast
qed

section \<open>Witness\<close>

definition fake_environment :: environment where
  "fake_environment = (\<lambda>name. if name = ''TB_EXECUTOR_MODE'' then Some ''Fake '' else None)"

lemma fake_environment_mode: "wired_mode fake_environment = ''fake''" "wired_auth_mode fake_environment = DemoAuth"
  by code_simp+

theorem wired_fake_host_witness:
  "\<exists>ds nxt. build_demo_services (\<lambda>_. Inl (OtherError ''no Redis'')) (\<lambda>_. None) (\<lambda>_. []) fake_environment 2
      = (Inr (FakeHost sample_config ds) :: exc + unit wired_host)
    \<and> ds_commands ds = sample_command_service
    \<and> poll_pages (ds_streams ds) ''t1'' demo_auth_context None 3 (replicate 2 completed_world)
        = Inr (take 6 (task_events (w_events completed_world) ''t1''), nxt)"
proof -
  let ?build = "build_demo_services (\<lambda>_. Inl (OtherError ''no Redis'')) (\<lambda>_. None) (\<lambda>_. []) fake_environment 2 :: exc + unit wired_host"
  from completed_status(1) obtain t where t: "dict_get (w_registry completed_world) ''t1'' = Some t" by auto
  have build: "?build = Inr (FakeHost sample_config (demo_services demo_event_store fake_executor DefaultResume DemoAuth))"
    using build_fake [OF fake_environment_mode(1), of 2] by (simp add: fake_environment_mode(2) sample_config_def)
  have ds: "ds_commands (demo_services demo_event_store fake_executor DefaultResume DemoAuth) = sample_command_service"
    by (simp add: demo_services_def sample_command_service_def wired_ownership_def)
  have access: "op_assert_task_access (wired_ownership DemoAuth) demo_auth_context t = Inr ()"
  proof -
    have "map_option tr_owner_id (dict_get (w_registry completed_world) ''t1'') = Some ''demo-user''" by code_simp
    with t show ?thesis by (simp add: wired_ownership_def demo_ownership_policy_def demo_auth_context_def)
  qed
  have eq: "?build = Inr (FakeHost cfg ds) \<longleftrightarrow> cfg = sample_config
      \<and> ds = demo_services demo_event_store fake_executor DefaultResume DemoAuth" for cfg ds
    using build by auto
  have a: "ds_auth (demo_services demo_event_store fake_executor DefaultResume DemoAuth
      :: (event_list, fake_state) demo_services) = DemoAuth" by (simp add: demo_services_def)
  from wired_fake_host [OF fake_environment_mode(1), of 2, where w = completed_world and parse = "\<lambda>_. None" and str_of = "\<lambda>_. []"
      and redis_from_url = "\<lambda>_. Inl (OtherError ''no Redis'') :: exc + unit redis_client", unfolded eq]
  have "\<exists>nxt. poll_pages (ds_streams (demo_services demo_event_store fake_executor DefaultResume DemoAuth
        :: (event_list, fake_state) demo_services)) ''t1'' demo_auth_context None 3 (replicate 2 completed_world)
      = Inr (take (2 * nat 3) (task_events (w_events completed_world) ''t1''), nxt)"
    using t access completed_reachable ds a by (metis zero_le_numeral)
  with build ds show ?thesis by auto
qed

end
