(* ===== verification/RouteSettings.thy ===== *)
theory RouteSettings
  imports HttpApi Protocol
begin

text \<open>
  The settings objects of the route builders (\<open>HttpRouteSettings\<close>, \<open>WebSocketRouteSettings\<close>,
  \<open>StreamRuntimeSettings\<close>), what the builders read of them, and the payload of the structured log
  lines (\<open>log_structured\<close> of \<open>taskbridge/observability.py\<close>).
\<close>

section \<open>Settings\<close>

record stream_runtime_settings =
  rt_sse :: sse_stream_settings
  rt_websocket :: web_socket_stream_settings

definition default_stream_runtime :: stream_runtime_settings where
  "default_stream_runtime = \<lparr>rt_sse = default_sse_settings, rt_websocket = default_web_socket_settings\<rparr>"

record web_socket_route_settings =
  wr_websocket_path :: string
  wr_replay_batch_size :: int
  wr_live_batch_size :: int
  wr_wait_timeout_ms :: int
  wr_invalid_frame_close_code :: int
  wr_terminal_close_code :: int
  wr_stream_runtime :: stream_runtime_settings

definition default_web_socket_route_settings :: web_socket_route_settings where
  "default_web_socket_route_settings = \<lparr>wr_websocket_path = ''/api/v1/tasks/ws'', wr_replay_batch_size = 100,
     wr_live_batch_size = 100, wr_wait_timeout_ms = 25000, wr_invalid_frame_close_code = 1008,
     wr_terminal_close_code = 1000, wr_stream_runtime = default_stream_runtime\<rparr>"

text \<open>What \<open>build_ws_router\<close> takes: the path, and the settings the sessions run with.\<close>

definition ws_router :: "web_socket_route_settings option \<Rightarrow> string \<times> web_socket_stream_settings" where
  "ws_router given =
     (let actual = (case given of None \<Rightarrow> default_web_socket_route_settings | Some s \<Rightarrow> s)
      in (wr_websocket_path actual, rt_websocket (wr_stream_runtime actual)))"

lemma ws_route_settings_ignored:
  "ws_router (Some (s\<lparr>wr_replay_batch_size := a, wr_live_batch_size := b, wr_wait_timeout_ms := t,
     wr_invalid_frame_close_code := i, wr_terminal_close_code := c\<rparr>)) = ws_router (Some s)"
  by (simp add: ws_router_def)

record http_route_paths =
  hp_create_task_path :: string
  hp_poll_events_path :: string
  hp_stream_events_path :: string
  hp_cancel_task_path :: string
  hp_submit_action_path :: string

definition default_http_paths :: http_route_paths where
  "default_http_paths = \<lparr>hp_create_task_path = ''/api/v1/tasks'',
     hp_poll_events_path = ''/api/v1/tasks/{taskId}/events'',
     hp_stream_events_path = ''/api/v1/tasks/{taskId}/events/stream'',
     hp_cancel_task_path = ''/api/v1/tasks/{taskId}/cancel'',
     hp_submit_action_path = ''/api/v1/tasks/{taskId}/actions''\<rparr>"

text \<open>The paths the protocol check asks the OpenAPI document for are the default ones but the event stream.\<close>

lemma documented_paths:
  "set openapi_paths = {hp_create_task_path default_http_paths, hp_poll_events_path default_http_paths,
     hp_cancel_task_path default_http_paths, hp_submit_action_path default_http_paths,
     wr_websocket_path default_web_socket_route_settings}"
  "hp_stream_events_path default_http_paths \<notin> set openapi_paths"
  by (auto simp: openapi_paths_def default_http_paths_def default_web_socket_route_settings_def)

section \<open>Log lines\<close>

record log_fields =
  lf_task_id :: "string option"
  lf_event_id :: "string option"
  lf_client_request_id :: "string option"
  lf_user_id :: "string option"
  lf_transport :: "string option"
  lf_outcome :: "string option"
  lf_details :: "jdict option"

definition log_field :: "string \<Rightarrow> string option \<Rightarrow> jdict" where
  "log_field k v = (case v of None \<Rightarrow> [] | Some s \<Rightarrow> [(k, JStr s)])"

text \<open>An empty \<open>details\<close> is left out like an absent one.\<close>

definition log_payload :: "log_fields \<Rightarrow> jdict" where
  "log_payload f =
     log_field ''taskId'' (lf_task_id f) @ log_field ''eventId'' (lf_event_id f)
     @ log_field ''clientRequestId'' (lf_client_request_id f) @ log_field ''userId'' (lf_user_id f)
     @ log_field ''transport'' (lf_transport f) @ log_field ''outcome'' (lf_outcome f)
     @ (case lf_details f of None \<Rightarrow> [] | Some d \<Rightarrow> (if d = [] then [] else [(''details'', JDict d)]))"

lemma log_payload_get:
  "dict_get (log_payload f) ''taskId'' = map_option JStr (lf_task_id f)"
  "dict_get (log_payload f) ''outcome'' = map_option JStr (lf_outcome f)"
  "dict_get (log_payload f) ''details'' = map_option JDict (Option.bind (lf_details f) (\<lambda>d. if d = [] then None else Some d))"
  by (auto simp: log_payload_def log_field_def dict_get_def map_add_def split: option.splits)

end
