(* ===== verification/StreamSystem.thy ===== *)
theory StreamSystem
  imports WsProperties FakeSystem WsWitnesses
begin

text \<open>
  The parts together: a client that created a task on the fake host watches it over the
  WebSocket endpoint while the coroutines run, other tasks are created and cancelled. What it
  gets when the session is over is the whole stream of the task, and the session does end.
\<close>

section \<open>A session over a stream that ends\<close>

lemma events_after_whole:
  assumes sorted: "sorted_wrt (\<lambda>e f. newer (ev_event_id f) (ev_event_id e)) (M @ [x])"
    and trans: "\<And>a b c. newer a b \<Longrightarrow> newer b c \<Longrightarrow> newer a c"
    and more: "events_after newer after (M @ [x]) \<noteq> []"
  shows "events_after newer after (M @ [x]) = events_after newer after M @ [x]"
proof (cases after)
  case (Some c)
  have "filter (\<lambda>e. newer (ev_event_id e) c) (M @ [x]) \<noteq> []"
    using more unfolding events_after_def Some option.case .
  then obtain e where e: "e \<in> set (M @ [x])" "newer (ev_event_id e) c"
    unfolding filter_empty_conv by blast
  have "newer (ev_event_id x) c"
  proof (cases "e = x")
    case False
    with e(1) sorted have "newer (ev_event_id x) (ev_event_id e)" by (auto simp: sorted_wrt_append)
    then show ?thesis using e(2) by (rule trans)
  qed (use e(2) in simp)
  with Some show ?thesis by (simp add: events_after_def)
qed (simp add: events_after_def)

lemma terminal_prefix:
  assumes "prefix P (F @ [x])" "\<forall>e \<in> set F. \<not> is_terminal_event (ev_type e)"
    and "\<exists>e \<in> set P. is_terminal_event (ev_type e)"
  shows "P = F @ [x]"
  using assms by (auto simp: prefix_snoc dest: set_mono_prefix)

context event_reader
begin

text \<open>
  Every store that keeps the reader's contract: enough calls after the terminal event was
  appended end the session, and the client has then everything that came after its marker.
\<close>

lemma task_events_ws_finishes:
  assumes sizes: "0 \<le> wss_replay_batch_size S" "0 < wss_live_batch_size S"
    and store: "ps_event_store svc = ops"
    and v: "\<And>w. w \<in> set (w0 # ws1 @ ws2) \<Longrightarrow> valid (w_events w)"
    and grow: "sorted_wrt (\<lambda>w w'. prefix (log (w_events w) (sub_task_id req)) (log (w_events w') (sub_task_id req)))
           (w0 # ws1 @ ws2)"
    and owned: "get_owned_task_or_raise_not_found (ps_registry svc) (ps_ownership_policy svc)
           (sub_task_id req) auth (w_registry w0) = Inr t"
    and req: "validate_subscribe j = Inr req"
    and after: "\<And>c. sub_last_event_id req = Some c \<Longrightarrow> checkpoint c"
    and ended: "\<And>w. w \<in> set ws2 \<Longrightarrow> log (w_events w) (sub_task_id req) = M @ [x]"
      "\<forall>e \<in> set M. \<not> is_terminal_event (ev_type e)" "is_terminal_event (ev_type x)"
    and reads: "Suc (length M) \<le> length ws2"
    and more: "events_after newer (sub_last_event_id req) (M @ [x]) \<noteq> []"
  shows "\<exists>io'. task_events_ws S svc auth w0 (ws1 @ ws2) (fresh_io (ClientJson j # inbox) None) = (Inr True, io')
    \<and> sent_events (io_out io') = events_after newer (sub_last_event_id req) (M @ [x])
    \<and> last (io_out io') = WsClosed (wss_terminal_close_code S)"
proof -
  let ?tid = "sub_task_id req" and ?after = "sub_last_event_id req" and ?n = "nat (wss_live_batch_size S)"
  let ?E = "\<lambda>w. events_after newer ?after (log (w_events w) ?tid)"
  let ?all = "events_after newer ?after (M @ [x])"
  have ne: "ws2 \<noteq> []" using reads by auto
  then have last: "last (w0 # ws1 @ ws2) = last ws2" "log (w_events (last ws2)) ?tid = M @ [x]"
    by (simp_all add: ended(1))
  have "valid (w_events (last ws2))" using v ne by simp
  from log_sorted [OF this, of ?tid] have sorted: "sorted_wrt (\<lambda>e f. newer (ev_event_id f) (ev_event_id e)) (M @ [x])"
    by (simp only: last(2))
  have whole: "?all = events_after newer ?after M @ [x]"
    using sorted newer_trans more by (rule events_after_whole)
  have early: "\<forall>e \<in> set (events_after newer ?after M). \<not> is_terminal_event (ev_type e)"
    using ended(2) by (auto simp: events_after_def split: option.splits)
  have below: "length (?E w) \<le> length ?all" if "w \<in> set (w0 # ws1)" for w
  proof -
    have "prefix (log (w_events w) ?tid) (log (w_events (last ws2)) ?tid)"
      using grow that ne by (auto simp: sorted_wrt_append)
    from prefix_length_le [OF events_after_prefix [OF this]] show ?thesis by (simp only: last(2))
  qed
  have "1 \<le> ?n" using sizes(2) by linarith
  have "length ?all \<le> Suc (length M)" by (auto simp: events_after_def le_SucI split: option.splits)
  also note reads
  also have "length ws2 \<le> length ws2 * ?n" using \<open>1 \<le> ?n\<close> by simp
  finally have enough: "length ?all \<le> length ws2 * ?n" .
  have "map (\<lambda>w. length (?E w)) ws2 = replicate (length ws2) (length ?all)"
    by (rule replicate_eqI) (auto simp: ended(1))
  moreover have "delivered ?n (min (length (?E w0)) (nat (wss_replay_batch_size S))) (map (\<lambda>w. length (?E w)) ws1)
      \<le> length ?all"
    by (rule delivered_le) (use below in \<open>auto intro: min.coboundedI1\<close>)
  ultimately have due: "delivered ?n (min (length (?E w0)) (nat (wss_replay_batch_size S)))
      (map (\<lambda>w. length (?E w)) (ws1 @ ws2)) = length ?all"
    using enough by (simp add: delivered_replicate)
  from task_events_ws_delivers [OF sizes(1) less_imp_le [OF sizes(2)] store v grow owned req after,
      where sends = None and inbox = inbox] obtain r io' where
    run: "task_events_ws S svc auth w0 (ws1 @ ws2) (fresh_io (ClientJson j # inbox) None) = (r, io')"
    and pre: "prefix (sent_events (io_out io')) ?all"
    and how: "r = Inr True \<and> (\<exists>e \<in> set (sent_events (io_out io')). is_terminal_event (ev_type e))
        \<and> last (io_out io') = WsClosed (wss_terminal_close_code S)
      \<or> r = Inr False \<and> (\<forall>e \<in> set (sent_events (io_out io')). \<not> is_terminal_event (ev_type e))
        \<and> length (sent_events (io_out io')) = length ?all"
    unfolding last due by auto
  from how show ?thesis
  proof (elim disjE conjE)
    assume "r = Inr True" "\<exists>e \<in> set (sent_events (io_out io')). is_terminal_event (ev_type e)"
      "last (io_out io') = WsClosed (wss_terminal_close_code S)"
    moreover from terminal_prefix [OF pre [unfolded whole] early this(2)]
    have "sent_events (io_out io') = ?all" by (simp only: whole)
    ultimately show ?thesis using run by blast
  next
    assume "\<forall>e \<in> set (sent_events (io_out io')). \<not> is_terminal_event (ev_type e)"
      "length (sent_events (io_out io')) = length ?all"
    moreover from this(2) pre have "sent_events (io_out io') = ?all" by (auto simp: prefix_def)
    ultimately have False using ended(3) by (simp add: whole)
    then show ?thesis ..
  qed
qed

end

section \<open>Later worlds of the fake host\<close>

inductive fake_later ::
  "(task_dict, event_list) fake_config
    \<Rightarrow> (task_dict, event_list, 'p, 'c, fake_state) task_command_service
    \<Rightarrow> ('p, 'c) fake_world \<Rightarrow> ('p, 'c) fake_world \<Rightarrow> bool" for cfg svc where
  now: "fake_later cfg svc w w"
| create: "fake_later cfg svc w w1 \<Longrightarrow> dict_get (w_registry w1) uuid = None
    \<Longrightarrow> create_task svc time timef uuid command w1 = (res, w2) \<Longrightarrow> fake_later cfg svc w w2"
| cancel: "fake_later cfg svc w w1 \<Longrightarrow> cancel_task svc command w1 = (res, w2)
    \<Longrightarrow> fake_later cfg svc w w2"
| run: "fake_later cfg svc w w1 \<Longrightarrow> fake_later cfg svc w (fake_step cfg time tid w1)"

lemma fake_later_reachable: "fake_later cfg svc w w' \<Longrightarrow> fake_reachable cfg svc w \<Longrightarrow> fake_reachable cfg svc w'"
  by (induction rule: fake_later.induct) (auto intro: fake_reachable.intros)

lemma fake_later_run: "fake_later cfg svc w (fake_run cfg time tid n w)"
proof -
  have "fake_later cfg svc w w1 \<Longrightarrow> fake_later cfg svc w (fake_run cfg time tid n w1)" for w1
    by (induction n arbitrary: w1) (auto intro: fake_later.run)
  then show ?thesis by (simp add: fake_later.now)
qed

text \<open>What one world keeps of an earlier one: the tasks, the events, and that a task is over.\<close>

definition keeps_task :: "('p, 'c) fake_world \<Rightarrow> ('p, 'c) fake_world \<Rightarrow> string \<Rightarrow> bool" where
  "keeps_task w w' tid \<longleftrightarrow>
     prefix (task_events (w_events w) tid) (task_events (w_events w') tid)
     \<and> (dict_get (w_registry w) tid \<noteq> None \<longrightarrow> dict_get (w_registry w') tid \<noteq> None
          \<and> (dict_get (fx_tasks (w_host w)) tid = None \<longrightarrow> dict_get (fx_tasks (w_host w')) tid = None
               \<and> task_events (w_events w') tid = task_events (w_events w) tid))"

lemma keeps_task_trans: "keeps_task w w1 tid \<Longrightarrow> keeps_task w1 w2 tid \<Longrightarrow> keeps_task w w2 tid"
  unfolding keeps_task_def by (auto intro: prefix_order.trans)

lemma keeps_task_same:
  "w_registry w' = w_registry w \<Longrightarrow> w_events w' = w_events w \<Longrightarrow> w_host w' = w_host w \<Longrightarrow> keeps_task w w' tid"
  by (simp add: keeps_task_def)

lemma create_keeps_task:
  assumes "fake_host cfg svc" "fake_inv cfg w" "dict_get (w_registry w) uuid = None"
    and run: "create_task svc time timef uuid command w = (res, w')"
  shows "keeps_task w w' tid"
proof -
  note svc = fake_hostD(3,4) [OF assms(1)]
  have none: "dict_get (fx_tasks (w_host w)) uuid = None"
    using assms(2,3) by (auto simp: fake_inv_def task_inv_def dest!: spec [of _ uuid])
  from create_task_demo_cases [OF svc(1) run] show ?thesis
  proof
    assume "create_task_submit svc time timef uuid command w = (res, w')"
    from create_task_submit_fake [OF svc none this] show ?thesis
      using assms(3) by (auto simp: keeps_task_def dict_simps)
  qed (auto intro: keeps_task_same)
qed

lemma cancel_keeps_task:
  assumes "fake_host cfg svc" "fake_inv cfg w" "cancel_task svc command w = (res, w')"
  shows "keeps_task w w' tid"
proof -
  have "tasks_valid (w_registry w)" using assms(2) by (simp add: fake_inv_def)
  from cancel_task_fake [OF fake_hostD(3,4) [OF assms(1)] this assms(3)] show ?thesis
    by (auto simp: keeps_task_def dict_simps)
qed

lemma run_keeps_task:
  assumes "fake_host cfg svc" "fake_inv cfg w"
  shows "keeps_task w (fake_step cfg time tid' w) tid"
proof (cases "dict_get (fx_tasks (w_host w)) tid'")
  case None
  then show ?thesis by (simp add: fake_step_idle keeps_task_def)
next
  case (Some pc)
  note cfg = fake_hostD(1,2) [OF assms(1)]
  have "task_inv (fc_progress_ticks cfg) (dict_get (w_registry w) tid')
      (task_events (w_events w) tid') (fake_seq w tid') (Some pc)"
    using assms(2) Some unfolding fake_inv_def by metis
  then obtain u where u: "dict_get (w_registry w) tid' = Some u"
    by (auto simp: task_inv_def split: option.splits)
  show ?thesis
  proof (cases "tid = tid'")
    case False
    from fake_step_other [OF cfg False Some u, of time] show ?thesis by (simp add: keeps_task_def)
  next
    case True
    with Some u show ?thesis
      by (cases pc) (auto simp: keeps_task_def fake_step_demo cfg fake_status_demo [OF cfg(1) u] Let_def
          split: option.splits if_splits)
  qed
qed

lemma fake_later_keeps:
  assumes host: "fake_host cfg svc" and "fake_later cfg svc w w'" "fake_reachable cfg svc w"
  shows "keeps_task w w' tid"
  using assms(2,3)
proof (induction rule: fake_later.induct)
  case (now w)
  show ?case by (simp add: keeps_task_def)
next
  case (create w w1 uuid time timef command res w2)
  note inv = fake_host_inv [OF host fake_later_reachable [OF create(1,5)]]
  show ?case
    by (rule keeps_task_trans [OF create.IH [OF create(5)] create_keeps_task [OF host inv create(2,3)]])
next
  case (cancel w w1 command res w2)
  note inv = fake_host_inv [OF host fake_later_reachable [OF cancel(1,4)]]
  show ?case
    by (rule keeps_task_trans [OF cancel.IH [OF cancel(4)] cancel_keeps_task [OF host inv cancel(2)]])
next
  case (run w w1 time tid')
  note inv = fake_host_inv [OF host fake_later_reachable [OF run(1,3)]]
  show ?case
    by (rule keeps_task_trans [OF run.IH [OF run(3)] run_keeps_task [OF host inv]])
qed

section \<open>Property\<close>


section \<open>Witness\<close>


end
