(* ===== verification/FileTree.thy ===== *)
theory FileTree
  imports Prelude "HOL-Library.Sublist"
begin

text \<open>
  The file operations the documentation script uses, on a tree of files and directories:
  \<open>Path.exists\<close>, \<open>is_dir\<close>, \<open>mkdir(parents=True, exist_ok=True)\<close>, \<open>write_text\<close>, \<open>open(..., "a")\<close>,
  \<open>shutil.rmtree\<close>, \<open>copytree\<close> and \<open>copy2\<close>. A path is the list of its components, the root is the
  empty path. Content is the bytes of the file; links, permissions and time stamps are left out.
\<close>

section \<open>Trees\<close>

type_synonym path = "string list"

datatype node = FileNode string | DirNode

type_synonym file_tree = "path \<Rightarrow> node option"

datatype os_error =
    NotFoundError path
  | ExistsError path
  | NotADirectoryError path
  | IsADirectoryError path
  | CalledProcessError

type_synonym 'a fs_result = "(os_error, file_tree, 'a) outcome"

definition is_dir :: "file_tree \<Rightarrow> path \<Rightarrow> bool" where
  "is_dir t p \<longleftrightarrow> t p = Some DirNode"

fun is_file :: "node option \<Rightarrow> bool" where
  "is_file (Some (FileNode c)) = True"
| "is_file n = False"

lemma is_file_iff: "is_file n \<longleftrightarrow> (\<exists>c. n = Some (FileNode c))"
  by (cases n rule: is_file.cases) auto

definition path_exists :: "file_tree \<Rightarrow> path \<Rightarrow> bool" where
  "path_exists t p \<longleftrightarrow> t p \<noteq> None"

text \<open>In a tree that exists on a disk what is above a node is a directory.\<close>

definition tree_ok :: "file_tree \<Rightarrow> bool" where
  "tree_ok t \<longleftrightarrow> (\<forall>p q. strict_prefix q p \<and> t p \<noteq> None \<longrightarrow> t q = Some DirNode)"

section \<open>Operations\<close>

text \<open>What a path that leads nowhere raises.\<close>

definition missing_error :: "file_tree \<Rightarrow> path \<Rightarrow> os_error" where
  "missing_error t p =
     (if \<exists>q \<in> set (prefixes (butlast p)). is_file (t q) then NotADirectoryError p
      else NotFoundError p)"

definition make_dirs :: "path \<Rightarrow> file_tree \<Rightarrow> unit fs_result" where
  "make_dirs p t =
     (case find (\<lambda>q. is_file (t q)) (prefixes p) of
        Some q \<Rightarrow> (Inl (if q = p then ExistsError p else NotADirectoryError p), t)
      | None \<Rightarrow> (Inr (), \<lambda>q. if prefix q p then Some DirNode else t q))"

definition rmtree :: "path \<Rightarrow> file_tree \<Rightarrow> unit fs_result" where
  "rmtree p t =
     (case t p of
        None \<Rightarrow> (Inl (missing_error t p), t)
      | Some (FileNode c) \<Rightarrow> (Inl (NotADirectoryError p), t)
      | Some DirNode \<Rightarrow> (Inr (), \<lambda>q. if prefix p q then None else t q))"

text \<open>The destination must not exist; the source is read before anything is written.\<close>

definition copytree :: "path \<Rightarrow> path \<Rightarrow> file_tree \<Rightarrow> unit fs_result" where
  "copytree src dst t =
     (case t src of
        None \<Rightarrow> (Inl (missing_error t src), t)
      | Some (FileNode c) \<Rightarrow> (Inl (NotADirectoryError src), t)
      | Some DirNode \<Rightarrow>
          (if path_exists t dst then (Inl (ExistsError dst), t)
           else and_then (make_dirs dst t)
             (\<lambda>_ t1. (Inr (), \<lambda>q. if prefix dst q then t (src @ drop (length dst) q) else t1 q))))"

definition write_file :: "path \<Rightarrow> string \<Rightarrow> file_tree \<Rightarrow> unit fs_result" where
  "write_file p content t =
     (if t p = Some DirNode then (Inl (IsADirectoryError p), t)
      else if t p = None \<and> \<not> is_dir t (butlast p) then (Inl (missing_error t p), t)
      else (Inr (), t(p \<mapsto> FileNode content)))"

definition read_file :: "file_tree \<Rightarrow> path \<Rightarrow> string" where
  "read_file t p = (case t p of Some (FileNode c) \<Rightarrow> c | _ \<Rightarrow> [])"

definition append_file :: "path \<Rightarrow> string \<Rightarrow> file_tree \<Rightarrow> unit fs_result" where
  "append_file p content t = write_file p (read_file t p @ content) t"

text \<open>\<open>copy2\<close> into a directory keeps the name of the source.\<close>

definition copy2 :: "path \<Rightarrow> path \<Rightarrow> file_tree \<Rightarrow> unit fs_result" where
  "copy2 src dst t =
     (let target = (if is_dir t dst then dst @ [last src] else dst) in
      case t src of
        None \<Rightarrow> (Inl (missing_error t src), t)
      | Some DirNode \<Rightarrow> (Inl (IsADirectoryError src), t)
      | Some (FileNode c) \<Rightarrow> write_file target c t)"

section \<open>What they do\<close>

lemma make_dirs_ok:
  "make_dirs p t = (Inr (), t') \<longleftrightarrow> (\<forall>q. prefix q p \<longrightarrow> \<not> is_file (t q))
     \<and> t' = (\<lambda>q. if prefix q p then Some DirNode else t q)"
proof (cases "find (\<lambda>q. is_file (t q)) (prefixes p)")
  case None
  then have "\<forall>q. prefix q p \<longrightarrow> \<not> is_file (t q)" by (auto simp: find_None_iff)
  with None show ?thesis by (auto simp: make_dirs_def)
next
  case (Some q)
  from find_SomeD [OF this] have "is_file (t q)" "prefix q p" by simp_all
  with Some show ?thesis by (auto simp: make_dirs_def)
qed

lemma make_dirs_same: "(\<And>q. prefix q p \<Longrightarrow> t q = Some DirNode) \<Longrightarrow> make_dirs p t = (Inr (), t)"
  by (auto simp: make_dirs_ok fun_eq_iff)

lemma write_file_ok:
  "write_file p c t = (Inr (), t') \<Longrightarrow> t' = t(p \<mapsto> FileNode c) \<and> t p \<noteq> Some DirNode"
  by (auto simp: write_file_def split: if_splits)

lemma write_file_same: "t p = Some (FileNode c) \<Longrightarrow> write_file p c t = (Inr (), t)"
  by (auto simp: write_file_def)

text \<open>A directory that replaces another one.\<close>

definition copied :: "path \<Rightarrow> path \<Rightarrow> file_tree \<Rightarrow> file_tree" where
  "copied src dst t = (\<lambda>q. if prefix dst q then t (src @ drop (length dst) q)
     else if prefix q dst then Some DirNode else t q)"

lemma copied_at [simp]: "copied src dst t (dst @ r) = t (src @ r)"
  by (simp add: copied_def)

definition cleared :: "path \<Rightarrow> file_tree \<Rightarrow> file_tree" where
  "cleared p t = (\<lambda>q. if prefix p q then None else t q)"

lemma rmtree_ok: "rmtree p t = (Inr (), t') \<longleftrightarrow> is_dir t p \<and> t' = cleared p t"
  by (auto simp: rmtree_def is_dir_def cleared_def split: option.splits node.splits)

end
