(* ===== verification/PackageExports.thy ===== *)
theory PackageExports
  imports Errors
begin

text \<open>
  The names the two packages export: the imports and \<open>__all__\<close> of \<open>taskbridge/__init__.py\<close> and
  \<open>taskbridge_temporal/__init__.py\<close>, and what \<open>from package import names\<close> makes of them.
\<close>

section \<open>Imports\<close>

text \<open>
  A package is the modules it imports names from, with the names, and its \<open>__all__\<close>; an imported
  module is bound as well. \<open>ImportError\<close> is \<open>OtherError\<close>; that a name which is not bound may still be
  the file of a module is left out.
\<close>

record package =
  pk_imports :: "(string \<times> string list) list"
  pk_all :: "string list"

definition pk_names :: "package \<Rightarrow> string list" where
  "pk_names p = concat (map snd (pk_imports p))"

definition pk_bound :: "package \<Rightarrow> string list" where
  "pk_bound p = map fst (pk_imports p) @ pk_names p"

definition from_import :: "package \<Rightarrow> string list \<Rightarrow> exc + unit" where
  "from_import p names =
     (case find (\<lambda>n. n \<notin> set (pk_bound p)) names of
        Some n \<Rightarrow> Inl (OtherError (''cannot import name '' @ n))
      | None \<Rightarrow> Inr ())"

lemma from_import_ok: "from_import p names = Inr () \<longleftrightarrow> set names \<subseteq> set (pk_bound p)"
proof (cases "find (\<lambda>n. n \<notin> set (pk_bound p)) names")
  case None
  then have "set names \<subseteq> set (pk_bound p)" by (auto simp: find_None_iff)
  with None show ?thesis by (simp add: from_import_def)
next
  case (Some n)
  from find_SomeD [OF this] have "n \<in> set names" "n \<notin> set (pk_bound p)" by simp_all
  with Some show ?thesis by (auto simp: from_import_def)
qed

section \<open>The packages\<close>

definition taskbridge_package :: package where
  "taskbridge_package = \<lparr>pk_imports = [
       (''action_receipt_store'', [
          ''ActionReceiptStore'']),
       (''dependencies'', [
          ''get_auth_context_resolver'', ''get_metrics_sink'', ''get_ownership_policy'',
          ''get_readiness_probe'', ''get_task_action_service'', ''get_task_cancellation_service'',
          ''get_task_creation_service'', ''get_task_polling_service'', ''get_upload_policy'',
          ''get_websocket_subscription_service'', ''resolve_http_auth_context'',
          ''resolve_ws_auth_context'']),
       (''errors'', [
          ''AuthenticationError'', ''IdempotencyConflictError'', ''InvalidRequestError'',
          ''InvalidTaskStateError'', ''TaskAlreadyTerminalError'', ''TaskBridgeError'',
          ''TaskConflictError'', ''TaskNotFoundError'', ''TaskOwnershipError'',
          ''TaskSubmissionError'', ''UploadValidationError'']),
       (''event_store'', [
          ''EventStore'', ''RedisEventStoreSettings'', ''RedisStreamEventStore'']),
       (''fakes'', [
          ''DeterministicFakeExecutor'']),
       (''models'', [
          ''AuthContext'', ''CancelTaskCommand'', ''CancelTaskResult'', ''CancelTaskStatus'',
          ''ErrorResponse'', ''HealthResponse'', ''HttpCancelTaskRequest'',
          ''HttpSubmitActionRequest'', ''HttpTaskCreateRequest'', ''PollEventsResult'',
          ''ReadinessResponse'', ''ResumeHandoffStatus'', ''SubmitActionCommand'',
          ''SubmitActionResult'', ''SubmitActionResultStatus'', ''TaskActionReceipt'',
          ''TaskActionReceiptStatus'', ''TaskAttachment'', ''TaskCreateCommand'',
          ''TaskCreatedResult'', ''TaskEvent'', ''TaskEventType'', ''TaskRecord'', ''TaskStatus'',
          ''TaskSuspensionRecord'', ''TaskSuspensionStatus'', ''WebSocketHeartbeat'',
          ''WebSocketSubscribeRequest'', ''WebSocketSubscriptionConfirmed'', ''ensure_transition'',
          ''same_idempotency_payload'']),
       (''observability'', [
          ''MetricsSink'', ''NoOpMetricsSink'', ''NoOpTransportDiagnosticsSink'',
          ''TransportDiagnosticsSink'']),
       (''readiness'', [
          ''AlwaysReadyProbe'', ''CompositeReadinessProbe'', ''ExecutorReadinessProbe'',
          ''ReadinessProbe'', ''RedisReadinessProbe'']),
       (''routes_http'', [
          ''HttpRouteSettings'', ''build_http_router'', ''install_http_exception_handlers'']),
       (''routes_ws'', [
          ''WebSocketRouteSettings'', ''build_ws_router'']),
       (''security'', [
          ''ActionValidationPolicy'', ''AllowAllUploadPolicy'', ''AuthContextResolver'',
          ''DenyAllAccessPolicy'', ''OwnershipPolicy'', ''UploadPolicy'']),
       (''services'', [
          ''TaskActionService'', ''TaskCancellationService'', ''TaskCreationService'',
          ''TaskPollingService'', ''TaskResumeReconciliationService'', ''TaskResumeService'',
          ''TaskRetentionService'', ''WebSocketSubscriptionService'']),
       (''stream_runtime'', [
          ''build_sse_stream_response'', ''sse_event_generator'']),
       (''stream_settings'', [
          ''SseStreamSettings'', ''StreamRuntimeSettings'', ''WebSocketStreamSettings'']),
       (''suspension_store'', [
          ''SuspensionStore'']),
       (''task_registry'', [
          ''TaskRegistry'']),
       (''worker'', [
          ''TaskExecutor''])],
     pk_all = [
       ''AuthContext'', ''AuthContextResolver'', ''AllowAllUploadPolicy'', ''ActionReceiptStore'',
       ''ActionValidationPolicy'', ''AlwaysReadyProbe'', ''AuthenticationError'',
       ''CancelTaskCommand'', ''HttpCancelTaskRequest'', ''HttpSubmitActionRequest'',
       ''HttpTaskCreateRequest'', ''CancelTaskResult'', ''CancelTaskStatus'',
       ''CompositeReadinessProbe'', ''DeterministicFakeExecutor'', ''DenyAllAccessPolicy'',
       ''ErrorResponse'', ''ExecutorReadinessProbe'', ''EventStore'', ''HealthResponse'',
       ''HttpRouteSettings'', ''RedisEventStoreSettings'', ''RedisStreamEventStore'',
       ''IdempotencyConflictError'', ''MetricsSink'', ''NoOpMetricsSink'',
       ''NoOpTransportDiagnosticsSink'', ''InvalidTaskStateError'', ''InvalidRequestError'',
       ''OwnershipPolicy'', ''PollEventsResult'', ''ReadinessProbe'', ''ReadinessResponse'',
       ''RedisReadinessProbe'', ''ResumeHandoffStatus'', ''SubmitActionCommand'',
       ''SubmitActionResult'', ''SubmitActionResultStatus'', ''TaskAlreadyTerminalError'',
       ''TaskAttachment'', ''TaskActionReceipt'', ''TaskActionReceiptStatus'', ''TaskActionService'',
       ''TaskRetentionService'', ''TaskResumeReconciliationService'', ''TaskBridgeError'',
       ''TaskCancellationService'', ''TaskConflictError'', ''TaskCreateCommand'',
       ''TaskCreatedResult'', ''TaskCreationService'', ''TaskEvent'', ''TaskEventType'',
       ''TaskExecutor'', ''TaskNotFoundError'', ''TaskOwnershipError'', ''TaskSubmissionError'',
       ''TaskSuspensionRecord'', ''TaskSuspensionStatus'', ''TaskResumeService'', ''SuspensionStore'',
       ''SseStreamSettings'', ''StreamRuntimeSettings'', ''UploadValidationError'',
       ''TransportDiagnosticsSink'', ''TaskPollingService'', ''TaskRecord'', ''TaskRegistry'',
       ''TaskStatus'', ''UploadPolicy'', ''WebSocketHeartbeat'', ''WebSocketRouteSettings'',
       ''WebSocketSubscribeRequest'', ''WebSocketSubscriptionConfirmed'',
       ''WebSocketSubscriptionService'', ''WebSocketStreamSettings'', ''build_http_router'',
       ''build_sse_stream_response'', ''build_ws_router'', ''ensure_transition'',
       ''get_auth_context_resolver'', ''get_metrics_sink'', ''get_readiness_probe'',
       ''get_ownership_policy'', ''get_task_action_service'', ''get_task_cancellation_service'',
       ''get_task_creation_service'', ''get_task_polling_service'', ''get_upload_policy'',
       ''get_websocket_subscription_service'', ''install_http_exception_handlers'',
       ''resolve_http_auth_context'', ''resolve_ws_auth_context'', ''same_idempotency_payload'',
       ''sse_event_generator'']\<rparr>"

definition taskbridge_temporal_package :: package where
  "taskbridge_temporal_package = \<lparr>pk_imports = [
       (''events'', [
          ''TemporalWorkflowUpdate'', ''map_temporal_update_to_task_event'']),
       (''executor'', [
          ''TemporalTaskExecutor'']),
       (''types'', [
          ''DefaultWorkflowInputMapper'', ''TemporalExecutorConfig'', ''WorkflowInputMapper''])],
     pk_all = [
       ''DefaultWorkflowInputMapper'', ''TemporalExecutorConfig'', ''TemporalTaskExecutor'',
       ''TemporalWorkflowUpdate'', ''WorkflowInputMapper'', ''map_temporal_update_to_task_event'']\<rparr>"

end
