(* ===== verification/DocsPrepare.thy ===== *)
theory DocsPrepare
  imports FileTree LlmsText PackageExports
begin

text \<open>
  The documentation script \<open>scripts/docs_prepare.py\<close> on a tree of files. The Gradle build is the
  parameter \<open>dokka\<close>; parsing the command line is left to \<open>argparse\<close>, and what is printed is left out.
\<close>

section \<open>Texts\<close>

definition left_arrow :: string where
  "left_arrow = [CHR 0xE2, CHR 0x86, CHR 0x90]"

text \<open>The JavaScript and the page are written as UTF-8.\<close>

definition back_link_js :: string where
  \<open>back_link_js = llms_text [
     [],
     ''window.addEventListener('DOMContentLoaded', () => {'',
     ''    const nav = document.getElementById('navigation-wrapper');'',
     ''    if (nav) {'',
     ''        const link = document.createElement('a');'',
     ''        link.href = '../../'; '',
     ''        link.innerText = ''@ [CHR 39] @ left_arrow @ '' Back to Manual';'',
     ''        link.className = 'library-name--link';'',
     ''        link.style.marginRight = '20px';'',
     ''        link.style.display = 'inline-block';'',
     ''        nav.prepend(link);'',
     ''    }'',
     ''});'',
     []]\<close>

definition redoc_html :: string where
  \<open>redoc_html = llms_text [
     ''<!DOCTYPE html>'',
     ''<html>'',
     ''  <head>'',
     ''    <title>TaskBridge Backend API Reference</title>'',
     ''    <meta charset="utf-8"/>'',
     ''    <meta name="viewport" content="width=device-width, initial-scale=1">'',
     ''    <link href="https://fonts.googleapis.com/css?family=Montserrat:300,400,700|Roboto:300,400,700" rel="stylesheet">'',
     ''    <style>'',
     ''      body {'',
     ''        margin: 0;'',
     ''        padding: 0;'',
     ''      }'',
     ''      .back-nav {'',
     ''        padding: 12px 24px;'',
     ''        background: #fafafa;'',
     ''        border-bottom: 1px solid #e5e5e5;'',
     ''      }'',
     ''      .back-nav a {'',
     ''        text-decoration: none;'',
     ''        color: #1DA2BD;'',
     ''        font-family: Montserrat, sans-serif;'',
     ''        font-weight: 700;'',
     ''        font-size: 14px;'',
     ''      }'',
     ''    </style>'',
     ''  </head>'',
     ''  <body>'',
     ''    <div class="back-nav">'',
     ''      <a href="../../">'' @ left_arrow @ '' Back to Manual</a>'',
     ''    </div>'',
     ''    <redoc spec-url='openapi.yaml'></redoc>'',
     ''    <script src="https://cdn.redoc.ly/redoc/latest/bundles/redoc.standalone.js"> </script>'',
     ''  </body>'',
     ''</html>'',
     []]\<close>

fun llms_link :: "string \<times> string \<times> string \<Rightarrow> string" where
  \<open>llms_link (label, url, description) = ''- ['' @ label @ ''](''  @ url @ ''): '' @ description\<close>

definition llms_parts :: "string list" where
  \<open>llms_parts =
     [''# '' @ llms_title, [], ''> '' @ llms_summary, [], llms_usage_rules, [], llms_android_imports, [],
      llms_android_reference, [], llms_android_transport, [], llms_backend_imports, [],
      llms_backend_reference, [], llms_backend_settings, [], llms_temporal_imports, [],
      llms_temporal_config, [], llms_protocol, [], llms_examples, [], llms_reference_note, [],
      ''## Android SDK'', []]
     @ map llms_link llms_android_links @ [[], ''## Backend (FastAPI)'', []]
     @ map llms_link llms_backend_links @ [[], ''## Protocol'', []]
     @ map llms_link llms_protocol_links @ [[], ''## Examples'', []]
     @ map llms_link llms_example_links @ [[], ''## Optional'', []]
     @ map llms_link llms_optional_links
     @ [[], ''## Temporal Adapter'', [],
        ''- [Temporal Adapter Guide](./adapters/temporal/): Runtime-specific integration guidance.'',
        ''- [Adapters Overview](./adapters/): Adapter boundary and publishable package overview.'', []]\<close>

definition render_llms_txt :: string where
  "render_llms_txt = rstrip (join_with [line_feed] llms_parts) @ [line_feed]"

section \<open>Steps\<close>

record docs_args =
  da_skip_build :: bool
  da_dokka_source :: path
  da_destination_android :: path
  da_destination_backend :: path
  da_destination_llms :: path

definition default_docs_args :: "path \<Rightarrow> docs_args" where
  "default_docs_args root = \<lparr>da_skip_build = False,
     da_dokka_source = root @ [''android'', ''build'', ''dokka'', ''html''],
     da_destination_android = root @ [''docs'', ''reference'', ''android-ref''],
     da_destination_backend = root @ [''docs'', ''reference'', ''backend-api''],
     da_destination_llms = root @ [''docs'', ''llms.txt'']\<rparr>"

definition remove_legacy_android_reference :: "path \<Rightarrow> file_tree \<Rightarrow> unit fs_result" where
  "remove_legacy_android_reference legacy t = (if is_dir t legacy then rmtree legacy t else (Inr (), t))"

text \<open>\<open>if destination.exists(): shutil.rmtree(destination)\<close>\<close>

definition remove_existing :: "path \<Rightarrow> file_tree \<Rightarrow> unit fs_result" where
  "remove_existing p t = (if path_exists t p then rmtree p t else (Inr (), t))"

definition prepare_android_reference :: "path \<Rightarrow> path \<Rightarrow> file_tree \<Rightarrow> path fs_result" where
  "prepare_android_reference source destination t =
     (if \<not> is_dir t source then (Inl (NotFoundError source), t)
      else and_then (remove_existing destination t)
        (\<lambda>_ t1. and_then (make_dirs (butlast destination) t1)
        (\<lambda>_ t2. and_then (copytree source destination t2)
        (\<lambda>_ t3.
           let main_js = destination @ [''scripts'', ''main.js''] in
           and_then (if path_exists t3 main_js then append_file main_js back_link_js t3 else (Inr (), t3))
             (\<lambda>_ t4. (Inr destination, t4))))))"

definition prepare_backend_reference :: "path \<Rightarrow> path \<Rightarrow> file_tree \<Rightarrow> unit fs_result" where
  "prepare_backend_reference root destination_dir t =
     (let openapi_source = root @ [''protocol'', ''openapi'', ''taskbridge.openapi.yaml''];
          schemas_source = root @ [''protocol'', ''schemas''] in
      if \<not> path_exists t openapi_source then (Inr (), t)
      else and_then (make_dirs destination_dir t)
        (\<lambda>_ t1. and_then (copy2 openapi_source (destination_dir @ [''openapi.yaml'']) t1)
        (\<lambda>_ t2.
           let schemas_destination = butlast destination_dir @ [''schemas''] in
           and_then (if is_dir t2 schemas_source
                     then and_then (remove_existing schemas_destination t2)
                            (\<lambda>_ t3. copytree schemas_source schemas_destination t3)
                     else (Inr (), t2))
             (\<lambda>_ t4. write_file (destination_dir @ [''index.html'']) redoc_html t4))))"

definition prepare_llms_txt :: "path \<Rightarrow> file_tree \<Rightarrow> path fs_result" where
  "prepare_llms_txt destination t =
     and_then (make_dirs (butlast destination) t)
       (\<lambda>_ t1. and_then (write_file destination render_llms_txt t1) (\<lambda>_ t2. (Inr destination, t2)))"

fun remove_all :: "path list \<Rightarrow> file_tree \<Rightarrow> unit fs_result" where
  "remove_all [] t = (Inr (), t)"
| "remove_all (p # ps) t = and_then (remove_legacy_android_reference p t) (\<lambda>_ t1. remove_all ps t1)"

definition legacy_references :: "path \<Rightarrow> path list" where
  "legacy_references root =
     [root @ [''docs'', ''site'', ''reference'', ''android''],
      root @ [''docs'', ''site'', ''reference'', ''android-ref''],
      root @ [''docs'', ''site'', ''reference'', ''backend-api''],
      root @ [''docs'', ''site'', ''reference'', ''schemas''],
      root @ [''docs'', ''reference'', ''android'']]"

text \<open>\<open>main\<close>; \<open>build_backend_reference\<close> does nothing.\<close>

definition docs_main :: "(path \<Rightarrow> file_tree \<Rightarrow> unit fs_result) \<Rightarrow> path \<Rightarrow> docs_args \<Rightarrow> file_tree \<Rightarrow> int fs_result" where
  "docs_main dokka root args t =
     and_then (if da_skip_build args then (Inr (), t) else dokka (root @ [''android'']) t)
       (\<lambda>_ t1. and_then (remove_all (legacy_references root) t1)
       (\<lambda>_ t2. and_then (prepare_android_reference (da_dokka_source args) (da_destination_android args) t2)
       (\<lambda>_ t3. and_then (prepare_backend_reference root (da_destination_backend args) t3)
       (\<lambda>_ t4. and_then (prepare_llms_txt (da_destination_llms args) t4)
       (\<lambda>_ t5. (Inr 0, t5))))))"

section \<open>What the text tells to import\<close>

text \<open>The names between \<open>from <package> import (\<close> and \<open>)\<close> in a fenced block.\<close>

definition import_block :: "string \<Rightarrow> string \<Rightarrow> string list" where
  \<open>import_block package text =
     map (\<lambda>l. takeWhile (\<lambda>c. c \<noteq> CHR '','') (strip l))
       (takeWhile (\<lambda>l. l \<noteq> '')'') (drop 1 (dropWhile (\<lambda>l. l \<noteq> ''from '' @ package @ '' import ('')
          (split_on line_feed text))))\<close>

end
