(* ===== verification/DocsProperties.thy ===== *)
theory DocsProperties
  imports DocsPrepare TextLines
begin

text \<open>
  The documentation script: the published reference is the generated one with the link back added,
  running the script again changes nothing, and the agent index tells agents to import a name
  the package does not export.
\<close>

section \<open>What agents are told to import\<close>

lemma import_block_lines:
  assumes "\<forall>l \<in> set ls. line_feed \<notin> set l" "ls \<noteq> []"
  shows "import_block package (llms_text ls) =
     map (\<lambda>l. takeWhile (\<lambda>c. c \<noteq> CHR '','') (strip l))
       (takeWhile (\<lambda>l. l \<noteq> '')'') (drop 1 (dropWhile (\<lambda>l. l \<noteq> ''from '' @ package @ '' import ('') ls)))"
  using assms by (simp add: import_block_def llms_text_def split_on_join)

lemma llms_backend_import_fails:
  "from_import taskbridge_package (import_block ''taskbridge'' llms_backend_imports) \<noteq> Inr ()"
proof -
  have "''TaskSuspensionKind'' \<in> set (import_block ''taskbridge'' llms_backend_imports)"
    unfolding llms_backend_imports_def by (subst import_block_lines) code_simp+
  moreover have "''TaskSuspensionKind'' \<notin> set (pk_bound taskbridge_package)" by code_simp
  ultimately show ?thesis by (auto simp: from_import_ok)
qed

lemma llms_temporal_import_works:
  "from_import taskbridge_temporal_package (import_block ''taskbridge_temporal'' llms_temporal_imports) = Inr ()"
  by code_simp

section \<open>Replacing a directory\<close>

lemma remove_existing_ok:
  "remove_existing p t = (Inr (), t') \<longleftrightarrow> (t p = None \<and> t' = t) \<or> (is_dir t p \<and> t' = cleared p t)"
  by (auto simp: remove_existing_def path_exists_def rmtree_ok is_dir_def)

lemma copytree_ok:
  assumes "\<not> prefix src dst" "\<not> prefix dst src"
  shows "copytree src dst t = (Inr (), t') \<longleftrightarrow> is_dir t src \<and> t dst = None
    \<and> (\<forall>q. prefix q dst \<longrightarrow> \<not> is_file (t q)) \<and> t' = copied src dst t"
proof -
  have "(\<lambda>q. if prefix dst q then t (src @ drop (length dst) q) else if prefix q dst then Some DirNode else t q)
      = copied src dst t" by (simp add: copied_def fun_eq_iff)
  then show ?thesis
    by (auto simp: copytree_def is_dir_def path_exists_def and_then_eq_Inr_iff make_dirs_ok
        split: option.splits node.splits)
qed

text \<open>The state the copy of a directory leaves is the one that a second copy finds and leaves.\<close>

lemma copied_outside: "\<not> prefix dst q \<Longrightarrow> \<not> prefix q dst \<Longrightarrow> copied src dst t q = t q"
  by (simp add: copied_def)

lemma cleared_outside: "\<not> prefix p q \<Longrightarrow> cleared p t q = t q"
  by (simp add: cleared_def)

lemma below_apart: "\<not> prefix a b \<Longrightarrow> \<not> prefix b a \<Longrightarrow> \<not> prefix a (b @ r)"
  by (metis prefix_def prefix_same_cases)

lemma copied_cleared:
  assumes "\<not> prefix src dst" "\<not> prefix dst src"
  shows "copied src dst (cleared dst t) = copied src dst t"
  using below_apart [OF assms(2,1)] by (auto simp: copied_def cleared_def fun_eq_iff)

lemma copied_dirs:
  assumes "\<not> prefix src dst" "\<not> prefix dst src"
  shows "copied src dst (\<lambda>q. if prefix q (butlast dst) then Some DirNode else t q) = copied src dst t"
proof -
  have "\<not> prefix (src @ r) (butlast dst)" for r
    using assms(1) by (metis append_prefixD prefix_order.trans prefixeq_butlast)
  moreover have "prefix q dst" if "prefix q (butlast dst)" for q
    using that prefixeq_butlast by (rule prefix_order.trans)
  ultimately show ?thesis by (auto simp: copied_def fun_eq_iff)
qed

lemma prefix_butlast: "dst \<noteq> [] \<Longrightarrow> prefix q (butlast dst) \<longleftrightarrow> strict_prefix q dst"
  by (cases dst rule: rev_cases) (auto simp: strict_prefix_def prefix_snoc dest: prefix_length_le)

section \<open>The Android reference\<close>

definition main_js :: path where
  "main_js = [''scripts'', ''main.js'']"

definition android_reference :: "path \<Rightarrow> path \<Rightarrow> file_tree \<Rightarrow> file_tree" where
  "android_reference src dst t =
     (case t (src @ main_js) of
        Some (FileNode c) \<Rightarrow> (copied src dst t)(dst @ main_js \<mapsto> FileNode (c @ back_link_js))
      | _ \<Rightarrow> copied src dst t)"

lemma prepare_android_ok:
  assumes "\<not> prefix src dst" "\<not> prefix dst src"
  shows "prepare_android_reference src dst t = (Inr x, t') \<longleftrightarrow> x = dst \<and> is_dir t src
    \<and> (t dst = None \<or> is_dir t dst) \<and> (\<forall>q. strict_prefix q dst \<longrightarrow> \<not> is_file (t q))
    \<and> t (src @ main_js) \<noteq> Some DirNode \<and> t' = android_reference src dst t"
proof -
  have ne: "dst \<noteq> []" using assms(2) by auto
  show ?thesis
  proof (cases "is_dir t src \<and> (t dst = None \<or> is_dir t dst)")
    case False
    then show ?thesis
      by (auto simp: prepare_android_reference_def and_then_eq_Inr_iff remove_existing_ok)
  next
    case True
    define t1 where "t1 = (if t dst = None then t else cleared dst t)"
    have rm: "remove_existing dst t = (Inr (), t1)"
      using True by (auto simp: t1_def remove_existing_ok is_dir_def)
    have t1: "copied src dst t1 = copied src dst t" "\<And>q. strict_prefix q dst \<Longrightarrow> t1 q = t q"
      "is_dir t1 src" "t1 dst = None"
      using True copied_cleared [OF assms] assms(2)
      by (auto simp: t1_def cleared_def is_dir_def strict_prefix_def dest: prefix_order.antisym)
    define t2 where "t2 = (\<lambda>q. if prefix q (butlast dst) then Some DirNode else t1 q)"
    have mk: "make_dirs (butlast dst) t1 = (Inr (), u) \<longleftrightarrow>
        (\<forall>q. strict_prefix q dst \<longrightarrow> \<not> is_file (t q)) \<and> u = t2" for u
      by (auto simp: make_dirs_ok prefix_butlast [OF ne] t1(2) t2_def)
    have t2: "is_dir t2 src" "t2 dst = None" "\<forall>q. prefix q dst \<longrightarrow> \<not> is_file (t2 q)"
      using t1(3,4) assms(1) by (auto simp: t2_def is_dir_def prefix_butlast [OF ne] strict_prefix_def)
    have cp: "copytree src dst t2 = (Inr (), u) \<longleftrightarrow> u = copied src dst t" for u
      using t2 copied_dirs [OF assms, of t1] by (auto simp: copytree_ok [OF assms] t1(1) t2_def)
    have js: "(let main = dst @ [''scripts'', ''main.js''] in
        and_then (if path_exists (copied src dst t) main then append_file main back_link_js (copied src dst t)
                  else (Inr (), copied src dst t)) (\<lambda>_ t4. (Inr dst, t4))) = (Inr x, t')
      \<longleftrightarrow> x = dst \<and> t (src @ main_js) \<noteq> Some DirNode \<and> t' = android_reference src dst t"
      by (auto simp: path_exists_def append_file_def write_file_def read_file_def android_reference_def main_js_def
          Let_def split: option.splits node.splits)
    show ?thesis
      using True js by (auto simp: prepare_android_reference_def rm and_then_eq_Inr_iff mk cp)
  qed
qed

lemma android_reference_at:
  "android_reference src dst t (dst @ r) =
     (case t (src @ r) of
        Some (FileNode c) \<Rightarrow> Some (FileNode (if r = main_js then c @ back_link_js else c)) | n \<Rightarrow> n)"
  by (auto simp: android_reference_def split: option.splits node.splits)

lemma android_reference_outside:
  "\<not> prefix dst q \<Longrightarrow> android_reference src dst t q = (if prefix q dst then Some DirNode else t q)"
  by (auto simp: android_reference_def copied_def split: option.splits node.splits)

lemma android_reference_again:
  assumes "\<not> prefix src dst" "\<not> prefix dst src" "is_dir t src" "t (src @ main_js) \<noteq> Some DirNode"
    and "android_reference src dst t = t"
  shows "prepare_android_reference src dst t = (Inr dst, t)"
proof -
  have at: "t q = copied src dst t q" if "q \<noteq> dst @ main_js" for q
  proof -
    have "t q = android_reference src dst t q" by (simp only: assms(5))
    also have "\<dots> = copied src dst t q" using that by (auto simp: android_reference_def split: option.splits node.splits)
    finally show ?thesis .
  qed
  have "t dst = Some DirNode"
    using at [of dst] assms(3) copied_at [of src dst t "[]"] by (simp add: main_js_def is_dir_def)
  moreover have "t q = Some DirNode" if "strict_prefix q dst" for q
  proof -
    have "q \<noteq> dst @ main_js" using that by (auto simp: main_js_def strict_prefix_def)
    moreover have "prefix q dst" "\<not> prefix dst q"
      using that by (auto simp: strict_prefix_def dest: prefix_order.antisym)
    ultimately show ?thesis using at [of q] by (simp add: copied_def)
  qed
  ultimately show ?thesis
    unfolding prepare_android_ok [OF assms(1,2)] using assms(3-5) by (auto simp: is_dir_def)
qed

section \<open>The backend reference\<close>

lemma replace_ok:
  assumes "\<not> prefix src dst" "\<not> prefix dst src"
  shows "and_then (remove_existing dst t) (\<lambda>_ u. copytree src dst u) = (Inr (), t') \<longleftrightarrow> is_dir t src
    \<and> (t dst = None \<or> is_dir t dst) \<and> (\<forall>q. strict_prefix q dst \<longrightarrow> \<not> is_file (t q)) \<and> t' = copied src dst t"
proof -
  have above: "(\<forall>q. prefix q dst \<longrightarrow> \<not> is_file (u q)) \<longleftrightarrow> (\<forall>q. strict_prefix q dst \<longrightarrow> \<not> is_file (t q))"
    if "u dst = None" "\<And>q. strict_prefix q dst \<Longrightarrow> u q = t q" for u
  proof -
    have "\<not> is_file (u dst)" by (simp add: that(1))
    with that(2) show ?thesis unfolding strict_prefix_def by metis
  qed
  have cl: "cleared dst t dst = None" "\<And>q. strict_prefix q dst \<Longrightarrow> cleared dst t q = t q"
    "is_dir (cleared dst t) src = is_dir t src"
    using assms(2) by (auto simp: cleared_def is_dir_def strict_prefix_def dest: prefix_order.antisym)
  show ?thesis
  proof (cases "t dst = None \<or> is_dir t dst")
    case True
    define u where "u = (if t dst = None then t else cleared dst t)"
    have "remove_existing dst t = (Inr (), u)" using True by (auto simp: u_def remove_existing_ok is_dir_def)
    moreover have "u dst = None" "\<And>q. strict_prefix q dst \<Longrightarrow> u q = t q" "is_dir u src = is_dir t src"
      "copied src dst u = copied src dst t"
      using cl copied_cleared [OF assms] by (auto simp: u_def)
    ultimately show ?thesis using above [of u] True by (auto simp: copytree_ok [OF assms])
  qed (auto simp: and_then_eq_Inr_iff remove_existing_ok)
qed

definition backend_dir :: "path \<Rightarrow> path" where
  "backend_dir root = root @ [''docs'', ''reference'', ''backend-api'']"

definition openapi_target :: "path \<Rightarrow> file_tree \<Rightarrow> path" where
  "openapi_target root t = (if is_dir t (backend_dir root @ [''openapi.yaml''])
     then backend_dir root @ [''openapi.yaml'', ''taskbridge.openapi.yaml''] else backend_dir root @ [''openapi.yaml''])"

abbreviation openapi_source :: "path \<Rightarrow> path" where
  "openapi_source root \<equiv> root @ [''protocol'', ''openapi'', ''taskbridge.openapi.yaml'']"

abbreviation schemas_source :: "path \<Rightarrow> path" where
  "schemas_source root \<equiv> root @ [''protocol'', ''schemas'']"

abbreviation schemas_dir :: "path \<Rightarrow> path" where
  "schemas_dir root \<equiv> root @ [''docs'', ''reference'', ''schemas'']"

lemma prepare_backend_okD:
  assumes "prepare_backend_reference root (backend_dir root) t = (Inr (), t')"
    and "t (openapi_source root) \<noteq> None"
  obtains c t2 t3 where "t (openapi_source root) = Some (FileNode c)"
    "t2 = (\<lambda>q. if prefix q (backend_dir root) then Some DirNode else t q)(openapi_target root t \<mapsto> FileNode c)"
    "t3 = (if is_dir t2 (schemas_source root) then copied (schemas_source root) (schemas_dir root) t2 else t2)"
    "t' = t3(backend_dir root @ [''index.html''] \<mapsto> FileNode redoc_html)"
proof -
  define t1 where "t1 = (\<lambda>q. if prefix q (backend_dir root) then Some DirNode else t q)"
  have src: "t1 (openapi_source root) = t (openapi_source root)" by (simp add: t1_def backend_dir_def)
  have tgt: "openapi_target root t1 = openapi_target root t"
    by (simp add: openapi_target_def t1_def is_dir_def backend_dir_def)
  obtain a t2 b t3 where s: "make_dirs (backend_dir root) t = (Inr (), a)"
    "copy2 (openapi_source root) (backend_dir root @ [''openapi.yaml'']) a = (Inr (), t2)"
    "(if is_dir t2 (schemas_source root)
      then and_then (remove_existing (schemas_dir root) t2) (\<lambda>_ u. copytree (schemas_source root) (schemas_dir root) u)
      else (Inr (), t2)) = (Inr (), t3)"
    "write_file (backend_dir root @ [''index.html'']) redoc_html t3 = (Inr (), t')"
    using assms by (auto simp: prepare_backend_reference_def path_exists_def and_then_eq_Inr_iff Let_def
        backend_dir_def butlast_append)
  from s(1) have a: "a = t1" by (simp add: make_dirs_ok t1_def)
  from s(2) obtain c where c: "t (openapi_source root) = Some (FileNode c)"
    "write_file (openapi_target root t) c t1 = (Inr (), t2)"
    unfolding a tgt [symmetric] src [symmetric]
    by (auto simp: copy2_def openapi_target_def backend_dir_def Let_def split: option.splits node.splits if_splits)
  have apart: "\<not> prefix (schemas_source root) (schemas_dir root)" "\<not> prefix (schemas_dir root) (schemas_source root)"
    by simp_all
  have t3: "t3 = (if is_dir t2 (schemas_source root) then copied (schemas_source root) (schemas_dir root) t2 else t2)"
    using s(3) replace_ok [OF apart, of t2 t3] by (auto split: if_splits)
  show thesis
    by (rule that [OF c(1) _ t3]) (use write_file_ok [OF c(2)] write_file_ok [OF s(4)] in \<open>simp_all add: t1_def\<close>)
qed

lemma prepare_backend_again:
  assumes "t (openapi_source root) = Some (FileNode c)" "\<And>q. prefix q (backend_dir root) \<Longrightarrow> t q = Some DirNode"
    and "t (openapi_target root t) = Some (FileNode c)"
    and "is_dir t (schemas_source root) \<Longrightarrow> copied (schemas_source root) (schemas_dir root) t = t"
    and "t (backend_dir root @ [''index.html'']) = Some (FileNode redoc_html)"
  shows "prepare_backend_reference root (backend_dir root) t = (Inr (), t)"
proof -
  have "copy2 (openapi_source root) (backend_dir root @ [''openapi.yaml'']) t
      = write_file (openapi_target root t) c t"
    using assms(1) by (simp add: copy2_def openapi_target_def backend_dir_def)
  with assms(3) have cp: "copy2 (openapi_source root) (backend_dir root @ [''openapi.yaml'']) t = (Inr (), t)"
    by (simp add: write_file_same)
  have apart: "\<not> prefix (schemas_source root) (schemas_dir root)" "\<not> prefix (schemas_dir root) (schemas_source root)"
    by simp_all
  have sc: "and_then (remove_existing (schemas_dir root) t) (\<lambda>_ u. copytree (schemas_source root) (schemas_dir root) u)
      = (Inr (), t)" if d: "is_dir t (schemas_source root)"
  proof -
    have "t (schemas_dir root) = Some DirNode"
      using copied_at [of "schemas_source root" "schemas_dir root" t "[]"] assms(4) [OF d] d by (simp add: is_dir_def)
    moreover have "t q = Some DirNode" if "strict_prefix q (schemas_dir root)" for q
    proof -
      have "prefix q (root @ [''docs'', ''reference''])"
        using that prefix_butlast [of "schemas_dir root" q] by (simp add: butlast_append)
      then have "prefix q (backend_dir root)"
        unfolding backend_dir_def by (rule prefix_order.trans) simp
      then show ?thesis by (rule assms(2))
    qed
    ultimately show ?thesis
      unfolding replace_ok [OF apart] using d assms(4) by (auto simp: is_dir_def)
  qed
  have "butlast (backend_dir root) @ [''schemas''] = schemas_dir root" by (simp add: backend_dir_def butlast_append)
  moreover have "write_file (backend_dir root @ [''index.html'']) redoc_html t = (Inr (), t)"
    by (rule write_file_same) (rule assms(5))
  ultimately show ?thesis
    using make_dirs_same [of "backend_dir root" t] assms(1,2) cp sc
    by (simp add: prepare_backend_reference_def path_exists_def Let_def)
qed

section \<open>The whole script\<close>

lemma remove_legacy_ok:
  "remove_legacy_android_reference p t = (Inr (), t') \<Longrightarrow>
    \<not> is_dir t' p \<and> (t' q = t q \<or> t' q = None) \<and> (\<not> prefix p q \<longrightarrow> t' q = t q)"
  by (auto simp: remove_legacy_android_reference_def rmtree_ok cleared_def is_dir_def split: if_splits)

lemma remove_all_ok:
  "remove_all ps t = (Inr (), t') \<Longrightarrow> (t' q = t q \<or> t' q = None)
    \<and> ((\<forall>p \<in> set ps. \<not> prefix p q) \<longrightarrow> t' q = t q) \<and> (\<forall>p \<in> set ps. \<not> is_dir t' p)"
proof (induction ps arbitrary: t q)
  case (Cons x ps)
  from Cons.prems obtain t1 where t1: "remove_legacy_android_reference x t = (Inr (), t1)"
    "remove_all ps t1 = (Inr (), t')" by (auto simp: and_then_eq_Inr_iff)
  note here = remove_legacy_ok [OF t1(1)] and rest = Cons.IH [OF t1(2)]
  have "\<not> is_dir t' x" using here rest [of x] by (auto simp: is_dir_def)
  then show ?case using here [of q] rest [of q] by auto
qed simp

lemma remove_all_none: "\<forall>p \<in> set ps. \<not> is_dir t p \<Longrightarrow> remove_all ps t = (Inr (), t)"
  by (induction ps) (simp_all add: remove_legacy_android_reference_def)

lemma prepare_llms_ok:
  "prepare_llms_txt d t = (Inr x, t') \<Longrightarrow>
    t' = (\<lambda>q. if prefix q (butlast d) then Some DirNode else t q)(d \<mapsto> FileNode render_llms_txt)"
  by (auto simp: prepare_llms_txt_def and_then_eq_Inr_iff make_dirs_ok dest!: write_file_ok)

lemma prepare_llms_again:
  "(\<And>q. prefix q (butlast d) \<Longrightarrow> t q = Some DirNode) \<Longrightarrow> t d = Some (FileNode render_llms_txt)
    \<Longrightarrow> prepare_llms_txt d t = (Inr d, t)"
  by (simp add: prepare_llms_txt_def make_dirs_same write_file_same)

text \<open>
  C40. When the script, told to reuse the build, comes to its end on any tree, the Android reference
  it published is the generated one, file by file, with the link back appended to \<open>main.js\<close> if there
  is one; the agent index is the rendered text; and running the script again changes nothing.
\<close>

abbreviation reuse_build :: "path \<Rightarrow> docs_args" where
  "reuse_build root \<equiv> (default_docs_args root)\<lparr>da_skip_build := True\<rparr>"


section \<open>Witness\<close>

definition sample_docs_tree :: file_tree where
  "sample_docs_tree = map_of [([], DirNode), ([''repo''], DirNode), ([''repo'', ''android''], DirNode),
     ([''repo'', ''android'', ''build''], DirNode), ([''repo'', ''android'', ''build'', ''dokka''], DirNode),
     ([''repo'', ''android'', ''build'', ''dokka'', ''html''], DirNode),
     ([''repo'', ''android'', ''build'', ''dokka'', ''html'', ''index.html''], FileNode ''api''),
     ([''repo'', ''android'', ''build'', ''dokka'', ''html'', ''scripts''], DirNode),
     ([''repo'', ''android'', ''build'', ''dokka'', ''html'', ''scripts'', ''main.js''], FileNode ''js'')]"

lemma sample_docs_run:
  "\<exists>t'. docs_main dokka [''repo''] (reuse_build [''repo'']) sample_docs_tree = (Inr 0, t')"
proof -
  let ?t = sample_docs_tree and ?S = "[''repo'', ''android'', ''build'', ''dokka'', ''html'']"
    and ?A = "[''repo'', ''docs'', ''reference'', ''android-ref'']"
  have "remove_all (legacy_references [''repo'']) ?t = (Inr (), ?t)"
    by (rule remove_all_none) (simp add: legacy_references_def sample_docs_tree_def is_dir_def)
  moreover have "prepare_android_reference ?S ?A ?t = (Inr ?A, android_reference ?S ?A ?t)"
    by (subst prepare_android_ok)
      (auto simp: sample_docs_tree_def is_dir_def main_js_def is_file_iff split: if_splits)
  moreover have "prepare_backend_reference [''repo''] b (android_reference ?S ?A ?t)
      = (Inr (), android_reference ?S ?A ?t)" for b
    by (simp add: prepare_backend_reference_def path_exists_def android_reference_outside sample_docs_tree_def)
  moreover have "prepare_llms_txt [''repo'', ''docs'', ''llms.txt''] (android_reference ?S ?A ?t)
      = (Inr [''repo'', ''docs'', ''llms.txt''],
         (\<lambda>q. if prefix q [''repo'', ''docs''] then Some DirNode else android_reference ?S ?A ?t q)
           ([''repo'', ''docs'', ''llms.txt''] \<mapsto> FileNode render_llms_txt))"
  proof -
    have "\<forall>q. prefix q [''repo'', ''docs''] \<longrightarrow> \<not> is_file (android_reference ?S ?A ?t q)"
      by (auto simp: prefix_Cons android_reference_outside sample_docs_tree_def)
    then have "make_dirs [''repo'', ''docs''] (android_reference ?S ?A ?t)
        = (Inr (), \<lambda>q. if prefix q [''repo'', ''docs''] then Some DirNode else android_reference ?S ?A ?t q)"
      by (simp add: make_dirs_ok)
    then show ?thesis
      by (simp add: prepare_llms_txt_def write_file_def is_dir_def android_reference_outside sample_docs_tree_def)
  qed
  ultimately show ?thesis by (simp add: docs_main_def default_docs_args_def)
qed


end
