(* ===== verification/TemporalStores.thy ===== *)
theory TemporalStores
  imports TemporalProperties RedisContract
begin

text \<open>
  The Temporal host on the event store it is wired with. The executor, its monitors, the resume
  service and the action service are run side by side over a store that keeps the reader's
  contract and over the list of events: the two runs answer alike at every step, and what the
  store holds of a task is the tail of the list that trimming has left. So what is proved of the
  traces over the list holds of a Redis stream.
\<close>

section \<open>Stores one can write to\<close>

text \<open>
  An append succeeds for a payload of distinct keys and a time stamp the store can read back, and
  a store whose log has a length in \<open>room\<close> evicts nothing.
\<close>

locale writable_store = event_reader +
  fixes clock :: "datetime \<Rightarrow> bool"
    and room :: "nat \<Rightarrow> bool"
  assumes append_law: "valid s \<Longrightarrow> wf_dict (ev_payload e) \<Longrightarrow> clock (ev_created_at e) \<Longrightarrow>
      \<exists>i s' n e'. es_append_event ops e s = (Inr (e\<lparr>ev_event_id := i\<rparr>), s') \<and> valid s'
        \<and> n \<le> length (log s (ev_task_id e)) \<and> (room (length (log s (ev_task_id e))) \<longrightarrow> n = 0)
        \<and> same_event (e\<lparr>ev_event_id := i\<rparr>) e'
        \<and> log s' = (log s)(ev_task_id e := drop n (log s (ev_task_id e)) @ [e'])"

definition redis_clock :: "(string \<Rightarrow> datetime option) \<Rightarrow> datetime \<Rightarrow> bool" where
  "redis_clock parse t \<longleftrightarrow> parse (isoformat t) = Some t"

sublocale redis_store \<subseteq> written: writable_store "redis_event_store client settings parse"
  "store_valid settings parse kvalid entries" "store_log settings parse entries" key_newer redis_id
  "redis_clock parse" "below_limit (se_max_stream_length settings)"
proof unfold_locales
  fix s and e :: task_event
  assume v: "store_valid settings parse kvalid entries s" and "wf_dict (ev_payload e)" "redis_clock parse (ev_created_at e)"
  then have e: "storable parse e" by (simp add: storable_def redis_clock_def)
  from store_append [OF v e] obtain i k' n where a:
    "redis_append_event client settings e s = (Inr (e\<lparr>ev_event_id := i\<rparr>), k')"
    "store_valid settings parse kvalid entries k'" "n \<le> length (store_log settings parse entries s (ev_task_id e))"
    "below_limit (se_max_stream_length settings) (length (store_log settings parse entries s (ev_task_id e))) \<longrightarrow> n = 0"
    "store_log settings parse entries k' = (store_log settings parse entries s)(ev_task_id e :=
        drop n (store_log settings parse entries s (ev_task_id e)) @ [stored_event (e\<lparr>ev_event_id := i\<rparr>)])"
    by blast
  have "same_event (e\<lparr>ev_event_id := i\<rparr>) (stored_event (e\<lparr>ev_event_id := i\<rparr>))"
    using e by (intro stored_same) (simp add: storable_def)
  with a show "\<exists>i s' n e'. es_append_event (redis_event_store client settings parse) e s
      = (Inr (e\<lparr>ev_event_id := i\<rparr>), s') \<and> store_valid settings parse kvalid entries s'
    \<and> n \<le> length (store_log settings parse entries s (ev_task_id e))
    \<and> (below_limit (se_max_stream_length settings) (length (store_log settings parse entries s (ev_task_id e))) \<longrightarrow> n = 0)
    \<and> same_event (e\<lparr>ev_event_id := i\<rparr>) e'
    \<and> store_log settings parse entries s' = (store_log settings parse entries s)(ev_task_id e :=
        drop n (store_log settings parse entries s (ev_task_id e)) @ [e'])"
    by (auto simp: redis_event_store_def)
qed

context redis_store
begin

lemmas redis_writable = written.writable_store_axioms

end

interpretation fake_written: writable_store "redis_event_store fake_redis_client default_redis_settings parse_iso"
  "store_valid default_redis_settings parse_iso fake_valid stream_entries"
  "store_log default_redis_settings parse_iso stream_entries" key_newer redis_id
  "redis_clock parse_iso" "below_limit (se_max_stream_length default_redis_settings)"
  by (rule fake_store.redis_writable)

section \<open>The relation\<close>

text \<open>An event as it was logged: its id is the store's, its payload compares equal.\<close>

definition logged :: "task_event \<Rightarrow> task_event \<Rightarrow> bool" where
  "logged e e' \<longleftrightarrow> (\<exists>i. same_event (e\<lparr>ev_event_id := i\<rparr>) e')"

definition tail_of :: "(nat \<Rightarrow> bool) \<Rightarrow> task_event list \<Rightarrow> task_event list \<Rightarrow> bool" where
  "tail_of room stored history \<longleftrightarrow> (\<exists>n \<le> length history. list_all2 logged (drop n history) stored
     \<and> ((\<forall>L < length history. room L) \<longrightarrow> n = 0))"

lemma tail_of_append:
  assumes "tail_of room stored history" "logged e e'" "m \<le> length stored" "room (length stored) \<longrightarrow> m = 0"
  shows "tail_of room (drop m stored @ [e']) (history @ [e])"
proof -
  from assms(1) obtain n where n: "n \<le> length history" "list_all2 logged (drop n history) stored"
    "(\<forall>L < length history. room L) \<longrightarrow> n = 0" by (auto simp: tail_of_def)
  have len: "length stored = length history - n" using list_all2_lengthD [OF n(2)] by simp
  have "list_all2 logged (drop m (drop n history)) (drop m stored)" using n(2) by (rule list_all2_dropI)
  then have "list_all2 logged (drop (n + m) history @ [e]) (drop m stored @ [e'])"
    using assms(2) by (intro list_all2_appendI) (simp_all add: add.commute)
  moreover have "n + m \<le> length history" using n(1) assms(3) len by simp
  moreover have "n + m = 0" if "\<forall>L < length (history @ [e]). room L"
  proof -
    have "n = 0" using n(3) that by simp
    with len that assms(4) show ?thesis by simp
  qed
  ultimately show ?thesis unfolding tail_of_def by (intro exI [of _ "n + m"]) simp
qed

lemma tail_of_types:
  "tail_of room stored history \<Longrightarrow> \<exists>n. map ev_type stored = drop n (map ev_type history)
     \<and> ((\<forall>L < length history. room L) \<longrightarrow> n = 0)"
proof -
  assume "tail_of room stored history"
  then obtain n where n: "list_all2 logged (drop n history) stored" "(\<forall>L < length history. room L) \<longrightarrow> n = 0"
    by (auto simp: tail_of_def)
  have "list_all2 (\<lambda>e e'. ev_type e = ev_type e') (drop n history) stored"
    using n(1) by (rule list_all2_mono) (auto simp: logged_def same_event_def)
  then have "list_all2 (=) (map ev_type (drop n history)) (map ev_type stored)" by (simp add: list.rel_map)
  then have "map ev_type stored = drop n (map ev_type history)" by (simp add: list.rel_eq drop_map)
  with n(2) show ?thesis by blast
qed

definition log_refines ::
  "('v \<Rightarrow> bool) \<Rightarrow> ('v \<Rightarrow> string \<Rightarrow> task_event list) \<Rightarrow> (nat \<Rightarrow> bool) \<Rightarrow> string
    \<Rightarrow> ('r, 'v, 'p, 'c, 'h) world \<Rightarrow> ('r, event_list, 'p, 'c, 'h) world \<Rightarrow> bool" where
  "log_refines valid log room tid w a \<longleftrightarrow> w_registry a = w_registry w \<and> w_suspensions a = w_suspensions w
     \<and> w_receipts a = w_receipts w \<and> w_host a = w_host w \<and> w_metrics a = w_metrics w
     \<and> valid (w_events w) \<and> tail_of room (log (w_events w) tid) (task_events (w_events a) tid)"

text \<open>Two outcomes: the same exception, or related values; related worlds in both cases.\<close>

fun related ::
  "('x \<Rightarrow> 'y \<Rightarrow> bool) \<Rightarrow> ('w \<Rightarrow> 'a \<Rightarrow> bool) \<Rightarrow> (exc + 'x) \<times> 'w \<Rightarrow> (exc + 'y) \<times> 'a \<Rightarrow> bool" where
  "related V R (Inl e, w) m' \<longleftrightarrow> fst m' = Inl e \<and> R w (snd m')"
| "related V R (Inr x, w) m' \<longleftrightarrow> (\<exists>y. fst m' = Inr y \<and> V x y) \<and> R w (snd m')"

lemma related_and_then:
  assumes "related V R m m'" "\<And>x y w a. V x y \<Longrightarrow> R w a \<Longrightarrow> related V' R (k x w) (k' y a)"
  shows "related V' R (and_then m k) (and_then m' k')"
  using assms by (cases m; cases m'; cases "fst m") auto

lemma related_return: "V x y \<Longrightarrow> R w a \<Longrightarrow> related V R (Inr x, w) (Inr y, a)"
  by simp

lemma related_raise: "R w a \<Longrightarrow> related V R (Inl e, w) (Inl e, a)"
  by simp

lemma related_snd: "related V R m m' \<Longrightarrow> R (snd m) (snd m')"
  by (cases m; cases "fst m") auto

lemma related_ignore: "related V R m m' \<Longrightarrow> related (\<lambda>_ _. True) R m m'"
  by (cases m; cases "fst m") auto

abbreviation any :: "'x \<Rightarrow> 'y \<Rightarrow> bool" where
  "any x y \<equiv> True"

lemma log_refines_parts:
  assumes "log_refines valid log room tid w a"
  shows "related (=) (log_refines valid log room tid) (on_registry f w) (on_registry f a)"
    and "related (=) (log_refines valid log room tid) (on_suspensions g w) (on_suspensions g a)"
    and "related (=) (log_refines valid log room tid) (on_receipts h w) (on_receipts h a)"
    and "log_refines valid log room tid (increment_counter c w) (increment_counter c a)"
  using assms
  by (cases "f (w_registry w)"; cases "fst (f (w_registry w))"; cases "g (w_suspensions w)";
      cases "fst (g (w_suspensions w))"; cases "h (w_receipts w)"; cases "fst (h (w_receipts w))";
      simp add: log_refines_def on_store_defs; fail)+

section \<open>The executor\<close>

definition list_config :: "(task_dict, 'v, 'p) streaming_config \<Rightarrow> 'p host_config" where
  "list_config cfg = \<lparr>sx_registry = sx_registry cfg, sx_event_store = demo_event_store,
     sx_put_suspension = sx_put_suspension cfg, sx_task_queue = sx_task_queue cfg, sx_str = sx_str cfg\<rparr>"

lemma list_config_simps [simp]:
  "sx_registry (list_config cfg) = sx_registry cfg" "sx_event_store (list_config cfg) = demo_event_store"
  "sx_put_suspension (list_config cfg) = sx_put_suspension cfg" "sx_task_queue (list_config cfg) = sx_task_queue cfg"
  "sx_str (list_config cfg) = sx_str cfg"
  by (simp_all add: list_config_def)

definition list_service ::
  "('r, 'v, 'p, 'c, 'h) action_service \<Rightarrow> ('r, event_list, 'p, 'c, 'h) action_service" where
  "list_service svc = \<lparr>as_registry = as_registry svc, as_suspension_store = as_suspension_store svc,
     as_receipt_store = as_receipt_store svc, as_event_store = demo_event_store,
     as_ownership_policy = as_ownership_policy svc, as_resume_service = DefaultResume,
     as_action_validation_policy = as_action_validation_policy svc\<rparr>"

text \<open>What the host does: a submission, a cancellation, a wake-up of a monitor, an action.\<close>

datatype host_move =
    MvSubmit temporal_env datetime task_record
  | MvCancel temporal_env task_record
  | MvWake datetime string wake
  | MvAct temporal_env datetime datetime submit_action_command

fun temporal_move ::
  "(task_dict, 'v, 'p) streaming_config \<Rightarrow> (task_dict, 'v, 'p, 'c, temporal_state) action_service
    \<Rightarrow> host_move \<Rightarrow> (task_dict, 'v, 'p, 'c) temporal_world \<Rightarrow> (task_dict, 'v, 'p, 'c) temporal_world" where
  "temporal_move cfg svc (MvSubmit env now task) w = snd (streaming_submit_task cfg env now task w)"
| "temporal_move cfg svc (MvCancel env task) w = snd (streaming_request_cancellation cfg env task w)"
| "temporal_move cfg svc (MvWake now tid wake) w = monitor_step cfg now tid wake w"
| "temporal_move cfg svc (MvAct env accept_now now command) w =
     snd (submit_action (svc\<lparr>as_resume_service := HostResume (temporal_resume_task env)\<rparr>) accept_now now command w)"

text \<open>Time stamps the store can read back, and a workflow result that is a JSON value.\<close>

fun move_ok :: "(datetime \<Rightarrow> bool) \<Rightarrow> host_move \<Rightarrow> bool" where
  "move_ok clock (MvSubmit env now task) = clock now"
| "move_ok clock (MvCancel env task) = True"
| "move_ok clock (MvWake now tid (Woken v)) = (clock now \<and> wf_json v)"
| "move_ok clock (MvWake now tid (Raised e)) = clock now"
| "move_ok clock (MvAct env accept_now now command) = clock now"

lemma log_refines_temporal:
  "log_refines valid log room tid w a \<Longrightarrow> log_refines valid log room tid (on_temporal f w) (on_temporal f a)"
  by (simp add: log_refines_def on_temporal_def)

lemma related_client:
  "log_refines valid log room tid w a \<Longrightarrow>
    related (=) (log_refines valid log room tid) (get_client env w) (get_client env a)"
  by (auto simp: get_client_def log_refines_temporal log_refines_def [THEN iffD1] split: sum.splits)

lemma related_calls:
  assumes "log_refines valid log room tid w a"
  shows "related (=) (log_refines valid log room tid) (on_calls f w) (on_calls f a)"
proof -
  have "w_host a = w_host w" using assms by (simp add: log_refines_def)
  with log_refines_temporal [OF assms] show ?thesis
    by (cases "f (tp_calls (w_host w))"; cases "fst (f (tp_calls (w_host w)))") (auto simp: on_calls_def)
qed

lemma related_resume:
  "log_refines valid log room tid w a \<Longrightarrow>
    related (=) (log_refines valid log room tid) (temporal_resume_task env c s w) (temporal_resume_task env c s a)"
  unfolding temporal_resume_task_def by (rule related_and_then [OF related_client]) (simp_all add: related_calls)

lemma related_cancel:
  assumes "log_refines valid log room tid w a"
  shows "related (=) (log_refines valid log room tid) (streaming_request_cancellation cfg env task w)
    (streaming_request_cancellation (list_config cfg) env task a)"
  unfolding streaming_request_cancellation_def list_config_simps
  by (rule related_and_then [OF related_client [OF assms]]) (simp add: related_calls)

lemma related_status:
  "log_refines valid log room tid w a \<Longrightarrow>
    related (=) (log_refines valid log room tid) (streaming_status cfg now t st w) (streaming_status (list_config cfg) now t st a)"
  unfolding streaming_status_def list_config_simps by (rule log_refines_parts)

text \<open>The payloads the executor writes have distinct keys.\<close>

lemma payloads_ok:
  "wf_dict (suspended_payload task)" "s \<in> set (progress_steps_for_task_type ty) \<Longrightarrow> wf_dict s"
  "wf_dict [(k, JStr x)]" "wf_dict [(''source'', JStr x), (''taskType'', JStr y)]"
  "wf_json v \<Longrightarrow> wf_dict (completion_payload str v)" "wf_dict (ev_payload (accepted_event now command))"
  by (auto simp: wf_dict_def suspended_payload_def progress_steps_for_task_type_def progress_step_def
      completion_payload_def accepted_event_def wf_json_items_iff dict_get_def
      split: json.splits option.splits if_splits dest!: map_of_SomeD)

section \<open>The two runs\<close>

lemma related_any: "related (=) R m m' \<Longrightarrow> related any R m m'"
  by (rule related_ignore)

context writable_store
begin

lemma related_append:
  assumes R: "log_refines valid log room tid w a" and e: "wf_dict (ev_payload e)" "clock (ev_created_at e)"
  shows "related any (log_refines valid log room tid)
    (on_events (es_append_event ops e) w) (on_events (es_append_event demo_event_store e) a)"
proof -
  have v: "valid (w_events w)" using R by (simp add: log_refines_def)
  obtain i s' n e' where x: "es_append_event ops e (w_events w) = (Inr (e\<lparr>ev_event_id := i\<rparr>), s')" "valid s'"
    "n \<le> length (log (w_events w) (ev_task_id e))" "room (length (log (w_events w) (ev_task_id e))) \<longrightarrow> n = 0"
    "same_event (e\<lparr>ev_event_id := i\<rparr>) e'"
    "log s' = (log (w_events w))(ev_task_id e := drop n (log (w_events w) (ev_task_id e)) @ [e'])"
    using append_law [OF v e] by blast
  have "tail_of room (log s' tid) (task_events (w_events a @ [e]) tid)"
  proof (cases "ev_task_id e = tid")
    case True
    have "logged e e'" using x(5) by (auto simp: logged_def)
    with R True x show ?thesis
      by (simp add: log_refines_def task_events_append tail_of_append)
  next
    case False
    with R x(6) show ?thesis by (simp add: log_refines_def task_events_append)
  qed
  with R x(1,2) show ?thesis
    by (simp add: on_events_def demo_event_store_def demo_append_event_def log_refines_def)
qed

lemma related_streaming_append:
  assumes R: "log_refines valid log room tid w a" and cfg: "sx_event_store cfg = ops"
    and "wf_dict payload" "clock now"
  shows "related any (log_refines valid log room tid) (streaming_append_event cfg now t ty payload w)
    (streaming_append_event (list_config cfg) now t ty payload a)"
proof -
  have "w_host a = w_host w" using R by (simp add: log_refines_def)
  then show ?thesis
    unfolding streaming_append_event_def Let_def cfg list_config_simps
    using related_append [OF log_refines_temporal [OF R]] assms(3,4) by simp
qed

lemma related_submit:
  assumes R: "log_refines valid log room tid w a" and cfg: "sx_event_store cfg = ops" and "clock now"
  shows "related any (log_refines valid log room tid) (streaming_submit_task cfg env now task w)
    (streaming_submit_task (list_config cfg) env now task a)"
  unfolding streaming_submit_task_def
  using cfg \<open>clock now\<close>
  by (auto intro!: related_and_then [OF related_client [OF R]] related_and_then [OF related_calls]
      related_and_then [OF related_status] related_and_then [OF related_streaming_append] payloads_ok
      log_refines_temporal simp: set_monitor_def)

lemma related_body:
  assumes R: "log_refines valid log room tid w a" and cfg: "sx_event_store cfg = ops"
    and "case wake of Woken v \<Rightarrow> clock now \<and> wf_json v | Raised e \<Rightarrow> clock now"
    and "\<forall>s ss. pc = MonSleep s ss \<longrightarrow> wf_dict s"
  shows "related (=) (log_refines valid log room tid) (monitor_body cfg now task pc wake w)
    (monitor_body (list_config cfg) now task pc wake a)"
proof (cases wake)
  case (Raised e)
  then show ?thesis using R by simp
next
  case (Woken v)
  have put: "log_refines valid log room tid (put_suspension cfg r w) (put_suspension (list_config cfg) r a)" for r
    using R by (simp add: put_suspension_def log_refines_def split: option.splits)
  show ?thesis
  proof (cases pc)
    case MonBegin
    then show ?thesis using R Woken by simp
  next
    case (MonSleep s ss)
    then show ?thesis
      using R Woken assms(3,4) by (auto intro!: related_and_then [OF related_streaming_append [OF R cfg]])
  next
    case MonSuspend
    then show ?thesis
      using put Woken assms(3)
      by (auto intro!: related_and_then [OF related_streaming_append [OF put cfg]] payloads_ok)
  next
    case MonResult
    then show ?thesis
      using Woken assms(3)
      by (auto intro!: related_and_then [OF related_status [OF R]] related_and_then [OF related_streaming_append [OF _ cfg]]
          payloads_ok)
  qed
qed

lemma related_except:
  assumes "log_refines valid log room tid w a" "sx_event_store cfg = ops" "clock now"
  shows "related any (log_refines valid log room tid) (monitor_except cfg now task e w)
    (monitor_except (list_config cfg) now task e a)"
  using assms(2,3) unfolding monitor_except_def
  by (auto intro!: related_and_then [OF related_status [OF assms(1)]] related_and_then [OF related_streaming_append]
      payloads_ok)

lemma related_step:
  assumes R: "log_refines valid log room t w a" and cfg: "sx_event_store cfg = ops"
    and ok: "move_ok clock (MvWake now tid wake)"
    and steps: "\<And>task s ss. dict_get (tp_monitors (w_host w)) tid = Some (task, MonSleep s ss) \<Longrightarrow> wf_dict s"
  shows "log_refines valid log room t (monitor_step cfg now tid wake w) (monitor_step (list_config cfg) now tid wake a)"
proof (cases "dict_get (tp_monitors (w_host w)) tid")
  case None
  then show ?thesis using R by (simp add: monitor_step_def log_refines_def)
next
  case (Some m)
  obtain task pc where m: "m = (task, pc)" by (cases m)
  have mon: "dict_get (tp_monitors (w_host a)) tid = Some (task, pc)" using R Some m by (simp add: log_refines_def)
  have ok': "case wake of Woken v \<Rightarrow> clock now \<and> wf_json v | Raised e \<Rightarrow> clock now" using ok by (cases wake) simp_all
  then have "clock now" by (cases wake) simp_all
  have "\<forall>s ss. pc = MonSleep s ss \<longrightarrow> wf_dict s" using steps Some m by auto
  from related_body [OF R cfg ok' this, of task] obtain r w1 a1 where
    b: "monitor_body cfg now task pc wake w = (r, w1)" "monitor_body (list_config cfg) now task pc wake a = (r, a1)"
    and R1: "log_refines valid log room t w1 a1"
    by (cases "monitor_body cfg now task pc wake w"; cases "fst (monitor_body cfg now task pc wake w)";
        cases "monitor_body (list_config cfg) now task pc wake a") auto
  note ex = related_snd [OF related_except [OF R1 cfg \<open>clock now\<close>, of task]]
  show ?thesis
    using Some m mon b R1 ex
    by (auto simp: monitor_step_def set_monitor_def pop_monitor_def log_refines_temporal split: sum.splits option.splits)
qed

lemma related_accept:
  assumes R: "log_refines valid log room t w a" and svc: "as_event_store svc = ops" and "clock now"
    and resume: "\<And>w a. log_refines valid log room t w a \<Longrightarrow> related (=) (log_refines valid log room t)
      (resume_task (as_resume_service svc) command granted w) (resume_task (as_resume_service svc') command granted a)"
    and svc': "as_receipt_store svc' = as_receipt_store svc" "as_event_store svc' = demo_event_store"
      "as_suspension_store svc' = as_suspension_store svc"
  shows "related (=) (log_refines valid log room t) (finish_accept svc now command granted w)
    (finish_accept svc' now command granted a)"
proof -
  have after: "related (=) (log_refines valid log room t)
      (case m of
         (Inl e, w3) \<Rightarrow>
           (if is_exception e
            then (Inr (action_result command SA_ACCEPTED), increment_counter ''actions_accepted_total''
                    (increment_counter ''actions_resume_pending_total'' w3))
            else (Inl e, w3))
       | (Inr _, w3) \<Rightarrow> and_then (on_suspensions (ss_mark_resume_dispatched (as_suspension_store svc)
                        (sc_task_id command) (sc_suspend_id command)) w3)
              (\<lambda>_ w4. (Inr (action_result command SA_ACCEPTED), increment_counter ''actions_accepted_total'' w4)))
      (case m' of
         (Inl e, w3) \<Rightarrow>
           (if is_exception e
            then (Inr (action_result command SA_ACCEPTED), increment_counter ''actions_accepted_total''
                    (increment_counter ''actions_resume_pending_total'' w3))
            else (Inl e, w3))
       | (Inr _, w3) \<Rightarrow> and_then (on_suspensions (ss_mark_resume_dispatched (as_suspension_store svc)
                        (sc_task_id command) (sc_suspend_id command)) w3)
              (\<lambda>_ w4. (Inr (action_result command SA_ACCEPTED), increment_counter ''actions_accepted_total'' w4)))"
    if "related (=) (log_refines valid log room t) m m'"
    for m :: "(exc + unit) \<times> ('b, 'a, 'c, 'd, 'e) world" and m' :: "(exc + unit) \<times> ('b, event_list, 'c, 'd, 'e) world"
    using that
    by (cases m; cases m'; cases "fst m")
      (auto intro!: related_and_then [OF log_refines_parts(2)] log_refines_parts(4))
  show ?thesis
    unfolding finish_accept_def svc svc'
    by (intro related_and_then [OF log_refines_parts(3) [OF R]] related_and_then [OF related_append] after resume)
      (simp_all add: payloads_ok, simp add: accepted_event_def \<open>clock now\<close>)
qed

lemma related_action:
  assumes R: "log_refines valid log room t w a" and svc: "as_event_store svc = ops" and "clock now"
    and resume: "\<And>granted w a. log_refines valid log room t w a \<Longrightarrow> related (=) (log_refines valid log room t)
      (resume_task (as_resume_service svc) command granted w) (resume_task (as_resume_service svc') command granted a)"
    and svc': "as_registry svc' = as_registry svc" "as_receipt_store svc' = as_receipt_store svc"
      "as_event_store svc' = demo_event_store" "as_suspension_store svc' = as_suspension_store svc"
      "as_ownership_policy svc' = as_ownership_policy svc"
      "as_action_validation_policy svc' = as_action_validation_policy svc"
      "is_default_resume (as_resume_service svc') = is_default_resume (as_resume_service svc)"
  shows "related (=) (log_refines valid log room t) (submit_action svc accept_now now command w)
    (submit_action svc' accept_now now command a)"
proof -
  have same: "submit_checks svc' command a = submit_checks svc command w"
  proof -
    have chk: "check_receipt svc' c t s r = check_receipt svc c t s r" for c t s r
      unfolding check_receipt_def svc'(6,7) ..
    have parts: "w_registry a = w_registry w" "w_suspensions a = w_suspensions w" "w_receipts a = w_receipts w"
      using R by (simp_all add: log_refines_def)
    show ?thesis unfolding submit_checks_def get_suspension_or_not_found_def svc'(1,2,4,5) parts chk ..
  qed
  have lost: "lost_race svc' command a1 = lost_race svc command w1" if "log_refines valid log room t w1 a1"
    for w1 :: "('b, 'a, 'c, 'd, 'e) world" and a1 :: "('b, event_list, 'c, 'd, 'e) world"
  proof -
    have parts: "w_suspensions a1 = w_suspensions w1" "w_receipts a1 = w_receipts w1"
      using that by (simp_all add: log_refines_def)
    show ?thesis unfolding lost_race_def get_suspension_or_not_found_def svc'(2,4) parts ..
  qed
  have race: "related (=) (log_refines valid log room t)
      (and_then (on_suspensions (ss_accept_action_if_open (as_suspension_store svc) accept_now (sc_task_id command)
          (sc_suspend_id command) (sc_client_action_id command)) w)
        (\<lambda>accepted w1. case accepted of None \<Rightarrow> (lost_race svc command w1, w1)
           | Some record \<Rightarrow> finish_accept svc now command record w1))
      (and_then (on_suspensions (ss_accept_action_if_open (as_suspension_store svc) accept_now (sc_task_id command)
          (sc_suspend_id command) (sc_client_action_id command)) a)
        (\<lambda>accepted w1. case accepted of None \<Rightarrow> (lost_race svc' command w1, w1)
           | Some record \<Rightarrow> finish_accept svc' now command record w1))"
  proof (rule related_and_then [OF log_refines_parts(2) [OF R]])
    fix x y :: "task_suspension_record option"
      and w1 :: "('b, 'a, 'c, 'd, 'e) world" and a1 :: "('b, event_list, 'c, 'd, 'e) world"
    assume "x = y" and R1: "log_refines valid log room t w1 a1"
    then show "related (=) (log_refines valid log room t)
        (case x of None \<Rightarrow> (lost_race svc command w1, w1) | Some record \<Rightarrow> finish_accept svc now command record w1)
        (case y of None \<Rightarrow> (lost_race svc' command a1, a1) | Some record \<Rightarrow> finish_accept svc' now command record a1)"
      using related_accept [OF R1 svc \<open>clock now\<close> resume svc'(2-4)] lost [OF R1]
      by (cases "lost_race svc command w1") (auto split: option.splits)
  qed
  show ?thesis
    unfolding submit_action_def same svc'(4) using race R by (auto split: sum.splits option.splits)
qed

lemma related_move:
  assumes "log_refines valid log room t w a" "sx_event_store cfg = ops" "as_event_store svc = ops"
    and "move_ok clock m"
    and "\<And>k task s ss. dict_get (tp_monitors (w_host w)) k = Some (task, MonSleep s ss) \<Longrightarrow> wf_dict s"
  shows "log_refines valid log room t (temporal_move cfg svc m w)
    (temporal_move (list_config cfg) (list_service svc) m a)"
proof (cases m)
  case (MvSubmit env now task)
  then show ?thesis using related_snd [OF related_submit [OF assms(1,2)]] assms(4) by simp
next
  case (MvCancel env task)
  then show ?thesis using related_snd [OF related_cancel [OF assms(1)]] by simp
next
  case (MvWake now tid wake)
  then show ?thesis using related_step [OF assms(1,2), of now tid wake] assms(4,5) by simp
next
  case (MvAct env accept_now now command)
  have "clock now" using assms(4) MvAct by simp
  show ?thesis
    unfolding MvAct temporal_move.simps
    by (rule related_snd, rule related_action [OF assms(1)])
      (use assms(3) \<open>clock now\<close> related_resume in \<open>simp_all add: list_service_def\<close>)
qed

end

section \<open>What a move keeps\<close>

text \<open>
  A monitor is filed under its task's id and sleeps before one of its task type's steps; and
  nothing but the task's own submission and monitor touches its events, status and monitor.
\<close>

fun sleeps_ok :: "task_record \<Rightarrow> monitor_pc \<Rightarrow> bool" where
  "sleeps_ok task (MonSleep s ss) \<longleftrightarrow> set (s # ss) \<subseteq> set (progress_steps_for_task_type (tr_task_type task))"
| "sleeps_ok task _ \<longleftrightarrow> True"

definition monitors_ok :: "('r, 'v, 'p, 'c) temporal_world \<Rightarrow> bool" where
  "monitors_ok w \<longleftrightarrow> (\<forall>k task pc. dict_get (tp_monitors (w_host w)) k = Some (task, pc) \<longrightarrow>
     tr_task_id task = k \<and> sleeps_ok task pc)"

definition leaves :: "string \<Rightarrow> ('p, 'c) host_world \<Rightarrow> ('p, 'c) host_world \<Rightarrow> bool" where
  "leaves tid w0 w \<longleftrightarrow> monitors_ok w \<and> other_activity tid w0 w"

lemmas leaves_defs = leaves_def monitors_ok_def other_activity_def view_defs

lemma sleeps_next:
  "set ss \<subseteq> set (progress_steps_for_task_type (tr_task_type task)) \<Longrightarrow> sleeps_ok task (monitor_next task ss)"
  by (auto simp: monitor_next_def split: list.splits)

lemma sleeps_body:
  "monitor_body cfg now task pc wake w = (Inr (Some pc'), w') \<Longrightarrow> sleeps_ok task pc \<Longrightarrow> sleeps_ok task pc'"
  by (cases "(cfg, now, task, pc, wake, w)" rule: monitor_body.cases) (auto simp: and_then_eq_Inr_iff sleeps_next)

lemma leaves_and_then:
  "leaves tid w0 (snd m) \<Longrightarrow> (\<And>x w. leaves tid w0 w \<Longrightarrow> leaves tid w0 (snd (k x w))) \<Longrightarrow>
    leaves tid w0 (snd (and_then m k))"
  by (cases m; cases "fst m") auto

lemma leaves_same:
  "leaves tid w0 w \<Longrightarrow> w_registry w' = w_registry w \<Longrightarrow> w_events w' = w_events w \<Longrightarrow>
    tp_monitors (w_host w') = tp_monitors (w_host w) \<Longrightarrow> leaves tid w0 w'"
  by (simp add: leaves_defs)

lemma leaves_stores:
  "leaves tid w0 w \<Longrightarrow> leaves tid w0 (snd (get_client env w))"
  "leaves tid w0 w \<Longrightarrow> leaves tid w0 (snd (on_calls f w))"
  "leaves tid w0 w \<Longrightarrow> leaves tid w0 (snd (on_suspensions g w))"
  "leaves tid w0 w \<Longrightarrow> leaves tid w0 (snd (on_receipts h w))"
  "leaves tid w0 w \<Longrightarrow> leaves tid w0 (increment_counter c w)"
  "leaves tid w0 w \<Longrightarrow> leaves tid w0 (put_suspension cfg r w)"
  by (erule leaves_same; auto simp: get_client_def on_calls_def on_temporal_def on_store_defs put_suspension_def
      split: prod.splits sum.splits option.splits)+

lemma leaves_status:
  "demo_stores cfg \<Longrightarrow> t \<noteq> tid \<Longrightarrow> leaves tid w0 w \<Longrightarrow> leaves tid w0 (snd (streaming_status cfg now t st w))"
  by (auto simp: leaves_defs streaming_status_def demo_stores_def demo_registry_def
      on_registry_def demo_update_task_status_def dict_simps Let_def split: option.splits)

lemma leaves_append:
  "demo_stores cfg \<Longrightarrow> t \<noteq> tid \<Longrightarrow> leaves tid w0 w \<Longrightarrow> leaves tid w0 (snd (streaming_append_event cfg now t ty p w))"
  by (auto simp: leaves_defs streaming_append_event_def demo_stores_def demo_event_store_def
      demo_append_event_def on_events_def on_temporal_def task_events_append Let_def)

lemma leaves_set_monitor:
  "tr_task_id task \<noteq> tid \<Longrightarrow> sleeps_ok task pc \<Longrightarrow> leaves tid w0 w \<Longrightarrow> leaves tid w0 (set_monitor task pc w)"
  by (auto simp: leaves_defs set_monitor_def on_temporal_def dict_simps)

lemma leaves_pop_monitor: "t \<noteq> tid \<Longrightarrow> leaves tid w0 w \<Longrightarrow> leaves tid w0 (pop_monitor t w)"
  by (auto simp: leaves_defs pop_monitor_def on_temporal_def dict_simps split: if_splits)

lemma leaves_submit:
  assumes "demo_stores cfg" "tr_task_id task \<noteq> tid" "leaves tid w0 w"
  shows "leaves tid w0 (snd (streaming_submit_task cfg env now task w))"
  unfolding streaming_submit_task_def using assms
  by (auto intro!: leaves_and_then leaves_stores leaves_status leaves_append leaves_set_monitor)

lemma leaves_cancel:
  "leaves tid w0 w \<Longrightarrow> leaves tid w0 (snd (streaming_request_cancellation cfg env task w))"
  unfolding streaming_request_cancellation_def by (intro leaves_and_then leaves_stores)

lemma leaves_body:
  assumes "demo_stores cfg" "tr_task_id task \<noteq> tid" "leaves tid w0 w"
  shows "leaves tid w0 (snd (monitor_body cfg now task pc wake w))"
  using assms by (cases "(cfg, now, task, pc, wake, w)" rule: monitor_body.cases)
    (auto intro!: leaves_and_then leaves_status leaves_append leaves_stores)

lemma leaves_except:
  assumes "demo_stores cfg" "tr_task_id task \<noteq> tid" "leaves tid w0 w"
  shows "leaves tid w0 (snd (monitor_except cfg now task e w))"
  unfolding monitor_except_def using assms by (auto intro!: leaves_and_then leaves_status leaves_append)

lemma leaves_step:
  assumes cfg: "demo_stores cfg" and "k \<noteq> tid" and w: "leaves tid w0 w"
  shows "leaves tid w0 (monitor_step cfg now k wake w)"
proof (cases "dict_get (tp_monitors (w_host w)) k")
  case None
  then show ?thesis using w by (simp add: monitor_step_def)
next
  case (Some m)
  obtain task pc where m: "m = (task, pc)" by (cases m)
  have ok: "tr_task_id task = k" "sleeps_ok task pc" using w Some m by (auto simp: leaves_def monitors_ok_def)
  obtain r w1 where b: "monitor_body cfg now task pc wake w = (r, w1)" by (cases "monitor_body cfg now task pc wake w")
  have w1: "leaves tid w0 w1" using leaves_body [OF cfg _ w, of task now pc wake] ok(1) \<open>k \<noteq> tid\<close> b by simp
  have next_ok: "sleeps_ok task pc'" if "r = Inr (Some pc')" for pc'
    using sleeps_body [OF _ ok(2)] b that by blast
  show ?thesis
    using Some m b w1 next_ok ok(1) \<open>k \<noteq> tid\<close> leaves_except [OF cfg _ w1, of task now]
    by (auto simp: monitor_step_def split: sum.splits option.splits intro!: leaves_pop_monitor leaves_set_monitor)
qed

lemma leaves_resume:
  "leaves tid w0 w \<Longrightarrow> leaves tid w0 (snd (temporal_resume_task env c s w))"
  unfolding temporal_resume_task_def by (intro leaves_and_then leaves_stores)

lemma leaves_accept:
  fixes w :: "('p, 'c) host_world"
  assumes "as_event_store svc = demo_event_store" "as_resume_service svc = HostResume (temporal_resume_task env)"
    and "leaves tid w0 w"
  shows "leaves tid w0 (snd (finish_accept svc now command granted w))"
proof -
  have event: "leaves tid w0 (snd (on_events (es_append_event demo_event_store (accepted_event now command)) v))"
    if "leaves tid w0 v" for v
    using that by (auto simp: leaves_defs demo_event_store_def demo_append_event_def on_events_def
        task_events_append accepted_event_def)
  have after: "leaves tid w0 (snd (case m of
         (Inl e, w3) \<Rightarrow>
           (if is_exception e
            then (Inr (action_result command SA_ACCEPTED), increment_counter ''actions_accepted_total''
                    (increment_counter ''actions_resume_pending_total'' w3))
            else (Inl e, w3))
       | (Inr _, w3) \<Rightarrow> and_then (on_suspensions (ss_mark_resume_dispatched (as_suspension_store svc)
                        (sc_task_id command) (sc_suspend_id command)) w3)
              (\<lambda>_ w4. (Inr (action_result command SA_ACCEPTED), increment_counter ''actions_accepted_total'' w4))))"
    if "leaves tid w0 (snd m)" for m :: "(exc + unit) \<times> ('p, 'c) host_world"
    using that by (cases m; cases "fst m") (auto intro!: leaves_and_then leaves_stores)
  show ?thesis
    unfolding finish_accept_def assms(1)
    using assms(2,3) by (auto intro!: leaves_and_then after leaves_resume event leaves_stores)
qed

lemma leaves_action:
  assumes "as_event_store svc = demo_event_store" "as_resume_service svc = HostResume (temporal_resume_task env)"
    and "leaves tid w0 w"
  shows "leaves tid w0 (snd (submit_action svc accept_now now command w))"
  unfolding submit_action_def
  using assms by (auto split: sum.splits option.splits intro!: leaves_and_then leaves_stores leaves_accept)

lemma monitor_inv_cases:
  assumes "monitor_inv task w"
  obtains st where "status_of w (tr_task_id task) = Some st" "trace_ok task st (event_types_of w (tr_task_id task))"
    "case monitor_of w (tr_task_id task) of
       Some _ \<Rightarrow> st = RUNNING
     | None \<Rightarrow> is_terminal st \<or> event_types_of w (tr_task_id task) = [TASK_STARTED]"
proof -
  from assms obtain st where st: "status_of w (tr_task_id task) = Some st"
    "case monitor_of w (tr_task_id task) of
       Some (task', pc) \<Rightarrow> task' = task \<and> st = RUNNING \<and> pc_trace task pc (event_types_of w (tr_task_id task))
     | None \<Rightarrow> trace_ok task st (event_types_of w (tr_task_id task))
            \<and> (st = RUNNING \<longrightarrow> event_types_of w (tr_task_id task) = [TASK_STARTED])"
    by (auto simp: monitor_inv_def)
  show thesis
  proof (cases "monitor_of w (tr_task_id task)")
    case None
    with st have "st \<noteq> ACCEPTED" by (simp add: trace_ok_def)
    with None st show ?thesis by (cases st) (auto simp: is_terminal_def intro!: that)
  next
    case (Some m)
    with st pc_trace_ok show ?thesis by (cases m) (auto intro!: that)
  qed
qed

section \<open>A task's run on a store\<close>

fun submits :: "string \<Rightarrow> host_move \<Rightarrow> bool" where
  "submits tid (MvSubmit env now task) \<longleftrightarrow> tr_task_id task = tid"
| "submits tid _ \<longleftrightarrow> False"

lemma list_config_stores: "sx_registry cfg = demo_registry \<Longrightarrow> demo_stores (list_config cfg)"
  by (simp add: demo_stores_def)

lemma move_leaves:
  assumes "sx_registry cfg = demo_registry" "\<not> submits tid m" "\<nexists>now wake. m = MvWake now tid wake" "leaves tid a0 a"
  shows "leaves tid a0 (temporal_move (list_config cfg) (list_service svc) m a)"
  using assms
  by (cases m) (auto intro!: leaves_submit leaves_cancel leaves_step leaves_action list_config_stores
      simp: list_service_def)

lemma move_monitors:
  assumes "sx_registry cfg = demo_registry" "monitors_ok a"
  shows "monitors_ok (temporal_move (list_config cfg) (list_service svc) m a)"
proof -
  obtain t where t: "\<not> submits t m" "\<nexists>now wake. m = MvWake now t wake"
  proof (cases m)
    case (MvSubmit env now task)
    then show thesis by (intro that [of "''x'' @ tr_task_id task"]) simp_all
  next
    case (MvWake now k wake)
    then show thesis by (intro that [of "''x'' @ k"]) simp_all
  qed (use that [of "[]"] in simp_all)
  have "leaves t a a" using assms(2) by (simp add: leaves_def other_activity_def)
  from move_leaves [OF assms(1) t this, where svc = svc] show ?thesis by (simp add: leaves_def)
qed

lemma move_monitored:
  assumes "sx_registry cfg = demo_registry" "monitored (list_config cfg) env task a" "monitors_ok a"
    and "\<not> submits (tr_task_id task) m"
  shows "monitored (list_config cfg) env task (temporal_move (list_config cfg) (list_service svc) m a)"
proof (cases "\<exists>now wake. m = MvWake now (tr_task_id task) wake")
  case True
  then show ?thesis using assms(2) by (auto intro: monitored.woken)
next
  case False
  have "leaves (tr_task_id task) a a" using assms(3) by (simp add: leaves_def other_activity_def)
  from move_leaves [OF assms(1,4) False this] show ?thesis
    using assms(2) by (auto simp: leaves_def intro: monitored.other)
qed

lemma monitors_sleep:
  "monitors_ok w \<Longrightarrow> dict_get (tp_monitors (w_host w)) k = Some (task, MonSleep s ss) \<Longrightarrow> wf_dict s"
  unfolding monitors_ok_def by (metis payloads_ok(2) list.set_intros(1) sleeps_ok.simps(1) subsetD)

lemma start_monitors:
  assumes "streaming_submit_task cfg env now task w = (Inr (), w')" "demo_stores cfg" "monitors_ok w"
  shows "monitors_ok w'"
proof -
  have "leaves (''x'' @ tr_task_id task) w w" using assms(3) by (simp add: leaves_def other_activity_def)
  from leaves_submit [OF assms(2) _ this, of task env now] assms(1) show ?thesis by (simp add: leaves_def)
qed

context writable_store
begin

lemma related_run:
  assumes "sx_event_store cfg = ops" "as_event_store svc = ops" "sx_registry cfg = demo_registry"
    and "log_refines valid log room (tr_task_id task) w a" "monitored (list_config cfg) env task a" "monitors_ok a"
    and "\<forall>m \<in> set moves. move_ok clock m \<and> \<not> submits (tr_task_id task) m"
  shows "\<exists>a'. log_refines valid log room (tr_task_id task) (fold (temporal_move cfg svc) moves w) a'
    \<and> monitored (list_config cfg) env task a'"
  using assms(4-7)
proof (induction moves arbitrary: w a)
  case Nil
  then show ?case by auto
next
  case (Cons m moves)
  have "w_host a = w_host w" using Cons.prems(1) by (simp add: log_refines_def)
  then have "wf_dict s" if "dict_get (tp_monitors (w_host w)) k = Some (t, MonSleep s ss)" for k t s ss
    using monitors_sleep [OF Cons.prems(3)] that by simp
  then have "log_refines valid log room (tr_task_id task) (temporal_move cfg svc m w)
      (temporal_move (list_config cfg) (list_service svc) m a)"
    using Cons.prems(4) by (intro related_move [OF Cons.prems(1) assms(1,2)]) auto
  from Cons.IH [OF this move_monitored [OF assms(3) Cons.prems(2,3)] move_monitors [OF assms(3) Cons.prems(3)]]
  show ?case using Cons.prems(4) by simp
qed

lemma trace_in_store:
  assumes "sx_event_store cfg = ops" "as_event_store svc = ops" "sx_registry cfg = demo_registry"
    and "valid (w_events w0)" "log (w_events w0) (tr_task_id task) = []"
    and "dict_get (w_registry w0) (tr_task_id task) \<noteq> None" "monitors_ok w0" "clock now"
    and "streaming_submit_task cfg env now task w0 = (Inr (), w1)"
    and "\<forall>m \<in> set moves. move_ok clock m \<and> \<not> submits (tr_task_id task) m"
  shows "\<exists>st types n. map_option tr_status (dict_get (w_registry (fold (temporal_move cfg svc) moves w1)) (tr_task_id task)) = Some st
    \<and> trace_ok task st (filter (\<lambda>t. t \<noteq> TASK_ACTION_ACCEPTED) types)
    \<and> map ev_type (log (w_events (fold (temporal_move cfg svc) moves w1)) (tr_task_id task)) = drop n types
    \<and> ((\<forall>L < length types. room L) \<longrightarrow> n = 0)
    \<and> (case dict_get (tp_monitors (w_host (fold (temporal_move cfg svc) moves w1))) (tr_task_id task) of
         Some _ \<Rightarrow> st = RUNNING
       | None \<Rightarrow> is_terminal st \<or> filter (\<lambda>t. t \<noteq> TASK_ACTION_ACCEPTED) types = [TASK_STARTED])"
proof -
  let ?tid = "tr_task_id task" and ?w = "fold (temporal_move cfg svc) moves w1"
  define a0 where "a0 = \<lparr>w_registry = w_registry w0, w_events = ([] :: event_list), w_suspensions = w_suspensions w0,
    w_receipts = w_receipts w0, w_host = w_host w0, w_metrics = w_metrics w0\<rparr>"
  have "log_refines valid log room ?tid w0 a0"
    using assms(4,5) by (auto simp: log_refines_def a0_def tail_of_def task_events_def)
  from related_submit [OF this assms(1,8), of env task] assms(9) obtain a1 where
    a1: "streaming_submit_task (list_config cfg) env now task a0 = (Inr (), a1)" "log_refines valid log room ?tid w1 a1"
    by (cases "streaming_submit_task (list_config cfg) env now task a0") auto
  have ok: "monitors_ok a0" using assms(7) by (simp add: monitors_ok_def a0_def)
  have "monitored (list_config cfg) env task a1"
    using a1(1) by (rule monitored.submitted) (use assms(6) in \<open>auto simp: view_defs a0_def task_events_def\<close>)
  from related_run [OF assms(1-3) a1(2) this start_monitors [OF a1(1) list_config_stores [OF assms(3)] ok] assms(10)]
  obtain a where a: "log_refines valid log room ?tid ?w a" "monitored (list_config cfg) env task a" by blast
  from monitored_inv [OF a(2) list_config_stores [OF assms(3)]] obtain st where st: "status_of a ?tid = Some st"
    "trace_ok task st (event_types_of a ?tid)"
    "case monitor_of a ?tid of Some _ \<Rightarrow> st = RUNNING | None \<Rightarrow> is_terminal st \<or> event_types_of a ?tid = [TASK_STARTED]"
    using monitor_inv_cases by blast
  from a(1) have "tail_of room (log (w_events ?w) ?tid) (task_events (w_events a) ?tid)" by (simp add: log_refines_def)
  from tail_of_types [OF this] obtain n where n: "map ev_type (log (w_events ?w) ?tid) = drop n (map ev_type (task_events (w_events a) ?tid))"
    "(\<forall>L < length (task_events (w_events a) ?tid). room L) \<longrightarrow> n = 0" by blast
  have same: "w_registry a = w_registry ?w" "w_host a = w_host ?w" using a(1) by (simp_all add: log_refines_def)
  show ?thesis
    by (rule exI [of _ st], rule exI [of _ "map ev_type (task_events (w_events a) ?tid)"], rule exI [of _ n])
      (use st [unfolded view_defs same] n in simp)
qed

end

section \<open>Properties\<close>


end
