(* ===== verification/TemporalStoreWitnesses.thy ===== *)
theory TemporalStoreWitnesses
  imports TemporalStores TemporalWitnesses RedisProperties
begin

text \<open>
  A document review on the example host over the fake Redis of the tests: the submission, five
  wake-ups of the monitor, the reviewer's approval and the result of the workflow.
\<close>

definition redis_review_config :: "(task_dict, fake_redis, suspension_dict) streaming_config" where
  "redis_review_config = \<lparr>sx_registry = demo_registry,
     sx_event_store = redis_event_store fake_redis_client default_redis_settings parse_iso,
     sx_put_suspension = Some (\<lambda>r d. dict_set d (su_task_id r, su_suspend_id r) r),
     sx_task_queue = ''taskbridge-demo'', sx_str = render\<rparr>"

definition redis_review_service ::
  "(task_dict, fake_redis, suspension_dict, receipt_dict, temporal_state) action_service" where
  "redis_review_service = \<lparr>as_registry = demo_registry, as_suspension_store = mem_suspension_store,
     as_receipt_store = mem_receipt_store,
     as_event_store = redis_event_store fake_redis_client default_redis_settings parse_iso,
     as_ownership_policy = demo_ownership_policy,
     as_resume_service = HostResume (temporal_resume_task willing_env), as_action_validation_policy = None\<rparr>"

definition redis_review_start :: "(task_dict, fake_redis, suspension_dict, receipt_dict) temporal_world" where
  "redis_review_start = \<lparr>w_registry = [(''t9'', review_task)], w_events = empty_redis, w_suspensions = [],
     w_receipts = [], w_host = streaming_init, w_metrics = []\<rparr>"

definition redis_review_moves :: "host_move list" where
  "redis_review_moves = replicate 5 (MvWake sample_time ''t9'' (Woken JNull))
     @ [MvAct willing_env sample_time sample_time approve_command,
        MvWake sample_time ''t9'' (Woken (JDict [(''final_note'', JStr ''Document was approve by user'')]))]"

definition redis_review_started :: "(task_dict, fake_redis, suspension_dict, receipt_dict) temporal_world" where
  "redis_review_started = snd (streaming_submit_task redis_review_config willing_env sample_time review_task redis_review_start)"

lemma redis_review_submits:
  "streaming_submit_task redis_review_config willing_env sample_time review_task redis_review_start
     = (Inr (), redis_review_started)"
proof -
  have "fst (streaming_submit_task redis_review_config willing_env sample_time review_task redis_review_start) = Inr ()"
    by code_simp
  then show ?thesis by (simp add: redis_review_started_def prod_eq_iff)
qed


end
