(* ===== verification/Spec2Isabelle.thy ===== *)
theory Spec2Isabelle
  imports ActionWitnesses RedisProperties HttpWitnesses ReleaseProperties ProtocolWitnesses GreeterWitnesses HostProperties RouteSettings
  StreamSystem DocsProperties TemporalStoreWitnesses
begin

text \<open>
  Task Bridge: the Python backend of a task streaming protocol. A host application submits tasks
  to an executor; clients create, cancel and answer tasks over HTTP and read the events of a task
  by polling, over a WebSocket or over server-sent events, each from the marker of the last event
  they have. This development models the library (\<open>backend/taskbridge-fastapi/taskbridge\<close>), its
  Temporal adapter (\<open>backend/adapters/temporal/taskbridge_temporal\<close>), the two example hosts
  (\<open>examples/fastapi-host/app\<close>, \<open>examples/01-minimal-greeter\<close>) and the release, documentation
  and protocol scripts (\<open>scripts/release_tools.py\<close>, \<open>scripts/docs_prepare.py\<close>,
  \<open>protocol/validate_protocol.py\<close>).

  How the model corresponds to the code.
  \<^item> A class or dataclass is a record, an enum a datatype, a dictionary an association list with
    \<open>dict_get\<close> and \<open>dict_set\<close> (theory Prelude), a string a list of characters (PyText), a payload a
    \<open>json\<close> value (Json); integers are Python's unbounded integers, floats only occur in the
    progress of the greeter (PyFloat). A float in a payload is not modelled.
  \<^item> An exception is a value of \<open>exc\<close> (Errors): what can raise returns \<open>exc + 'a\<close>, and
    \<open>and_then\<close> is the sequence of two statements.
  \<^item> The state of a host is one record \<open>world\<close> (Interfaces): the registry, event, suspension and
    receipt stores, the state of the executor, and the counters recorded so far. An abstract base
    class of the library is a record of operations on its part of the world.
  \<^item> A coroutine that can be interleaved is a program counter kept in the world and a step function
    from one await to the next: \<open>submit_step\<close> for a request of the action service, \<open>fake_await\<close>,
    \<open>greeter_await\<close> and \<open>monitor_body\<close> for the executors. Reachable worlds are inductive relations
    over these steps and the operations of the services. A session over a WebSocket or an event
    stream is run against the list of worlds its reads meet.
  \<^item> The clock, \<open>uuid4\<close>, the Temporal server, the Redis server, the Firebase SDK, Pydantic's
    coercions and the schema library are parameters. Ids from \<open>uuid4\<close> are assumed to be fresh.

  Theories, by component.
  \<^item> Data: Models (\<open>models.py\<close>), Errors (\<open>errors.py\<close>), Json, PyText, PyFloat, JsonCodec
    (\<open>json.dumps\<close> and \<open>json.loads\<close>), IsoTime (\<open>datetime.isoformat\<close> and back), TextLines
    (\<open>splitlines\<close>, \<open>strip\<close>).
  \<^item> Ports: Interfaces (\<open>task_registry.py\<close>, \<open>event_store.py\<close>, \<open>suspension_store.py\<close>,
    \<open>action_receipt_store.py\<close>, \<open>worker.py\<close>, \<open>security.py\<close>, \<open>observability.py\<close>) with the contracts
    as locales: \<open>task_registry\<close>, \<open>event_store\<close> and the suspension and receipt stores. HostStores
    and EventStores interpret them on the in-memory stores of the two hosts (\<open>demo_adapters.py\<close>,
    \<open>enterprise_stores.py\<close>, \<open>app.py\<close>), RedisContract on the Redis store.
  \<^item> Services (\<open>services.py\<close>): TaskServices (creation, polling, cancellation, subscription) with
    TaskProperties; ActionService, ActionInterleaving and ActionProperties (actions on suspended
    tasks); Maintenance (reconciliation of resume hand-offs, retention).
  \<^item> Redis event store (\<open>event_store.py\<close>): RedisStore, RedisContract, RedisProperties.
  \<^item> Executors: FakeExecutor and FakeSystem (\<open>fakes.py\<close>); TemporalAdapter
    (\<open>taskbridge_temporal\<close>, \<open>task_handlers.py\<close>, \<open>temporal_workflows.py\<close>), TemporalExecutor
    (\<open>temporal_streaming_executor.py\<close>, \<open>temporal_resume_service.py\<close>), TemporalProperties;
    TemporalStores runs the Temporal host over the Redis store and over the list of events side by
    side (locale \<open>writable_store\<close>).
  \<^item> Transports: HttpApi and HttpProperties (\<open>routes_http.py\<close>), WsSession and WsProperties
    (\<open>routes_ws.py\<close>, \<open>handlers.py\<close>, \<open>dependencies.py\<close>), SseStream and SseProperties
    (\<open>stream_runtime.py\<close>), RouteSettings (the settings of the routers, \<open>stream_settings.py\<close>, log
    lines), Readiness (\<open>readiness.py\<close>).
  \<^item> Protocol: Protocol (\<open>task_event.schema.json\<close> as a predicate on JSON values, the typed payloads
    of \<open>models.py\<close>, \<open>validate_protocol.py\<close>), ProtocolConformance.
  \<^item> Hosts: HostWiring and HostProperties (\<open>wiring.py\<close>, \<open>main.py\<close>, \<open>dependencies.py\<close>),
    FirebaseAuth (\<open>firebase_adapters.py\<close>), Greeter and GreeterProperties (\<open>app.py\<close>);
    StreamSystem puts the WebSocket endpoint, the services and the fake executor together.
  \<^item> Scripts: ReleaseTools and ReleaseProperties (\<open>release_tools.py\<close>); FileTree, LlmsText, DocsPrepare
    and DocsProperties (\<open>docs_prepare.py\<close>). PackageExports: the names the packages export.
  \<^item> Samples and the theories whose names end in Witnesses hold concrete worlds on which the
    properties are applied.

  What the properties show.
  \<^item> Actions: whatever requests, retention, reconciliation and host writes are interleaved, one
    suspension is answered ACCEPTED once; a request that is not interleaved is one step of an
    abstract specification; receipts of accepted actions stay; retries are answered alike;
    reconciliation dispatches what is pending, and what it can never repair.
  \<^item> Tasks: creation is idempotent and keeps requests unique; a failed submission leaves a FAILED
    task; foreign tasks look like unknown ones; cancellation reaches the executor once.
  \<^item> Events: over each store a reader that follows its marker gets a growing log with no gap and no
    duplicate; a WebSocket session and an event stream deliver it in order, across replay, live
    batches and reconnection; the text of an event stream parses back to the log.
  \<^item> Executors: the trace, the statuses and the end of a task in every interleaving; the way of a
    review through suspension, signal, workflow and completion; the trace of a Temporal task in its
    Redis stream, whatever the host does meanwhile and whatever trimming has left; which of their events the protocol
    schema accepts.
  \<^item> HTTP: what a status code tells about the effect of a create request; bounds of uploads and of
    pages; readiness.
  \<^item> Hosts and scripts: the wired fake host and the greeter from end to end; a WebSocket session
    that watches a task of the fake host is closed after it has sent exactly the events up to the
    terminal one; changelog and release notes round trips; the documentation script publishes
    what was generated and is idempotent, and its agent index names an import that fails.

  Bounds and fuel. A coroutine of the fake executor ends after \<open>2 * progress_ticks + 5\<close> awaits, one
  of the greeter after \<open>2 * ticks + 6\<close>, the monitor of a Temporal task after 6: a task type has at
  most three progress steps. \<open>json_loads\<close> recurses with one more unit of fuel than the text has
  characters, and every nested value consumes a character. The floats of PyFloat have no bound on
  the exponent; the code only divides small counters.

  Not modelled. The Temporal worker process (\<open>temporal_worker.py\<close>), which only connects and starts
  the SDK; the calls of git and of Gradle and the argument parser of the scripts; middleware,
  routing and multipart parsing of the web framework; the Android client, which is Kotlin; tests
  and build files. Log lines other than their payload have no effect and are left out.
\<close>

end
